theory Spec2Isabelle
  imports Complex_Main
begin

section \<open>Numbers\<close>

text \<open>
  The engine computes with JavaScript numbers. They are modelled as reals: rounding,
  NaN and the infinities are outside the model. Array indices and frame counters are
  integers. \<open>Math.floor\<close> is \<open>floor\<close>, \<open>Math.ceil\<close> is \<open>ceiling\<close>; the remainder
  operator \<open>%\<close> truncates the quotient toward zero, so its result has the sign of the
  dividend.
\<close>

definition js_trunc :: "real \<Rightarrow> int" where
  "js_trunc x = (if 0 \<le> x then \<lfloor>x\<rfloor> else \<lceil>x\<rceil>)"

definition js_rem :: "real \<Rightarrow> real \<Rightarrow> real" where
  "js_rem x m = x - m * of_int (js_trunc (x / m))"

text \<open>\<open>Math.hypot\<close> and \<open>Math.atan2\<close> (the latter at \<open>(0, 0)\<close> gives 0).\<close>

definition hypot :: "real \<Rightarrow> real \<Rightarrow> real" where
  "hypot a b = sqrt (a * a + b * b)"

definition js_atan2 :: "real \<Rightarrow> real \<Rightarrow> real" where
  "js_atan2 y x =
     (if x > 0 then arctan (y / x)
      else if x < 0 then (if y \<ge> 0 then arctan (y / x) + pi else arctan (y / x) - pi)
      else if y > 0 then pi / 2 else if y < 0 then - (pi / 2) else 0)"

definition LOGICAL_HEIGHT :: real where
  "LOGICAL_HEIGHT = 600"

section \<open>Terrain sampling: \<open>getGroundHeightAt\<close>\<close>

text \<open>
  A read \<open>terrain[i]\<close> outside the array gives \<open>undefined\<close> in JavaScript; the model
  makes that \<open>None\<close>, so that an out-of-bounds read is visible in the result.
\<close>

definition terrain_read :: "real list \<Rightarrow> int \<Rightarrow> real option" where
  "terrain_read hs i =
     (if 0 \<le> i \<and> i < int (length hs) then Some (hs ! nat i) else None)"

text \<open>The two clamped sample indices \<open>i1\<close> and \<open>i2\<close> of \<open>getGroundHeightAt\<close>.\<close>

definition ground_indices :: "real list \<Rightarrow> real \<Rightarrow> int \<times> int" where
  "ground_indices hs x =
     (let segmentWidth = 50 :: real;
          index = \<lfloor>x / segmentWidth\<rfloor>;
          i1 = max 0 (min index (int (length hs) - 1));
          i2 = max 0 (min (index + 1) (int (length hs) - 1))
      in (i1, i2))"

definition getGroundHeightAt :: "real list \<Rightarrow> real \<Rightarrow> real option" where
  "getGroundHeightAt hs x =
     (if length hs = 0 then Some LOGICAL_HEIGHT
      else
        let segmentWidth = 50 :: real;
            t = js_rem x segmentWidth / segmentWidth;
            (i1, i2) = ground_indices hs x
        in case terrain_read hs i1 of
             None \<Rightarrow> None
           | Some h1 \<Rightarrow>
               (case terrain_read hs i2 of
                  None \<Rightarrow> None
                | Some h2 \<Rightarrow> Some (h1 + (h2 - h1) * t)))"

definition groundHeight :: "real list \<Rightarrow> real \<Rightarrow> real" where
  \<comment> \<open>The height \<open>getGroundHeightAt\<close> returns; it is never \<open>None\<close>, see \<open>getGroundHeightAt_Some\<close>.\<close>
  "groundHeight hs x = (case getGroundHeightAt hs x of Some h \<Rightarrow> h | None \<Rightarrow> LOGICAL_HEIGHT)"

section \<open>Data model\<close>

text \<open>
  The types of the engine's \<open>types\<close> module. Fields that only feed drawing (ids, colours,
  sprite variants) are left out; an optional field is an \<open>option\<close>, \<open>None\<close> standing for
  \<open>undefined\<close>.
\<close>

datatype BiomeStyle = dunes | crags | spire | plateau

datatype EnemyArchetype =
  crawler | sentinel | dasher | hornet | guardian | neutral | sandworm | shielder | spore

datatype WeaponType = blaster | scatter | rapid | sniper | launcher

datatype HazardType = lava | acid | spikes | ice | geyser | electric | none

datatype WeatherType = clear | rain | acid_rain | snow | ash | sandstorm

datatype AiState = idle | alert | chase | attack | flee | charge | phase1 | phase2

datatype Rarity = common | elite

datatype EntityType = player_t | enemy_t | projectile_t | enemy_projectile_t | loot_t | platform_t

datatype LootType = core | weapon | health_l

datatype WeatherPhase = phase_clear | buildup | active | fading

record Vector2 =
  cx :: real
  cy :: real

record Hazard =
  hz_x :: real
  hz_width :: real
  hz_type :: HazardType

record Entity =
  pos :: Vector2
  vel :: Vector2
  size_e :: Vector2
  etype :: EntityType
  health :: real
  maxHealth :: real
  isGrounded :: bool
  markedForDeletion :: bool
  facingRight :: bool
  animOffset :: real
  hitTimer :: real
  fuel :: "real option"
  maxFuel :: "real option"
  coyoteTimer :: "real option"
  archetype :: "EnemyArchetype option"
  aiState :: "AiState option"
  attackTimer :: "real option"
  alertTimer :: "real option"
  rarity :: "Rarity option"
  isBurrowed :: "bool option"
  shieldHp :: "real option"
  lootType :: "LootType option"
  coreTier :: "int option"
  weaponType :: "WeaponType option"
  pierceCount :: "real option"
  isExplosive :: "bool option"

record PlanetData =
  planet_name :: string
  gravity :: real
  atmosphereColor :: string
  groundColor :: string
  enemyDensity :: real
  allowedBiomes :: "BiomeStyle list"
  weatherTraits :: "WeatherType list"
  vegetationDensity :: real
  weatherVolatility :: real

record PlayerUpgrades =
  up_hull :: real
  up_weapon :: real
  up_thrusters :: real
  up_speed :: real

text \<open>The statistics derived from the upgrades at the head of the component.\<close>

definition maxHealth_of :: "PlayerUpgrades \<Rightarrow> real" where
  "maxHealth_of U = 100 + (up_hull U - 1) * 25"

definition moveSpeedMult :: "PlayerUpgrades \<Rightarrow> real" where
  "moveSpeedMult U = 1 + (up_speed U - 1) * 0.15"

definition fuelCapacityMult :: "PlayerUpgrades \<Rightarrow> real" where
  "fuelCapacityMult U = 1 + (up_thrusters U - 1) * 0.2"


definition maxFuelBase :: "PlayerUpgrades \<Rightarrow> real" where
  "maxFuelBase U = 100 * fuelCapacityMult U"

text \<open>
  The tables of the constants module (\<open>PHYSICS\<close>, \<open>ENTITY_SIZE\<close>, \<open>ENEMY_STATS\<close>,
  \<open>WEAPONS\<close>). Every function that reads a constant takes the tables as a parameter, so
  that what is proved for every table does not depend on the tuning of the game; the
  module's own values are \<open>game_constants\<close> below. A statistic that the engine reads as
  \<open>stats.f || d\<close>, or that only some rows have, is an \<open>option\<close>.
\<close>

record Physics =
  GRAVITY :: real
  FRICTION :: real
  AIR_FRICTION :: real
  PLAYER_SPEED :: real
  MAX_SPEED :: real
  JUMP_FORCE :: real
  JETPACK_FORCE :: real
  JETPACK_FUEL_CONSUMPTION :: real
  JETPACK_FUEL_RECHARGE :: real
  COYOTE_FRAMES :: real
  INVULNERABILITY_FRAMES :: real
  PROJECTILE_SPEED :: real

record EnemyStats =
  st_hp :: real
  st_score :: "real option"
  st_speed :: "real option"
  st_aggroRange :: "real option"
  st_range :: "real option"
  st_dashSpeed :: real

record WeaponStats =
  w_name :: string
  w_damageMult :: real
  w_fireRate :: real
  w_speed :: real
  w_count :: nat
  w_spread :: real
  w_recoil :: real
  w_isExplosive :: "bool option"
  w_gravity :: "real option"
  w_pierce :: "real option"
  w_knockback :: real

record Constants =
  PHYSICS :: Physics
  ENEMY_STATS :: "EnemyArchetype \<Rightarrow> EnemyStats"
  ENTITY_SIZE :: "EnemyArchetype \<Rightarrow> Vector2"
  SIZE_PLAYER :: Vector2
  SIZE_PROJECTILE :: Vector2
  SIZE_ENEMY_PROJECTILE :: Vector2
  SIZE_LOOT :: Vector2
  SIZE_WEAPON_DROP :: Vector2
  SIZE_HEALTH_DROP :: Vector2
  WEAPONS :: "WeaponType \<Rightarrow> WeaponStats"

text \<open>\<open>a || d\<close> on an optional number: \<open>undefined\<close> and \<open>0\<close> are falsy.\<close>

definition js_or :: "real option \<Rightarrow> real \<Rightarrow> real" where
  "js_or a d = (case a of None \<Rightarrow> d | Some v \<Rightarrow> if v = 0 then d else v)"

text \<open>
  The mutable game state (\<open>gameState.current\<close>). Particles, stars, background layers and
  the HUD are drawing data and are left out; floating texts keep their text only, since the
  engine uses them to announce what happened (\<open>BLOCK\<close>, \<open>SHIELD UP\<close>). The calls of the
  two callbacks \<open>onVictory\<close> and \<open>onGameOver\<close> are logged with their score and core count.
\<close>

record GameState =
  player :: Entity
  currentWeapon :: WeaponType
  weaponCooldown :: real
  enemies :: "Entity list"
  projectiles :: "Entity list"
  loot :: "Entity list"
  texts :: "string list"
  hazards :: "Hazard list"
  camera_x :: real
  camera_y :: real
  camera_shake :: real
  camera_lookOffset :: real
  aimAngle :: real
  score :: real
  coresCollected :: int
  totalCoresNeeded :: int
  frameCount :: int
  terrain :: "real list"
  isPlaying :: bool
  bossActive :: bool
  jumpLock :: bool
  introTimer :: real
  lookDownTimer :: int
  logicalWidth :: real
  logicalHeight :: real
  messageQueue :: "string list"
  nextSquadSpawnX :: real
  timeOfDay :: real
  weatherState :: WeatherPhase
  currentWeather :: WeatherType
  weatherIntensity :: real
  weatherTimer :: real
  hitStop :: real
  onVictory_calls :: "(real \<times> int) list"
  onGameOver_calls :: "(real \<times> int) list"

text \<open>
  The state at mission start: the initial value of \<open>gameState\<close> after the reset at the head
  of the mission effect, before the map is generated, for the derived maximal health and fuel.
\<close>

definition initial_player :: "Constants \<Rightarrow> real \<Rightarrow> real \<Rightarrow> Entity" where
  "initial_player C maxHealth0 fuel0 =
     \<lparr>pos = \<lparr>cx = 100, cy = -200\<rparr>, vel = \<lparr>cx = 0, cy = 0\<rparr>, size_e = SIZE_PLAYER C,
      etype = player_t, health = maxHealth0, maxHealth = maxHealth0, isGrounded = False,
      markedForDeletion = False, facingRight = True, animOffset = 0, hitTimer = 0,
      fuel = Some fuel0, maxFuel = Some fuel0, coyoteTimer = Some 0,
      archetype = None, aiState = None, attackTimer = None, alertTimer = None,
      rarity = None, isBurrowed = None, shieldHp = None, lootType = None, coreTier = None,
      weaponType = None, pierceCount = None, isExplosive = None\<rparr>"

definition mission_start :: "Constants \<Rightarrow> real \<Rightarrow> real \<Rightarrow> GameState" where
  "mission_start C maxHealth0 fuel0 =
     \<lparr>player = initial_player C maxHealth0 fuel0,
      currentWeapon = blaster, weaponCooldown = 0,
      enemies = [], projectiles = [], loot = [], texts = [], hazards = [],
      camera_x = 0, camera_y = 0, camera_shake = 0, camera_lookOffset = 0,
      aimAngle = 0, score = 0, coresCollected = 0, totalCoresNeeded = 5, frameCount = 0,
      terrain = [], isPlaying = True, bossActive = False, jumpLock = False,
      introTimer = 180, lookDownTimer = 0, logicalWidth = 800, logicalHeight = 600,
      messageQueue = [], nextSquadSpawnX = 800,
      timeOfDay = 0.15, weatherState = phase_clear, currentWeather = clear,
      weatherIntensity = 0, weatherTimer = 400, hitStop = 0,
      onVictory_calls = [], onGameOver_calls = []\<rparr>"

section \<open>Collision tests\<close>

definition checkCollision :: "Entity \<Rightarrow> Entity \<Rightarrow> bool" where
  "checkCollision r1 r2 =
     (cx (pos r1) < cx (pos r2) + cx (size_e r2) \<and>
      cx (pos r1) + cx (size_e r1) > cx (pos r2) \<and>
      cy (pos r1) < cy (pos r2) + cy (size_e r2) \<and>
      cy (pos r1) + cy (size_e r1) > cy (pos r2))"

definition checkCollisionInflated :: "Entity \<Rightarrow> Entity \<Rightarrow> real \<Rightarrow> bool" where
  "checkCollisionInflated proj target padding =
     (cx (pos proj) - padding < cx (pos target) + cx (size_e target) \<and>
      cx (pos proj) + cx (size_e proj) + padding > cx (pos target) \<and>
      cy (pos proj) - padding < cy (pos target) + cy (size_e target) \<and>
      cy (pos proj) + cy (size_e proj) + padding > cy (pos target))"

definition spawnFloatingText :: "string \<Rightarrow> GameState \<Rightarrow> GameState" where
  "spawnFloatingText txt s = s\<lparr>texts := texts s @ [txt]\<rparr>"

definition addScreenshake :: "real \<Rightarrow> GameState \<Rightarrow> GameState" where
  "addScreenshake amount s = s\<lparr>camera_shake := amount\<rparr>"

definition queueMessage :: "string \<Rightarrow> GameState \<Rightarrow> GameState" where
  "queueMessage txt s = s\<lparr>messageQueue := messageQueue s @ [txt]\<rparr>"

section \<open>Contact damage\<close>

text \<open>
  The player-enemy contact test at the end of an enemy's turn in \<open>update\<close>: the player
  loses 15 health unless the hit timer is still running or the enemy is neutral.
\<close>

definition contact_damage :: "Constants \<Rightarrow> Entity \<Rightarrow> GameState \<Rightarrow> GameState" where
  "contact_damage C ent s =
     (let p = player s in
      if checkCollision p ent \<and> archetype ent \<noteq> Some neutral then
        if hitTimer p \<le> 0 then
          addScreenshake 10
            (spawnFloatingText ''-15 HP''
              (s\<lparr>player := p\<lparr>health := health p - 15,
                               hitTimer := INVULNERABILITY_FRAMES (PHYSICS C),
                               vel := \<lparr>cx = (if cx (pos p) < cx (pos ent) then -1 else 1) * 10,
                                       cy = -5\<rparr>\<rparr>,
                 hitStop := 5\<rparr>))
        else s
      else s)"

section \<open>Random numbers\<close>

text \<open>
  \<open>Math.random()\<close> is a stream of draws: \<open>r 0\<close> is the value of the next call and
  \<open>rng_next r\<close> the stream after it. The engine's draws lie in \<open>[0, 1)\<close>. Draws that
  only feed drawing data (particles, ids, colours of effects) are not taken from the
  stream; since every stream is possible, this changes no result.
\<close>

type_synonym Rng = "nat \<Rightarrow> real"

definition rng_next :: "Rng \<Rightarrow> Rng" where
  "rng_next r = (\<lambda>n. r (Suc n))"

definition unit_draws :: "Rng \<Rightarrow> bool" where
  "unit_draws r = (\<forall>n. 0 \<le> r n \<and> r n < 1)"

text \<open>An array read \<open>xs[i]\<close>: \<open>undefined\<close> outside the array.\<close>

definition array_read :: "'a list \<Rightarrow> int \<Rightarrow> 'a option" where
  "array_read xs i = (if 0 \<le> i \<and> i < int (length xs) then Some (xs ! nat i) else None)"

section \<open>Weather controller: \<open>updateWeather\<close>\<close>

fun weather_upper :: "WeatherType \<Rightarrow> string" where
  "weather_upper clear = ''CLEAR''"
| "weather_upper rain = ''RAIN''"
| "weather_upper acid_rain = ''ACID_RAIN''"
| "weather_upper snow = ''SNOW''"
| "weather_upper ash = ''ASH''"
| "weather_upper sandstorm = ''SANDSTORM''"

text \<open>
  The branch taken when the phase timer has run out. Reading the weather kind from the
  filtered trait list is the only step that can fail: an \<open>undefined\<close> kind makes
  \<open>toUpperCase\<close> throw, which is the result \<open>None\<close>.
\<close>

definition weather_transition :: "PlanetData \<Rightarrow> Rng \<Rightarrow> GameState \<Rightarrow> (GameState \<times> Rng) option" where
  "weather_transition P r s =
     (case weatherState s of
        phase_clear \<Rightarrow>
          (let triggerChance = 0.5 * weatherVolatility P in
           if r 0 < triggerChance \<and> length (weatherTraits P) > 0 then
             (let s1 = s\<lparr>weatherState := buildup\<rparr>;
                  badWeather = filter (\<lambda>t. t \<noteq> clear) (weatherTraits P)
              in if length badWeather > 0 then
                   (case array_read badWeather \<lfloor>r 1 * real (length badWeather)\<rfloor> of
                      None \<Rightarrow> None
                    | Some w \<Rightarrow>
                        Some (queueMessage (''RILEVATA PERTURBAZIONE ATMOSFERICA: '' @ weather_upper w)
                                (s1\<lparr>currentWeather := w, weatherTimer := 300\<rparr>),
                              rng_next (rng_next r)))
                 else Some (s1\<lparr>weatherTimer := 500\<rparr>, rng_next r))
           else Some (s\<lparr>weatherTimer := 500 + r 1 * 500\<rparr>, rng_next (rng_next r)))
      | buildup \<Rightarrow>
          Some (s\<lparr>weatherState := active,
                  weatherTimer := 600 + r 0 * 1000 * weatherVolatility P\<rparr>, rng_next r)
      | active \<Rightarrow> Some (s\<lparr>weatherState := fading, weatherTimer := 300\<rparr>, r)
      | fading \<Rightarrow>
          Some (s\<lparr>weatherState := phase_clear, currentWeather := clear, weatherTimer := 500\<rparr>, r))"

definition weather_intensity_step :: "real \<Rightarrow> GameState \<Rightarrow> GameState" where
  "weather_intensity_step dt s =
     (let i = weatherIntensity s;
          i1 = (case weatherState s of
                  buildup \<Rightarrow> i + 0.002 * dt
                | active \<Rightarrow> min 1 (i + 0.001 * dt)
                | fading \<Rightarrow> i - 0.002 * dt
                | phase_clear \<Rightarrow> max 0 (i - 0.005 * dt))
      in s\<lparr>weatherIntensity := max 0 (min 1 i1)\<rparr>)"

text \<open>
  \<open>updateWeather\<close>: the time of day, the phase machine and the intensity. The weather
  particles it then spawns and moves are drawing data.
\<close>

definition updateWeather :: "PlanetData \<Rightarrow> real \<Rightarrow> Rng \<Rightarrow> GameState \<Rightarrow> (GameState \<times> Rng) option" where
  "updateWeather P dt r s =
     (let t1 = timeOfDay s + dt * 0.0001;
          s1 = s\<lparr>timeOfDay := (if t1 > 1 then 0 else t1)\<rparr>;
          machine =
            (if weatherVolatility P > 0 then
               (let s2 = s1\<lparr>weatherTimer := weatherTimer s1 - dt\<rparr>
                in if weatherTimer s2 \<le> 0 then weather_transition P r s2 else Some (s2, r))
             else Some (s1\<lparr>weatherState := phase_clear, currentWeather := clear\<rparr>, r))
      in case machine of
           None \<Rightarrow> None
         | Some (s3, r3) \<Rightarrow> Some (weather_intensity_step dt s3, r3))"

text \<open>The order of the phases.\<close>

fun next_phase :: "WeatherPhase \<Rightarrow> WeatherPhase" where
  "next_phase phase_clear = buildup"
| "next_phase buildup = active"
| "next_phase active = fading"
| "next_phase fading = phase_clear"

text \<open>
  The weather states of a mission on planet \<open>P\<close>: the start state, closed under
  \<open>updateWeather\<close> with any time step and any draws, and under every other change of the
  state that leaves the weather fields alone (only \<open>updateWeather\<close> and the mission reset
  assign them).
\<close>

definition same_weather :: "GameState \<Rightarrow> GameState \<Rightarrow> bool" where
  "same_weather s s' =
     (weatherState s' = weatherState s \<and> currentWeather s' = currentWeather s \<and>
      weatherIntensity s' = weatherIntensity s \<and> weatherTimer s' = weatherTimer s \<and>
      timeOfDay s' = timeOfDay s)"

inductive weather_reachable :: "PlanetData \<Rightarrow> GameState \<Rightarrow> bool" for P where
  wr_start: "weather_reachable P (mission_start C mh mf)"
| wr_update: "weather_reachable P s \<Longrightarrow> updateWeather P dt r s = Some (s', r') \<Longrightarrow>
     weather_reachable P s'"
| wr_other: "weather_reachable P s \<Longrightarrow> same_weather s s' \<Longrightarrow> weather_reachable P s'"

section \<open>Enemy spawning: \<open>spawnEnemy\<close>\<close>

text \<open>The archetype rolled from the first draw when none is forced.\<close>

definition rolled_archetype :: "real \<Rightarrow> EnemyArchetype" where
  "rolled_archetype rand =
     (if rand > 0.94 then neutral else if rand > 0.84 then dasher
      else if rand > 0.72 then sentinel else if rand > 0.58 then hornet
      else if rand > 0.48 then shielder else if rand > 0.42 then sandworm
      else if rand > 0.30 then spore else crawler)"

text \<open>
  The size and statistics rows of \<open>spawnEnemy\<close>: the crawler's unless the archetype is one
  of the seven the function names.
\<close>

definition spawn_row :: "EnemyArchetype \<Rightarrow> EnemyArchetype" where
  "spawn_row arch =
     (if arch = neutral \<or> arch = dasher \<or> arch = sentinel \<or> arch = hornet \<or>
         arch = sandworm \<or> arch = shielder \<or> arch = spore
      then arch else crawler)"

text \<open>
  The enemy that \<open>spawnEnemy(x, groundY, forcedArch, forcedRarity)\<close> builds, with the
  stream left after its draws: the archetype roll, the hover height of a hornet or spore,
  the elite roll (only when no rarity is forced and the archetype is not neutral), the size
  variation, the animation offset and the attack timer.
\<close>

definition spawn_entity ::
  "Constants \<Rightarrow> PlanetData \<Rightarrow> real \<Rightarrow> real \<Rightarrow> EnemyArchetype option \<Rightarrow> Rarity option \<Rightarrow>
   Rng \<Rightarrow> Entity \<times> Rng" where
  "spawn_entity C P x groundY forcedArch forcedRarity r =
     (let rand = r 0; r1 = rng_next r;
          arch = (case forcedArch of Some a \<Rightarrow> a | None \<Rightarrow> rolled_archetype rand);
          baseSize = ENTITY_SIZE C (spawn_row arch);
          stats = ENEMY_STATS C (spawn_row arch);
          floats = (arch = hornet \<or> arch = spore);
          y0 = (if floats then groundY - 100 - r1 0 * 50 else groundY - cy baseSize);
          r2 = (if floats then rng_next r1 else r1);
          difficultyMult = 1 + enemyDensity P * 0.05;
          scaledHP0 = real_of_int \<lfloor>st_hp stats * difficultyMult\<rfloor>;
          rolls = (forcedRarity = None \<and> arch \<noteq> neutral);
          rarity0 = (case forcedRarity of
                       Some q \<Rightarrow> q
                     | None \<Rightarrow> if rolls \<and> r2 0 > 0.85 then elite else common);
          r3 = (if rolls then rng_next r2 else r2);
          scaledHP1 = (if rarity0 = elite then real_of_int \<lfloor>scaledHP0 * 2\<rfloor> else scaledHP0);
          sizeVariation = 0.85 + r3 0 * 0.3; r4 = rng_next r3;
          finalSize = \<lparr>cx = cx baseSize * (if rarity0 = elite then 1.3 else 1) * sizeVariation,
                       cy = cy baseSize * (if rarity0 = elite then 1.3 else 1) * sizeVariation\<rparr>;
          y1 = (if \<not> floats then groundY - cy finalSize else y0);
          burrowed = (arch = sandworm);
          rarity1 = (if arch = sandworm then elite else rarity0);
          scaledHP2 = (if arch = sandworm then real_of_int \<lfloor>scaledHP1 * 1.5\<rfloor> else scaledHP1);
          anim = r4 0 * 100; r5 = rng_next r4;
          atk = (if arch = shielder then 300 else r5 0 * 100);
          r6 = (if arch = shielder then r5 else rng_next r5)
      in (\<lparr>pos = \<lparr>cx = x, cy = y1\<rparr>, vel = \<lparr>cx = 0, cy = 0\<rparr>, size_e = finalSize,
           etype = enemy_t, health = scaledHP2, maxHealth = scaledHP2, isGrounded = False,
           markedForDeletion = False, facingRight = False, animOffset = anim, hitTimer = 0,
           fuel = None, maxFuel = None, coyoteTimer = None,
           archetype = Some arch,
           aiState = Some (if arch = shielder then chase else idle),
           attackTimer = Some atk, alertTimer = Some 0, rarity = Some rarity1,
           isBurrowed = Some burrowed, shieldHp = Some (if arch = shielder then 50 else 0),
           lootType = None, coreTier = None, weaponType = None, pierceCount = None,
           isExplosive = None\<rparr>, r6))"

definition spawnEnemy ::
  "Constants \<Rightarrow> PlanetData \<Rightarrow> real \<Rightarrow> real \<Rightarrow> EnemyArchetype option \<Rightarrow> Rarity option \<Rightarrow>
   Rng \<Rightarrow> GameState \<Rightarrow> GameState \<times> Rng" where
  "spawnEnemy C P x groundY forcedArch forcedRarity r s =
     (let (e, r') = spawn_entity C P x groundY forcedArch forcedRarity r
      in (s\<lparr>enemies := enemies s @ [e]\<rparr>, r'))"

text \<open>The density-scaled hit points \<open>scaledHP\<close> of \<open>spawnEnemy\<close> before the rarity is applied.\<close>

definition base_health :: "Constants \<Rightarrow> PlanetData \<Rightarrow> EnemyArchetype \<Rightarrow> real" where
  "base_health C P a =
     real_of_int \<lfloor>st_hp (ENEMY_STATS C (spawn_row a)) * (1 + enemyDensity P * 0.05)\<rfloor>"

text \<open>
  The guard that map generation puts next to a core of tier 2 or 3: an elite sentinel or
  dasher with twice the table's hit points, \<open>xPos\<close> and \<open>groundY\<close> being the core's.
\<close>

definition core_guard :: "Constants \<Rightarrow> EnemyArchetype \<Rightarrow> real \<Rightarrow> real \<Rightarrow> Entity" where
  "core_guard C guardArchetype xPos groundY =
     (let sz = (if guardArchetype = sentinel then ENTITY_SIZE C sentinel else ENTITY_SIZE C dasher);
          hp = js_or (Some (st_hp (ENEMY_STATS C guardArchetype))) 30 * 2
      in \<lparr>pos = \<lparr>cx = xPos + 100, cy = groundY - 100\<rparr>, vel = \<lparr>cx = 0, cy = 0\<rparr>,
          size_e = \<lparr>cx = cx sz * 1.3, cy = cy sz * 1.3\<rparr>, etype = enemy_t,
          health = hp, maxHealth = hp, isGrounded = False, markedForDeletion = False,
          facingRight = False, animOffset = 0, hitTimer = 0,
          fuel = None, maxFuel = None, coyoteTimer = None,
          archetype = Some guardArchetype, aiState = Some idle, attackTimer = None,
          alertTimer = Some 0, rarity = Some elite, isBurrowed = None, shieldHp = None,
          lootType = None, coreTier = None, weaponType = None, pierceCount = None,
          isExplosive = None\<rparr>)"

section \<open>Enemy behaviour\<close>

text \<open>
  An enemy's turn in the enemy loop of \<open>update\<close> begins by measuring the distance to the
  player, the side the player is on and the ground under the enemy's middle.
\<close>

record TurnCtx =
  distToPlayer :: real
  isPlayerLeft :: bool
  gY :: real

definition turn_ctx :: "GameState \<Rightarrow> Entity \<Rightarrow> TurnCtx" where
  "turn_ctx s ent =
     \<lparr>distToPlayer = hypot (cx (pos (player s)) - cx (pos ent)) (cy (pos (player s)) - cy (pos ent)),
      isPlayerLeft = (cx (pos (player s)) < cx (pos ent)),
      gY = groundHeight (terrain s) (cx (pos ent) + cx (size_e ent) / 2)\<rparr>"

definition toward :: "bool \<Rightarrow> real" where
  \<comment> \<open>\<open>isPlayerLeft ? -1 : 1\<close>\<close>
  "toward left = (if left then -1 else 1)"

definition set_vx :: "real \<Rightarrow> Entity \<Rightarrow> Entity" where
  "set_vx v ent = ent\<lparr>vel := (vel ent)\<lparr>cx := v\<rparr>\<rparr>"

definition set_vy :: "real \<Rightarrow> Entity \<Rightarrow> Entity" where
  "set_vy v ent = ent\<lparr>vel := (vel ent)\<lparr>cy := v\<rparr>\<rparr>"

definition set_px :: "real \<Rightarrow> Entity \<Rightarrow> Entity" where
  "set_px v ent = ent\<lparr>pos := (pos ent)\<lparr>cx := v\<rparr>\<rparr>"

definition set_py :: "real \<Rightarrow> Entity \<Rightarrow> Entity" where
  "set_py v ent = ent\<lparr>pos := (pos ent)\<lparr>cy := v\<rparr>\<rparr>"

text \<open>\<open>t && t > 0\<close> and \<open>!t || t <= 0\<close> on an optional timer.\<close>

definition timer_running :: "real option \<Rightarrow> bool" where
  "timer_running t = (case t of None \<Rightarrow> False | Some v \<Rightarrow> v \<noteq> 0 \<and> v > 0)"

definition timer_done :: "real option \<Rightarrow> bool" where
  "timer_done t = (case t of None \<Rightarrow> True | Some v \<Rightarrow> v = 0 \<or> v \<le> 0)"

definition spawnEnemyProjectile :: "Constants \<Rightarrow> real \<Rightarrow> real \<Rightarrow> real \<Rightarrow> GameState \<Rightarrow> GameState" where
  "spawnEnemyProjectile C x y angle s =
     (let speed = PROJECTILE_SPEED (PHYSICS C) * 0.6
      in s\<lparr>projectiles := projectiles s @
           [\<lparr>pos = \<lparr>cx = x, cy = y\<rparr>, vel = \<lparr>cx = cos angle * speed, cy = sin angle * speed\<rparr>,
             size_e = SIZE_ENEMY_PROJECTILE C, etype = enemy_projectile_t, health = 1,
             maxHealth = 1, isGrounded = False, markedForDeletion = False, facingRight = True,
             animOffset = 0, hitTimer = 0, fuel = None, maxFuel = None, coyoteTimer = None,
             archetype = None, aiState = None, attackTimer = None, alertTimer = None,
             rarity = None, isBurrowed = None, shieldHp = None, lootType = None,
             coreTier = None, weaponType = None, pierceCount = None, isExplosive = None\<rparr>]\<rparr>)"

text \<open>
  Squad-mate separation: every other enemy that is no guardian and stands closer than
  0.8 of the enemy's width pushes it sideways. The sum runs over the enemy list with the
  enemy's own index left out.
\<close>

fun separation :: "real \<Rightarrow> Entity \<Rightarrow> nat \<Rightarrow> nat \<Rightarrow> Entity list \<Rightarrow> real" where
  "separation dt ent index otherIdx [] = 0"
| "separation dt ent index otherIdx (other # rest) =
     (if index = otherIdx \<or> archetype other = Some guardian then 0
      else
        let dist = hypot (cx (pos ent) - cx (pos other)) (cy (pos ent) - cy (pos other));
            minSpace = cx (size_e ent) * 0.8
        in if dist < minSpace
           then (cx (pos ent) - cx (pos other)) / (dist + 0.1) * 0.5 * dt else 0)
     + separation dt ent index (Suc otherIdx) rest"

text \<open>The statistics row of an enemy: its archetype's, or the crawler's without archetype.\<close>

definition stats_row :: "Constants \<Rightarrow> Entity \<Rightarrow> EnemyStats" where
  "stats_row C ent = (case archetype ent of None \<Rightarrow> ENEMY_STATS C crawler | Some a \<Rightarrow> ENEMY_STATS C a)"

text \<open>The aggro rule shared by every archetype but the neutral and the guardian.\<close>

definition aggro_rule :: "Constants \<Rightarrow> real \<Rightarrow> TurnCtx \<Rightarrow> Entity \<Rightarrow> Rng \<Rightarrow> GameState \<Rightarrow> Entity \<times> GameState \<times> Rng" where
  "aggro_rule C dt ctx ent r s =
     (let aggroRange = js_or (st_aggroRange (stats_row C ent)) 300;
          dropRange = aggroRange * 1.5
      in if archetype ent \<noteq> Some neutral \<and> archetype ent \<noteq> Some guardian then
           (if aiState ent = Some idle then
              (let small = (\<bar>cx (vel ent)\<bar> < 0.5);
                   nudge = (small \<and> r 0 < 0.05);
                   ent1 = (if nudge then set_vx ((r 1 - 0.5) * 2) ent else ent);
                   r1 = (if nudge then rng_next (rng_next r) else if small then rng_next r else r)
               in if distToPlayer ctx < aggroRange
                  then (ent1\<lparr>aiState := Some alert, alertTimer := Some 40\<rparr>,
                        spawnFloatingText ''!'' s, r1)
                  else (ent1, s, r1))
            else if aiState ent = Some alert then
              (let ent1 = set_vx (cx (vel ent) * 0.8) ent
               in case alertTimer ent1 of
                    Some t \<Rightarrow>
                      (let ent2 = ent1\<lparr>alertTimer := Some (t - dt)\<rparr>
                       in (if t - dt \<le> 0 then ent2\<lparr>aiState := Some chase\<rparr> else ent2, s, r))
                  | None \<Rightarrow> (ent1\<lparr>aiState := Some chase\<rparr>, s, r))
            else if aiState ent = Some chase \<or> aiState ent = Some charge then
              (if distToPlayer ctx > dropRange then ent\<lparr>aiState := Some idle\<rparr> else ent, s, r)
            else (ent, s, r))
         else (ent, s, r))"

definition neutral_ai :: "TurnCtx \<Rightarrow> Entity \<Rightarrow> Rng \<Rightarrow> Entity \<times> Rng" where
  "neutral_ai ctx ent r =
     (let wander = (r 0 < 0.02);
          ent1 = (if wander
                  then (let e = set_vx ((r 1 - 0.5) * 1.5) ent
                        in if isGrounded e then set_vy (-2) e else e)
                  else ent);
          r1 = (if wander then rng_next (rng_next r) else rng_next r);
          ent2 = (if cy (pos ent1) + cy (size_e ent1) \<ge> gY ctx
                  then (set_vy 0 (set_py (gY ctx - cy (size_e ent1)) ent1))\<lparr>isGrounded := True\<rparr>
                  else ent1)
      in (ent2, r1))"

definition crawler_ai :: "real \<Rightarrow> TurnCtx \<Rightarrow> Entity \<Rightarrow> Entity" where
  "crawler_ai dt ctx ent =
     (let ent1 = (if aiState ent = Some chase \<and> \<bar>cx (vel ent)\<bar> < 2
                  then set_vx (cx (vel ent) + toward (isPlayerLeft ctx) * (0.2 * dt)) ent
                  else ent)
      in if isGrounded ent1 \<and> \<bar>gY ctx - (cy (pos ent1) + cy (size_e ent1))\<bar> > 20
         then set_vy (-8) ent1 else ent1)"

definition hornet_ai :: "real \<Rightarrow> TurnCtx \<Rightarrow> GameState \<Rightarrow> Entity \<Rightarrow> Entity" where
  "hornet_ai dt ctx s ent =
     (let hoverY = cy (pos (player s)) - 100
                     + sin (real_of_int (frameCount s) * 0.05 + animOffset ent) * 50;
          targetY = (if aiState ent = Some chase then cy (pos (player s)) else hoverY);
          ent1 = (if aiState ent = Some chase
                  then (if \<bar>cx (vel ent)\<bar> < 2
                        then set_vx (cx (vel ent) + toward (isPlayerLeft ctx) * (0.1 * dt)) ent
                        else ent)
                  else set_vx (cx (vel ent) + cos (real_of_int (frameCount s) * 0.05) * 0.05) ent);
          ent2 = set_vy (cy (vel ent1) + (targetY - cy (pos ent1)) * 0.02 * dt) ent1
      in set_vy (cy (vel ent2) * 0.95) ent2)"

definition tick_down :: "Entity \<Rightarrow> Entity" where
  \<comment> \<open>\<open>if (ent.attackTimer && ent.attackTimer > 0) ent.attackTimer--\<close>\<close>
  "tick_down ent =
     (if timer_running (attackTimer ent)
      then ent\<lparr>attackTimer := map_option (\<lambda>t. t - 1) (attackTimer ent)\<rparr> else ent)"

definition sentinel_ai :: "Constants \<Rightarrow> real \<Rightarrow> TurnCtx \<Rightarrow> Entity \<Rightarrow> GameState \<Rightarrow> Entity \<times> GameState" where
  "sentinel_ai C dt ctx ent s =
     (if aiState ent = Some chase then
        (let idealRange = js_or (st_range (stats_row C ent)) 300;
             ent1 = (if distToPlayer ctx < idealRange - 50
                     then set_vx (cx (vel ent) + (if isPlayerLeft ctx then 1 else -1) * (0.15 * dt)) ent
                     else if distToPlayer ctx > idealRange + 50
                     then set_vx (cx (vel ent) + toward (isPlayerLeft ctx) * (0.15 * dt)) ent
                     else ent);
             ent2 = tick_down ent1
         in if distToPlayer ctx < 500 \<and> timer_done (attackTimer ent2) then
              (let angle = js_atan2 ((cy (pos (player s)) + 16) - cy (pos ent2))
                                    ((cx (pos (player s)) + 16) - cx (pos ent2))
               in (ent2\<lparr>attackTimer := Some 140\<rparr>,
                   spawnEnemyProjectile C (cx (pos ent2) + cx (size_e ent2) / 2) (cy (pos ent2))
                     angle s))
            else (ent2, s))
      else (set_vx (cx (vel ent) * 0.9) ent, s))"

definition dasher_ai :: "Constants \<Rightarrow> real \<Rightarrow> TurnCtx \<Rightarrow> Entity \<Rightarrow> Rng \<Rightarrow> Entity \<times> Rng" where
  "dasher_ai C dt ctx ent r =
     (if aiState ent = Some chase then
        (if distToPlayer ctx < 300
         then (ent\<lparr>aiState := Some charge, attackTimer := Some 30\<rparr>, r)
         else (if \<bar>cx (vel ent)\<bar> < 2
               then set_vx (cx (vel ent) + toward (isPlayerLeft ctx) * (0.1 * dt)) ent
               else ent, r))
      else if aiState ent = Some charge then
        (if timer_running (attackTimer ent)
         then (set_px (cx (pos ent) + (r 0 * 2 - 1))
                 (ent\<lparr>attackTimer := map_option (\<lambda>t. t - 1) (attackTimer ent)\<rparr>), rng_next r)
         else
           (let ent1 = set_vx (toward (isPlayerLeft ctx) * st_dashSpeed (ENEMY_STATS C dasher)) ent
            in (if \<bar>cx (vel ent1)\<bar> < 1 \<or> distToPlayer ctx > 450
                then ent1\<lparr>aiState := Some chase\<rparr> else ent1, r)))
      else (ent, r))"

text \<open>The guardian's spread of five projectiles, \<open>i\<close> running from 0 to 4.\<close>

fun guardian_spread :: "Constants \<Rightarrow> Entity \<Rightarrow> nat \<Rightarrow> nat \<Rightarrow> GameState \<Rightarrow> GameState" where
  "guardian_spread C ent i 0 s = s"
| "guardian_spread C ent i (Suc n) s =
     (let angle = js_atan2 ((cy (pos (player s)) + 16) - cy (pos ent))
                           ((cx (pos (player s)) + 16) - cx (pos ent))
      in guardian_spread C ent (Suc i) n
           (spawnEnemyProjectile C (cx (pos ent) + cx (size_e ent) / 2)
              (cy (pos ent) + cy (size_e ent) / 2) (angle + (real i - 2) * 0.2) s))"

fun guardian_summon :: "Constants \<Rightarrow> PlanetData \<Rightarrow> Entity \<Rightarrow> nat \<Rightarrow> Rng \<Rightarrow> GameState \<Rightarrow> GameState \<times> Rng" where
  "guardian_summon C P ent 0 r s = (s, r)"
| "guardian_summon C P ent (Suc n) r s =
     (let (s1, r1) = spawnEnemy C P (cx (pos ent) + (r 0 - 0.5) * 100)
                       (groundHeight (terrain s) (cx (pos ent))) None None (rng_next r) s
      in guardian_summon C P ent n r1 s1)"

definition guardian_ai ::
  "Constants \<Rightarrow> PlanetData \<Rightarrow> real \<Rightarrow> TurnCtx \<Rightarrow> Entity \<Rightarrow> Rng \<Rightarrow> GameState \<Rightarrow> Entity \<times> GameState \<times> Rng" where
  "guardian_ai C P dt ctx ent r s =
     (let hoverY = cy (pos (player s)) - 150 + sin (real_of_int (frameCount s) * 0.03) * 50;
          ent1 = set_vy (cy (vel ent) + (hoverY - cy (pos ent)) * 0.01 * dt) ent;
          ent2 = set_vx (cx (vel ent1) + toward (isPlayerLeft ctx) * (0.05 * dt)) ent1;
          ent3 = set_vy (cy (vel ent2) * 0.95) ent2;
          ent4 = set_vx (cx (vel ent3) * 0.95) ent3;
          ent5 = tick_down ent4
      in if timer_done (attackTimer ent5) then
           (if r 0 < 0.6
            then (ent5\<lparr>attackTimer := Some 120\<rparr>, guardian_spread C ent5 0 5 s, rng_next r)
            else
              (let (s1, r1) = guardian_summon C P ent5 2 (rng_next r) s
               in (ent5\<lparr>attackTimer := Some 240\<rparr>, spawnFloatingText ''SUMMONING'' s1, r1)))
         else (ent5, s, r))"

text \<open>
  The shielder: its duty timer toggles between the chase stance, announced as
  \<open>SHIELD UP\<close>, and the idle stance, announced as \<open>SHIELD DOWN\<close>; it walks toward the
  player in the chase stance and brakes otherwise.
\<close>

definition shielder_ai :: "real \<Rightarrow> Entity \<Rightarrow> GameState \<Rightarrow> Entity \<times> GameState" where
  "shielder_ai dt ent s =
     (let t0 = (case attackTimer ent of None \<Rightarrow> 0 | Some t \<Rightarrow> t);
          t1 = t0 - dt;
          ent1 = ent\<lparr>attackTimer := Some t1\<rparr>;
          (ent2, s1) =
            (if t1 \<le> 0 then
               (if aiState ent1 = Some chase
                then (ent1\<lparr>aiState := Some idle, attackTimer := Some 180\<rparr>,
                      spawnFloatingText ''SHIELD DOWN'' s)
                else (ent1\<lparr>aiState := Some chase, attackTimer := Some 300\<rparr>,
                      spawnFloatingText ''SHIELD UP'' s))
             else (ent1, s))
      in if aiState ent2 = Some chase then
           (let dist = \<bar>cx (pos ent2) - cx (pos (player s1))\<bar>
            in (if dist < 600 \<and> \<bar>cx (vel ent2)\<bar> < 0.5
                then set_vx (cx (vel ent2)
                       + (if cx (pos ent2) < cx (pos (player s1)) then 1 else -1) * (0.05 * dt)) ent2
                else ent2, s1))
         else (set_vx (cx (vel ent2) * 0.8) ent2, s1))"

definition sandworm_ai :: "Constants \<Rightarrow> real \<Rightarrow> Entity \<Rightarrow> GameState \<Rightarrow> Entity \<times> GameState" where
  "sandworm_ai C dt ent s =
     (if isBurrowed ent \<noteq> Some True then
        (if timer_running (attackTimer ent)
         then (ent\<lparr>attackTimer := map_option (\<lambda>t. t - dt) (attackTimer ent)\<rparr>, s)
         else
           (let angle = js_atan2 (cy (pos (player s)) - cy (pos ent))
                                 (cx (pos (player s)) - cx (pos ent))
            in (ent\<lparr>attackTimer := Some 100\<rparr>,
                spawnEnemyProjectile C (cx (pos ent)) (cy (pos ent)) angle s)))
      else (ent, s))"

text \<open>The archetype's own behaviour: the \<open>if\<close>-chain over the archetype.\<close>

definition archetype_ai ::
  "Constants \<Rightarrow> PlanetData \<Rightarrow> real \<Rightarrow> TurnCtx \<Rightarrow> Entity \<Rightarrow> Rng \<Rightarrow> GameState \<Rightarrow> Entity \<times> GameState \<times> Rng" where
  "archetype_ai C P dt ctx ent r s =
     (case archetype ent of
        Some neutral \<Rightarrow> (let (e, r1) = neutral_ai ctx ent r in (e, s, r1))
      | Some crawler \<Rightarrow> (crawler_ai dt ctx ent, s, r)
      | Some hornet \<Rightarrow> (hornet_ai dt ctx s ent, s, r)
      | Some sentinel \<Rightarrow> (let (e, s1) = sentinel_ai C dt ctx ent s in (e, s1, r))
      | Some dasher \<Rightarrow> (let (e, r1) = dasher_ai C dt ctx ent r in (e, s, r1))
      | Some guardian \<Rightarrow> guardian_ai C P dt ctx ent r s
      | Some shielder \<Rightarrow> (let (e, s1) = shielder_ai dt ent s in (e, s1, r))
      | Some spore \<Rightarrow> (set_vx 0 ent, s, r)
      | Some sandworm \<Rightarrow> (let (e, s1) = sandworm_ai C dt ent s in (e, s1, r))
      | None \<Rightarrow> (ent, s, r))"

text \<open>Gravity, the speed limit, the move and the landing that end the behaviour.\<close>

definition enemy_physics :: "Constants \<Rightarrow> PlanetData \<Rightarrow> real \<Rightarrow> TurnCtx \<Rightarrow> Entity \<Rightarrow> Entity" where
  "enemy_physics C P dt ctx ent =
     (let flies = (archetype ent = Some hornet \<or> archetype ent = Some guardian);
          ent1 = (if \<not> flies
                  then set_vy (cy (vel ent) + GRAVITY (PHYSICS C) * gravity P * dt) ent else ent);
          maxSpd = (if archetype ent1 = Some dasher \<and> aiState ent1 = Some charge then 8
                    else js_or (case archetype ent1 of
                                  None \<Rightarrow> None
                                | Some a \<Rightarrow> st_speed (ENEMY_STATS C a)) 2);
          ent2 = (if \<bar>cx (vel ent1)\<bar> > maxSpd \<and> \<bar>cx (vel ent1)\<bar> < 15 then ent1
                  else set_vx (max (min (cx (vel ent1)) maxSpd) (- maxSpd)) ent1);
          ent3 = set_py (cy (pos ent2) + cy (vel ent2) * dt)
                   (set_px (cx (pos ent2) + cx (vel ent2) * dt) ent2);
          ent4 = ent3\<lparr>facingRight := (cx (vel ent3) > 0)\<rparr>
      in if \<not> flies then
           (if cy (pos ent4) + cy (size_e ent4) \<ge> gY ctx
            then (set_vy 0 (set_py (gY ctx - cy (size_e ent4)) ent4))\<lparr>isGrounded := True\<rparr>
            else ent4\<lparr>isGrounded := False\<rparr>)
         else ent4)"

section \<open>Enemy death and rewards\<close>

text \<open>The score an enemy awards when it dies: the table's score, or 50, doubled for an elite.\<close>

definition death_score :: "Constants \<Rightarrow> Entity \<Rightarrow> real" where
  "death_score C ent =
     (let baseScore = js_or (case archetype ent of
                               None \<Rightarrow> None
                             | Some a \<Rightarrow> st_score (ENEMY_STATS C a)) 50
      in if rarity ent = Some elite then baseScore * 2 else baseScore)"

definition weaponTypes :: "WeaponType list" where
  "weaponTypes = [scatter, rapid, sniper, launcher]"

text \<open>
  \<open>spawnLoot\<close>: a weapon drop draws its weapon and its side speed, a health drop its side
  speed. A weapon index outside the list (no draw in \<open>[0, 1)\<close> gives one) would make the
  colour lookup throw: the result \<open>None\<close>.
\<close>

definition loot_drop :: "Vector2 \<Rightarrow> LootType \<Rightarrow> WeaponType option \<Rightarrow> real \<Rightarrow> real \<Rightarrow> real \<Rightarrow> Entity" where
  "loot_drop sz k w x y vx0 =
     \<lparr>pos = \<lparr>cx = x, cy = y\<rparr>, vel = \<lparr>cx = vx0, cy = -5\<rparr>, size_e = sz,
      etype = loot_t, health = 1, maxHealth = 1, isGrounded = False,
      markedForDeletion = False, facingRight = True, animOffset = 0, hitTimer = 0,
      fuel = None, maxFuel = None, coyoteTimer = None,
      archetype = None, aiState = None, attackTimer = None, alertTimer = None,
      rarity = None, isBurrowed = None, shieldHp = None, lootType = Some k, coreTier = None,
      weaponType = w, pierceCount = None, isExplosive = None\<rparr>"

definition spawnLoot ::
  "Constants \<Rightarrow> real \<Rightarrow> real \<Rightarrow> LootType \<Rightarrow> Rng \<Rightarrow> GameState \<Rightarrow> (GameState \<times> Rng) option" where
  "spawnLoot C x y k r s =
     (if k = weapon then
        (case array_read weaponTypes \<lfloor>r 0 * real (length weaponTypes)\<rfloor> of
           None \<Rightarrow> None
         | Some w \<Rightarrow>
             Some (s\<lparr>loot := loot s @
                      [loot_drop (SIZE_WEAPON_DROP C) weapon (Some w) x y ((r 1 - 0.5) * 4)]\<rparr>,
                   rng_next (rng_next r)))
      else
        Some (s\<lparr>loot := loot s @
                 [loot_drop (SIZE_HEALTH_DROP C) health_l None x y ((r 0 - 0.5) * 4)]\<rparr>,
              rng_next r))"

text \<open>
  The end of an enemy's turn in \<open>update\<close>: an enemy that fell out of the world or has no
  health left is marked for deletion; a dead one awards its score and may drop loot, and
  a dead guardian reports victory.
\<close>

definition enemy_death ::
  "Constants \<Rightarrow> Entity \<Rightarrow> Rng \<Rightarrow> GameState \<Rightarrow> (Entity \<times> GameState \<times> Rng) option" where
  "enemy_death C ent r s =
     (if cy (pos ent) > LOGICAL_HEIGHT + 300 \<or> health ent \<le> 0 then
        (let ent1 = ent\<lparr>markedForDeletion := True\<rparr> in
         if health ent \<le> 0 then
           (let sc = death_score C ent;
                s1 = s\<lparr>score := score s + sc\<rparr>;
                s2 = addScreenshake 5 s1;
                s3 = spawnFloatingText ''+score'' s2;
                rand = r 0; r1 = rng_next r;
                dropChanceWeapon = (if rarity ent = Some elite then 0.4 else 0.1 :: real);
                dropChanceHealth = (if rarity ent = Some elite then 0.5 else 0.25 :: real);
                dropped =
                  (if rand < dropChanceWeapon
                   then spawnLoot C (cx (pos ent)) (cy (pos ent)) weapon r1 s3
                   else if rand < dropChanceHealth
                   then spawnLoot C (cx (pos ent)) (cy (pos ent)) health_l r1 s3
                   else Some (s3, r1))
            in case dropped of
                 None \<Rightarrow> None
               | Some (s4, r2) \<Rightarrow>
                   (let s5 = (if archetype ent = Some guardian
                              then s4\<lparr>onVictory_calls :=
                                     onVictory_calls s4 @ [(score s4, coresCollected s4)]\<rparr>
                              else s4)
                    in Some (ent1, s5\<lparr>hitStop := 3\<rparr>, r2)))
         else Some (ent1, s, r))
      else Some (ent, s, r))"

section \<open>The enemy loop\<close>

text \<open>
  One enemy's turn: damping, separation, hit timer, aggro rule, behaviour, physics,
  contact with the player, death. The enemy is the element \<open>index\<close> of the enemy list and
  is written back there at the end of the turn. The turn fails only where \<open>spawnLoot\<close> does.
\<close>

definition enemy_turn ::
  "Constants \<Rightarrow> PlanetData \<Rightarrow> real \<Rightarrow> nat \<Rightarrow> Rng \<Rightarrow> GameState \<Rightarrow> (GameState \<times> Rng) option" where
  "enemy_turn C P dt index r s =
     (let ent = enemies s ! index;
          ctx = turn_ctx s ent;
          ent1 = set_vx (cx (vel ent) * 0.95) ent;
          ent2 = (if archetype ent1 \<noteq> Some guardian
                  then set_vx (cx (vel ent1) + separation dt ent1 index 0 (enemies s)) ent1
                  else ent1);
          ent3 = (if hitTimer ent2 > 0 then ent2\<lparr>hitTimer := hitTimer ent2 - dt\<rparr> else ent2);
          (ent4, s1, r1) = aggro_rule C dt ctx ent3 r s;
          (ent5, s2, r2) = archetype_ai C P dt ctx ent4 r1 s1;
          ent6 = enemy_physics C P dt ctx ent5;
          s3 = contact_damage C ent6 s2
      in case enemy_death C ent6 r2 s3 of
           None \<Rightarrow> None
         | Some (ent7, s4, r3) \<Rightarrow> Some (s4\<lparr>enemies := (enemies s4)[index := ent7]\<rparr>, r3))"

text \<open>
  \<open>state.enemies.forEach\<close>: the turns of the enemies present when the loop starts, in
  order; enemies summoned during the loop get no turn in this frame.
\<close>

fun enemies_loop ::
  "Constants \<Rightarrow> PlanetData \<Rightarrow> real \<Rightarrow> nat \<Rightarrow> nat \<Rightarrow> Rng \<Rightarrow> GameState \<Rightarrow> (GameState \<times> Rng) option" where
  "enemies_loop C P dt index 0 r s = Some (s, r)"
| "enemies_loop C P dt index (Suc n) r s =
     (case enemy_turn C P dt index r s of
        None \<Rightarrow> None
      | Some (s1, r1) \<Rightarrow> enemies_loop C P dt (Suc index) n r1 s1)"

definition enemies_phase ::
  "Constants \<Rightarrow> PlanetData \<Rightarrow> real \<Rightarrow> Rng \<Rightarrow> GameState \<Rightarrow> (GameState \<times> Rng) option" where
  "enemies_phase C P dt r s = enemies_loop C P dt 0 (length (enemies s)) r s"

section \<open>The projectile loop\<close>

text \<open>\<open>spawnExplosion\<close>: every enemy within 100 of the blast is damaged and thrown back.\<close>

definition explode_enemy :: "PlayerUpgrades \<Rightarrow> real \<Rightarrow> real \<Rightarrow> Entity \<Rightarrow> Entity" where
  "explode_enemy U x y e =
     (let dist = hypot (cx (pos e) - x) (cy (pos e) - y)
      in if dist < 100 then
           (let angle = js_atan2 (cy (pos e) - y) (cx (pos e) - x)
            in e\<lparr>health := health e - 50 * (1 + (up_weapon U - 1) * 0.2), hitTimer := 10,
                 vel := \<lparr>cx = cx (vel e) + cos angle * 10, cy = cy (vel e) + sin angle * 10\<rparr>\<rparr>)
         else e)"

definition spawnExplosion :: "PlayerUpgrades \<Rightarrow> real \<Rightarrow> real \<Rightarrow> GameState \<Rightarrow> GameState" where
  "spawnExplosion U x y s =
     (let s1 = addScreenshake 15 s;
          hit = filter (\<lambda>e. hypot (cx (pos e) - x) (cy (pos e) - y) < 100) (enemies s1)
      in s1\<lparr>enemies := map (explode_enemy U x y) (enemies s1),
            texts := texts s1 @ map (\<lambda>e. ''BOOM!'') hit\<rparr>)"

text \<open>
  The shield test of the hit resolution: a shielder blocks in its chase stance a
  projectile that flies against the side it faces; a burrowed sandworm blocks everything.
\<close>

definition damageBlocked :: "Entity \<Rightarrow> Entity \<Rightarrow> bool" where
  "damageBlocked proj enemy =
     ((archetype enemy = Some shielder \<and> aiState enemy = Some chase \<and>
       ((facingRight enemy \<and> cx (vel proj) < 0) \<or> (\<not> facingRight enemy \<and> cx (vel proj) > 0)))
      \<or> (archetype enemy = Some sandworm \<and> isBurrowed enemy = Some True))"

text \<open>
  The damage of a direct hit is \<open>Math.ceil(baseDmg * damageMult)\<close>, the ceiling of a product
  of doubles, where \<open>damageMult = 1 + (upgrades.weapon - 1) * 0.2\<close> is computed at the head
  of the component. Everywhere else the engine's numbers are modelled as reals, but here a
  rounding error of the last bit moves the ceiling by a whole point of damage, so the
  rounding \<open>fl\<close> of a double operation (and of a decimal literal) is a parameter of the
  hit resolution: what is proved of it holds for every rounding, that of the machine
  included. \<open>exact\<close> is the rounding of operations whose results are doubles already.
\<close>

type_synonym Rounding = "real \<Rightarrow> real"

definition exact :: Rounding where
  "exact x = x"

definition damageMult :: "Rounding \<Rightarrow> PlayerUpgrades \<Rightarrow> real" where
  "damageMult fl U = fl (1 + fl (fl (up_weapon U - 1) * fl 0.2))"

definition finalDmg :: "Rounding \<Rightarrow> Constants \<Rightarrow> PlayerUpgrades \<Rightarrow> Entity \<Rightarrow> real" where
  "finalDmg fl C U proj =
     (let wStats = WEAPONS C (case weaponType proj of None \<Rightarrow> blaster | Some w \<Rightarrow> w);
          baseDmg = fl (10 * fl (w_damageMult wStats))
      in real_of_int \<lceil>fl (baseDmg * damageMult fl U)\<rceil>)"

text \<open>
  The resolution of a player projectile that touches the live enemy \<open>index\<close>: blocked, or
  an explosion, or direct damage with knockback. The damage text is the number, written
  here as \<open>dmg\<close>.
\<close>

definition resolve_hit ::
  "Rounding \<Rightarrow> Constants \<Rightarrow> PlayerUpgrades \<Rightarrow> nat \<Rightarrow> Entity \<Rightarrow> GameState \<Rightarrow> Entity \<times> GameState" where
  "resolve_hit fl C U index proj s =
     (let enemy = enemies s ! index in
      if damageBlocked proj enemy then
        (proj\<lparr>markedForDeletion := True\<rparr>, spawnFloatingText ''BLOCK'' s)
      else if isExplosive proj = Some True then
        (proj\<lparr>markedForDeletion := True\<rparr>, spawnExplosion U (cx (pos proj)) (cy (pos proj)) s)
      else
        (let wStats = WEAPONS C (case weaponType proj of None \<Rightarrow> blaster | Some w \<Rightarrow> w);
             kbStrength = (if w_knockback wStats = 0 then 2 else w_knockback wStats);
             angle = js_atan2 (cy (vel proj)) (cx (vel proj));
             enemy1 = enemy\<lparr>health := health enemy - finalDmg fl C U proj, hitTimer := 5,
                        aiState := (if aiState enemy = Some idle then Some chase else aiState enemy),
                        vel := \<lparr>cx = cx (vel enemy) + cos angle * kbStrength,
                                cy = cy (vel enemy) + sin angle * (kbStrength * 0.5)\<rparr>,
                        isGrounded := False\<rparr>;
             proj1 = (if timer_running (pierceCount proj)
                      then proj\<lparr>pierceCount := map_option (\<lambda>n. n - 1) (pierceCount proj)\<rparr>
                      else proj\<lparr>markedForDeletion := True\<rparr>)
         in (proj1, spawnFloatingText ''dmg'' (s\<lparr>enemies := (enemies s)[index := enemy1]\<rparr>))))"

text \<open>A player projectile against every enemy in turn.\<close>

fun projectile_hits ::
  "Rounding \<Rightarrow> Constants \<Rightarrow> PlayerUpgrades \<Rightarrow> nat \<Rightarrow> nat \<Rightarrow> Entity \<Rightarrow> GameState \<Rightarrow> Entity \<times> GameState" where
  "projectile_hits fl C U index 0 proj s = (proj, s)"
| "projectile_hits fl C U index (Suc n) proj s =
     (let enemy = enemies s ! index;
          (proj1, s1) =
            (if \<not> markedForDeletion enemy \<and> \<not> markedForDeletion proj \<and>
                checkCollisionInflated proj enemy 8
             then resolve_hit fl C U index proj s else (proj, s))
      in projectile_hits fl C U (Suc index) n proj1 s1)"

text \<open>An enemy projectile against the player.\<close>

definition enemy_projectile_hit :: "Constants \<Rightarrow> Entity \<Rightarrow> GameState \<Rightarrow> Entity \<times> GameState" where
  "enemy_projectile_hit C proj s =
     (let p = player s in
      if checkCollision proj p then
        (proj\<lparr>markedForDeletion := True\<rparr>,
         if hitTimer p \<le> 0 then
           spawnFloatingText ''-10 HP''
             (addScreenshake 5
               (s\<lparr>player := p\<lparr>health := health p - 10,
                                hitTimer := INVULNERABILITY_FRAMES (PHYSICS C)\<rparr>,
                  hitStop := 4\<rparr>))
         else s)
      else (proj, s))"

text \<open>One projectile's turn: flight, hits, and removal off screen or in the ground.\<close>

definition projectile_turn ::
  "Rounding \<Rightarrow> Constants \<Rightarrow> PlayerUpgrades \<Rightarrow> real \<Rightarrow> Entity \<Rightarrow> GameState \<Rightarrow> Entity \<times> GameState" where
  "projectile_turn fl C U dt proj s =
     (let g = (case weaponType proj of None \<Rightarrow> 0 | Some w \<Rightarrow> js_or (w_gravity (WEAPONS C w)) 0);
          vy1 = (if g \<noteq> 0 then cy (vel proj) + g * dt else cy (vel proj));
          proj1 = proj\<lparr>vel := \<lparr>cx = cx (vel proj), cy = vy1\<rparr>,
                       pos := \<lparr>cx = cx (pos proj) + cx (vel proj) * dt,
                               cy = cy (pos proj) + vy1 * dt\<rparr>\<rparr>;
          (proj2, s1) =
            (if etype proj1 = projectile_t
             then projectile_hits fl C U 0 (length (enemies s)) proj1 s
             else if etype proj1 = enemy_projectile_t then enemy_projectile_hit C proj1 s
             else (proj1, s));
          proj3 = (if \<bar>cx (pos proj2) - cx (pos (player s1))\<bar> > logicalWidth s1
                   then proj2\<lparr>markedForDeletion := True\<rparr> else proj2);
          groundY = groundHeight (terrain s1) (cx (pos proj3))
      in if cy (pos proj3) > groundY
         then (proj3\<lparr>markedForDeletion := True\<rparr>,
               if isExplosive proj3 = Some True
               then spawnExplosion U (cx (pos proj3)) groundY s1 else s1)
         else (proj3, s1))"

fun projectiles_loop ::
  "Rounding \<Rightarrow> Constants \<Rightarrow> PlayerUpgrades \<Rightarrow> real \<Rightarrow> Entity list \<Rightarrow> GameState \<Rightarrow> Entity list \<times> GameState" where
  "projectiles_loop fl C U dt [] s = ([], s)"
| "projectiles_loop fl C U dt (proj # rest) s =
     (let (proj', s1) = projectile_turn fl C U dt proj s;
          (rest', s2) = projectiles_loop fl C U dt rest s1
      in (proj' # rest', s2))"

definition projectiles_phase :: "Rounding \<Rightarrow> Constants \<Rightarrow> PlayerUpgrades \<Rightarrow> real \<Rightarrow> GameState \<Rightarrow> GameState" where
  "projectiles_phase fl C U dt s =
     (let (ps, s') = projectiles_loop fl C U dt (projectiles s) s in s'\<lparr>projectiles := ps\<rparr>)"

section \<open>Boss spawn and loot pickup\<close>

definition guardian_boss :: "Constants \<Rightarrow> real \<Rightarrow> real \<Rightarrow> Entity" where
  "guardian_boss C spawnX spawnY =
     \<lparr>pos = \<lparr>cx = spawnX, cy = spawnY\<rparr>, vel = \<lparr>cx = 0, cy = 0\<rparr>,
      size_e = ENTITY_SIZE C guardian, etype = enemy_t,
      health = st_hp (ENEMY_STATS C guardian), maxHealth = st_hp (ENEMY_STATS C guardian),
      isGrounded = False, markedForDeletion = False, facingRight = False, animOffset = 0,
      hitTimer = 0, fuel = None, maxFuel = None, coyoteTimer = None,
      archetype = Some guardian, aiState = Some phase1, attackTimer = Some 100,
      alertTimer = None, rarity = None, isBurrowed = None, shieldHp = None,
      lootType = None, coreTier = None, weaponType = None, pierceCount = None,
      isExplosive = None\<rparr>"

definition spawnBoss :: "Constants \<Rightarrow> GameState \<Rightarrow> GameState" where
  "spawnBoss C s =
     (if bossActive s then s
      else
        let s1 = s\<lparr>bossActive := True\<rparr>;
            s2 = addScreenshake 30 s1;
            s3 = queueMessage ''ATTENZIONE: SEGNALE SISMICO MASSICCIO.'' s2;
            s4 = queueMessage ''GUARDIANO PLANETARIO RILEVATO. ELIMINARE.'' s3;
            spawnX = cx (pos (player s4)) + 400;
            spawnY = cy (pos (player s4)) - 200
        in s4\<lparr>enemies := enemies s4 @ [guardian_boss C spawnX spawnY]\<rparr>)"

text \<open>
  What \<open>update\<close> does when the player touches a loot item (the item itself is marked for
  deletion by \<open>loot_step\<close>). The second radio message is written without its accent.
\<close>

definition core_pickup :: "Constants \<Rightarrow> GameState \<Rightarrow> GameState" where
  "core_pickup C s =
     (let s1 = s\<lparr>coresCollected := coresCollected s + 1, score := score s + 500\<rparr>;
          s2 = spawnFloatingText ''CORE ACQUIRED'' s1;
          s3 = (if coresCollected s2 = 1
                then queueMessage ''Ottimo lavoro. Procedi verso il segnale successivo.'' s2
                else s2);
          s4 = (if real_of_int (coresCollected s3) = of_int \<lfloor>real_of_int (totalCoresNeeded s3) / 2\<rfloor>
                then queueMessage
                  ''Livelli energia al 50%. Rilevata attivita nemica in aumento.'' s3
                else s3)
      in if coresCollected s4 \<ge> totalCoresNeeded s4 then spawnBoss C s4 else s4)"

definition loot_pickup :: "Constants \<Rightarrow> Entity \<Rightarrow> GameState \<Rightarrow> GameState" where
  "loot_pickup C item s =
     (if lootType item = Some core then core_pickup C s
      else if lootType item = Some weapon \<and> weaponType item \<noteq> None then
        (case weaponType item of
           Some w \<Rightarrow> spawnFloatingText (w_name (WEAPONS C w)) (s\<lparr>currentWeapon := w\<rparr>)
         | None \<Rightarrow> s)
      else if lootType item = Some health_l then
        spawnFloatingText ''+20 HP''
          (s\<lparr>player := (player s)\<lparr>health := min (maxHealth (player s)) (health (player s) + 20)\<rparr>\<rparr>)
      else s)"

text \<open>One turn of the loot loop of \<open>update\<close> for one item: fall, lava, landing, pickup.\<close>

definition loot_step :: "Constants \<Rightarrow> PlanetData \<Rightarrow> real \<Rightarrow> Entity \<Rightarrow> GameState \<Rightarrow> Entity \<times> GameState" where
  "loot_step C P dt item s =
     (let vy1 = cy (vel item) + GRAVITY (PHYSICS C) * gravity P * dt;
          px1 = cx (pos item) + cx (vel item) * dt;
          py1 = cy (pos item) + vy1 * dt;
          gY = groundHeight (terrain s) (px1 + cx (size_e item) / 2);
          inLava = (\<exists>h \<in> set (hazards s). hz_type h = lava \<and> px1 > hz_x h \<and>
                      px1 < hz_x h + hz_width h \<and> py1 > gY - 10);
          landed = (py1 + cy (size_e item) \<ge> gY);
          item1 = item\<lparr>pos := \<lparr>cx = px1, cy = (if landed then gY - cy (size_e item) else py1)\<rparr>,
                       vel := \<lparr>cx = cx (vel item), cy = (if landed then 0 else vy1)\<rparr>,
                       markedForDeletion := (markedForDeletion item \<or> inLava)\<rparr>
      in if checkCollision (player s) item1
         then (item1\<lparr>markedForDeletion := True\<rparr>, loot_pickup C item1 s)
         else (item1, s))"

fun loot_loop :: "Constants \<Rightarrow> PlanetData \<Rightarrow> real \<Rightarrow> Entity list \<Rightarrow> GameState \<Rightarrow> Entity list \<times> GameState" where
  "loot_loop C P dt [] s = ([], s)"
| "loot_loop C P dt (item # items) s =
     (let (item', s1) = loot_step C P dt item s;
          (items', s2) = loot_loop C P dt items s1
      in (item' # items', s2))"

text \<open>The loot loop of \<open>update\<close>: \<open>state.loot.forEach\<close>, the items mutated in place.\<close>

definition loot_phase :: "Constants \<Rightarrow> PlanetData \<Rightarrow> real \<Rightarrow> GameState \<Rightarrow> GameState" where
  "loot_phase C P dt s = (let (items', s') = loot_loop C P dt (loot s) s in s'\<lparr>loot := items'\<rparr>)"

text \<open>
  A run of a mission, seen from the boss trigger: a sequence of loot pickups and of other
  changes of the state. A change other than a pickup never assigns \<open>bossActive\<close>,
  \<open>coresCollected\<close> or \<open>totalCoresNeeded\<close> (the engine assigns them in \<open>spawnBoss\<close>, in the
  core pickup and in the mission reset only). \<open>run_events\<close> returns the final state and the
  number of guardians that the pickups of the run have spawned.
\<close>

datatype RunEvent = Pickup Entity | OtherChange "GameState \<Rightarrow> GameState"

definition guardians :: "GameState \<Rightarrow> nat" where
  "guardians s = length (filter (\<lambda>e. archetype e = Some guardian) (enemies s))"

definition keeps_boss_fields :: "(GameState \<Rightarrow> GameState) \<Rightarrow> bool" where
  "keeps_boss_fields f =
     (\<forall>s. bossActive (f s) = bossActive s \<and> coresCollected (f s) = coresCollected s \<and>
          totalCoresNeeded (f s) = totalCoresNeeded s)"

fun run_event_ok :: "RunEvent \<Rightarrow> bool" where
  "run_event_ok (Pickup item) = True"
| "run_event_ok (OtherChange f) = keeps_boss_fields f"

fun run_events :: "Constants \<Rightarrow> RunEvent list \<Rightarrow> GameState \<times> nat \<Rightarrow> GameState \<times> nat" where
  "run_events C [] sn = sn"
| "run_events C (Pickup item # es) (s, n) =
     run_events C es (loot_pickup C item s, n + (guardians (loot_pickup C item s) - guardians s))"
| "run_events C (OtherChange f # es) (s, n) = run_events C es (f s, n)"

text \<open>The boss is active exactly when the collected cores have reached the required number.\<close>

definition boss_inv :: "GameState \<Rightarrow> bool" where
  "boss_inv s = (bossActive s \<longleftrightarrow> coresCollected s \<ge> totalCoresNeeded s)"

section \<open>The player\<close>

text \<open>
  The input snapshot a frame reads: the keys held (by key code), the two touch sticks,
  the touch jump button and the mouse in logical screen coordinates.
\<close>

record TouchStick =
  t_active :: bool
  vectorX :: real
  vectorY :: real

record Input =
  keys :: "string \<Rightarrow> bool"
  touch_left :: TouchStick
  touch_right :: TouchStick
  touch_jump :: bool
  mouse_x :: real
  mouse_y :: real
  mouse_isDown :: bool

text \<open>The decay of the camera shake and the two player timers that run in frames.\<close>

definition tick_timers :: "real \<Rightarrow> GameState \<Rightarrow> GameState" where
  "tick_timers dt s =
     (let sh1 = (if camera_shake s > 0 then camera_shake s * 0.9 else camera_shake s);
          sh2 = (if sh1 < 0.5 then 0 else sh1);
          p = player s;
          p1 = (if hitTimer p > 0 then p\<lparr>hitTimer := hitTimer p - dt\<rparr> else p)
      in s\<lparr>camera_shake := sh2, player := p1,
            weaponCooldown := (if weaponCooldown s > 0 then weaponCooldown s - dt
                               else weaponCooldown s)\<rparr>)"

definition take_aim :: "Input \<Rightarrow> GameState \<Rightarrow> GameState" where
  "take_aim inp s =
     (let p = player s;
          a = (if t_active (touch_right inp)
               then js_atan2 (vectorY (touch_right inp)) (vectorX (touch_right inp))
               else
                 (let playerScreenX = (cx (pos p) + cx (size_e p) / 2) - camera_x s;
                      playerScreenY = (cy (pos p) + cy (size_e p) / 2) - camera_y s
                  in js_atan2 (mouse_y inp - playerScreenY) (mouse_x inp - playerScreenX)))
      in s\<lparr>aimAngle := a, player := p\<lparr>facingRight := (\<bar>a\<bar> < pi / 2)\<rparr>\<rparr>)"

text \<open>The hazard strip under the player's ground index, if any.\<close>

definition hazard_under :: "GameState \<Rightarrow> Hazard option" where
  "hazard_under s =
     (let currentGroundIndex = real_of_int \<lfloor>(cx (pos (player s)) + 16) / 50\<rfloor>
      in find (\<lambda>h. currentGroundIndex * 50 \<ge> hz_x h \<and>
                    currentGroundIndex * 50 < hz_x h + hz_width h) (hazards s))"

definition inputX :: "Input \<Rightarrow> real" where
  "inputX inp =
     (if keys inp ''ArrowRight'' \<or> keys inp ''KeyD'' then 1
      else if keys inp ''ArrowLeft'' \<or> keys inp ''KeyA'' then -1
      else vectorX (touch_left inp))"

text \<open>Wind, walking and friction: the player's horizontal velocity.\<close>

definition player_walk ::
  "Constants \<Rightarrow> PlayerUpgrades \<Rightarrow> Input \<Rightarrow> real \<Rightarrow> Hazard option \<Rightarrow> GameState \<Rightarrow> GameState" where
  "player_walk C U inp dt hazard s =
     (let p = player s;
          currentSpeed = PLAYER_SPEED (PHYSICS C) * moveSpeedMult U;
          maxSpeed = MAX_SPEED (PHYSICS C) * moveSpeedMult U;
          friction0 = (if isGrounded p then FRICTION (PHYSICS C) else AIR_FRICTION (PHYSICS C));
          friction = (case hazard of
                        Some h \<Rightarrow> if hz_type h = ice then 0.98 else friction0
                      | None \<Rightarrow> friction0);
          windPush = (if currentWeather s = sandstorm then 0.2 * weatherIntensity s else 0);
          v0 = (if \<not> isGrounded p then cx (vel p) + windPush else cx (vel p));
          v1 = (if \<bar>inputX inp\<bar> > 0.1 then v0 + inputX inp * currentSpeed * dt
                else v0 * friction);
          v2 = (if \<bar>v1\<bar> < 0.1 then 0 else v1);
          v3 = max (min v2 maxSpeed) (- maxSpeed)
      in s\<lparr>player := set_vx v3 p\<rparr>)"

definition isJumpPressed :: "Input \<Rightarrow> bool" where
  "isJumpPressed inp =
     (keys inp ''ArrowUp'' \<or> keys inp ''Space'' \<or> keys inp ''KeyW'' \<or> touch_jump inp)"

text \<open>Coyote time, jump, fuel recharge and jetpack.\<close>

definition player_jump ::
  "Constants \<Rightarrow> PlanetData \<Rightarrow> Input \<Rightarrow> real \<Rightarrow> GameState \<Rightarrow> GameState" where
  "player_jump C P inp dt s =
     (let p0 = player s;
          p1 = (if isGrounded p0 then p0\<lparr>coyoteTimer := Some (COYOTE_FRAMES (PHYSICS C))\<rparr>
                else if timer_running (coyoteTimer p0)
                then p0\<lparr>coyoteTimer := map_option (\<lambda>t. t - dt) (coyoteTimer p0)\<rparr>
                else p0);
          isJetpackPressed =
            (keys inp ''ShiftLeft'' \<or> (touch_jump inp \<and> \<not> isGrounded p1 \<and> cy (vel p1) > -5));
          canJump = ((isGrounded p1 \<or> timer_running (coyoteTimer p1)) \<and> \<not> jumpLock s);
          jumps = (isJumpPressed inp \<and> canJump);
          p2 = (if jumps
                then (set_vy (- JUMP_FORCE (PHYSICS C) * (1 / gravity P)) p1)
                       \<lparr>isGrounded := False, coyoteTimer := Some 0\<rparr>
                else p1);
          lock1 = (if jumps then True else jumpLock s);
          lock2 = (if \<not> isJumpPressed inp then False else lock1);
          p3 = (case (fuel p2, maxFuel p2) of
                  (Some f, Some mf) \<Rightarrow>
                    if isGrounded p2 \<and> \<not> isJetpackPressed \<and> f < mf
                    then p2\<lparr>fuel := Some (min mf (f + JETPACK_FUEL_RECHARGE (PHYSICS C) * dt))\<rparr>
                    else p2
                | _ \<Rightarrow> p2);
          p4 = (case fuel p3 of
                  Some f \<Rightarrow>
                    if isJetpackPressed \<and> f > 0
                    then (set_vy (cy (vel p3) - JETPACK_FORCE (PHYSICS C) * (1 / gravity P) * dt) p3)
                           \<lparr>fuel := Some (f - JETPACK_FUEL_CONSUMPTION (PHYSICS C) * dt),
                             isGrounded := False\<rparr>
                    else p3
                | None \<Rightarrow> p3)
      in s\<lparr>player := p4, jumpLock := lock2\<rparr>)"

text \<open>
  \<open>spawnPlayerProjectile\<close>: one projectile per count of the weapon, each with its own
  spread draw; the result carries the weapon's recoil.
\<close>

definition player_projectile ::
  "Constants \<Rightarrow> PlayerUpgrades \<Rightarrow> real \<Rightarrow> real \<Rightarrow> real \<Rightarrow> WeaponType \<Rightarrow> Entity" where
  "player_projectile C U x y spreadAngle w =
     (let stats = WEAPONS C w;
          baseSpeed = w_speed stats * (1 + (up_weapon U - 1) * 0.05)
      in \<lparr>pos = \<lparr>cx = x, cy = y\<rparr>,
          vel = \<lparr>cx = cos spreadAngle * baseSpeed, cy = sin spreadAngle * baseSpeed\<rparr>,
          size_e = SIZE_PROJECTILE C, etype = projectile_t, health = 1, maxHealth = 1,
          isGrounded = False, markedForDeletion = False,
          facingRight = (\<bar>spreadAngle\<bar> < pi / 2), animOffset = 0, hitTimer = 0,
          fuel = None, maxFuel = None, coyoteTimer = None,
          archetype = None, aiState = None, attackTimer = None, alertTimer = None,
          rarity = None, isBurrowed = None, shieldHp = None, lootType = None,
          coreTier = None, weaponType = Some w, pierceCount = Some (js_or (w_pierce stats) 0),
          isExplosive = Some (w_isExplosive stats = Some True)\<rparr>)"

fun spawn_shots ::
  "Constants \<Rightarrow> PlayerUpgrades \<Rightarrow> real \<Rightarrow> real \<Rightarrow> real \<Rightarrow> WeaponType \<Rightarrow> nat \<Rightarrow> Rng \<Rightarrow>
   GameState \<Rightarrow> GameState \<times> Rng" where
  "spawn_shots C U x y angle w 0 r s = (s, r)"
| "spawn_shots C U x y angle w (Suc n) r s =
     (let spreadAngle = angle + (r 0 - 0.5) * w_spread (WEAPONS C w)
      in spawn_shots C U x y angle w n (rng_next r)
           (s\<lparr>projectiles := projectiles s @ [player_projectile C U x y spreadAngle w]\<rparr>))"

definition spawnPlayerProjectile ::
  "Constants \<Rightarrow> PlayerUpgrades \<Rightarrow> real \<Rightarrow> real \<Rightarrow> real \<Rightarrow> WeaponType \<Rightarrow> Rng \<Rightarrow> GameState \<Rightarrow>
   real \<times> GameState \<times> Rng" where
  "spawnPlayerProjectile C U x y angle w r s =
     (let (s1, r1) = spawn_shots C U x y angle w (w_count (WEAPONS C w)) r s
      in (w_recoil (WEAPONS C w), s1, r1))"

definition isShooting :: "Input \<Rightarrow> bool" where
  "isShooting inp =
     (mouse_isDown inp \<or> keys inp ''KeyX'' \<or> keys inp ''KeyJ'' \<or> t_active (touch_right inp))"

definition player_shoot ::
  "Constants \<Rightarrow> PlayerUpgrades \<Rightarrow> Input \<Rightarrow> Rng \<Rightarrow> GameState \<Rightarrow> GameState \<times> Rng" where
  "player_shoot C U inp r s =
     (if isShooting inp \<and> weaponCooldown s \<le> 0 then
        (let p = player s; a = aimAngle s; gunLen = 25;
             spawnX = (cx (pos p) + cx (size_e p) / 2) + cos a * gunLen;
             spawnY = (cy (pos p) + cy (size_e p) / 2) + sin a * gunLen;
             (recoilAmount, s1, r1) = spawnPlayerProjectile C U spawnX spawnY a (currentWeapon s) r s;
             p1 = (player s1)\<lparr>vel := \<lparr>cx = cx (vel (player s1)) - cos a * recoilAmount,
                                       cy = cy (vel (player s1)) - sin a * recoilAmount\<rparr>\<rparr>;
             s2 = addScreenshake (recoilAmount * 0.8) (s1\<lparr>player := p1\<rparr>)
         in (s2\<lparr>camera_x := camera_x s2 + cos a * recoilAmount * 0.5,
                 camera_y := camera_y s2 + sin a * recoilAmount * 0.5,
                 weaponCooldown := w_fireRate (WEAPONS C (currentWeapon s))\<rparr>, r1))
      else (s, r))"

text \<open>A hazard hit on the player: damage, hit timer, floating text.\<close>

definition hazard_hit :: "Constants \<Rightarrow> real \<Rightarrow> string \<Rightarrow> GameState \<Rightarrow> GameState" where
  "hazard_hit C dmg txt s =
     spawnFloatingText txt
       (s\<lparr>player := (player s)\<lparr>health := health (player s) - dmg,
                                  hitTimer := INVULNERABILITY_FRAMES (PHYSICS C)\<rparr>\<rparr>)"

text \<open>The effect of the strip found under the player, after the player has moved.\<close>

definition hazard_effect :: "Constants \<Rightarrow> Hazard \<Rightarrow> real \<Rightarrow> GameState \<Rightarrow> GameState" where
  "hazard_effect C hz groundY s =
     (let p = player s; foot = cy (pos p) + cy (size_e p) in
      if hz_type hz = lava \<and> foot \<ge> groundY - 10 then
        (let s1 = (if frameCount s mod 20 = 0 \<and> hitTimer p \<le> 0
                   then (hazard_hit C 5 ''-5 HEAT'' s)\<lparr>hitStop := 4\<rparr> else s);
             p1 = player s1
         in s1\<lparr>player := p1\<lparr>vel := \<lparr>cx = cx (vel p1) * 0.5, cy = cy (vel p1) * 0.8\<rparr>\<rparr>\<rparr>)
      else if hz_type hz = acid \<and> foot \<ge> groundY - 10 then
        (if frameCount s mod 30 = 0 \<and> hitTimer p \<le> 0 then hazard_hit C 2 ''-2 ACID'' s else s)
      else if hz_type hz = spikes \<and> foot \<ge> groundY - 20 then
        (if hitTimer p \<le> 0
         then (let s1 = s\<lparr>player := set_vy (-8) p\<rparr>
               in (hazard_hit C 15 ''-15 SPIKE'' s1)\<lparr>hitStop := 5\<rparr>)
         else s)
      else if hz_type hz = geyser then
        (let isErupting = (js_rem (real_of_int (frameCount s) + hz_x hz) 300 < 100) in
         if isErupting \<and> foot \<ge> groundY - 150 \<and>
            cx (pos p) + cx (size_e p) > hz_x hz \<and> cx (pos p) < hz_x hz + hz_width hz
         then (let s1 = s\<lparr>player := set_vy (cy (vel p) - 1.5) p\<rparr>
               in if frameCount s mod 30 = 0 \<and> hitTimer p \<le> 0
                  then hazard_hit C 5 ''-5 STEAM'' s1 else s1)
         else s)
      else if hz_type hz = electric then
        (if foot \<ge> groundY - 40
         then (let s1 = s\<lparr>player := set_vx (cx (vel p) * 0.6) p\<rparr>
               in if frameCount s mod 40 = 0 \<and> hitTimer p \<le> 0
                  then hazard_hit C 8 ''-8 SHOCK'' s1 else s1)
         else s)
      else s)"

text \<open>Gravity, the move, the hazard under the player, landing and the world's edges.\<close>

definition player_physics ::
  "Constants \<Rightarrow> PlanetData \<Rightarrow> real \<Rightarrow> Hazard option \<Rightarrow> GameState \<Rightarrow> GameState" where
  "player_physics C P dt hazard s =
     (let p = player s;
          vy1 = cy (vel p) + GRAVITY (PHYSICS C) * gravity P * dt;
          p1 = p\<lparr>vel := \<lparr>cx = cx (vel p), cy = vy1\<rparr>,
                 pos := \<lparr>cx = cx (pos p) + cx (vel p) * dt, cy = cy (pos p) + vy1 * dt\<rparr>\<rparr>;
          groundY = groundHeight (terrain s) (cx (pos p1) + 16);
          s1 = s\<lparr>player := p1\<rparr>;
          s2 = (case hazard of Some hz \<Rightarrow> hazard_effect C hz groundY s1 | None \<Rightarrow> s1);
          p2 = player s2;
          p3 = (if cy (pos p2) + cy (size_e p2) \<ge> groundY
                then (set_vy 0 (set_py (groundY - cy (size_e p2)) p2))\<lparr>isGrounded := True\<rparr>
                else p2\<lparr>isGrounded := False\<rparr>);
          p4 = (if cx (pos p3) < 0 then set_px 0 p3 else p3);
          p5 = (if cy (pos p4) > logicalHeight s2 + 400 then p4\<lparr>health := 0\<rparr> else p4)
      in s2\<lparr>player := p5\<rparr>)"

text \<open>The camera follows the player, looking ahead and down on request.\<close>

definition camera_follow :: "Input \<Rightarrow> GameState \<Rightarrow> GameState" where
  "camera_follow inp s =
     (let p = player s;
          lookTarget =
            (if t_active (touch_left inp) then vectorX (touch_left inp)
             else if keys inp ''ArrowRight'' \<or> keys inp ''KeyD'' then 1
             else if keys inp ''ArrowLeft'' \<or> keys inp ''KeyA'' then -1 else 0) * 150;
          lookOffset = camera_lookOffset s + (lookTarget - camera_lookOffset s) * 0.05;
          lookVertical = (if vectorY (touch_left inp) > 0.5 then 200
                          else (mouse_y inp - logicalHeight s / 2) * 0.3);
          ldt = (if keys inp ''ArrowDown'' \<or> keys inp ''KeyS'' \<or> vectorY (touch_left inp) > 0.7
                 then lookDownTimer s + 1 else 0);
          lookDownOffset = (if ldt > 30 then 200 else 0 :: real);
          targetCamX = (cx (pos p) + cx (size_e p) / 2) - logicalWidth s / 2 + lookOffset;
          targetCamY0 = (cy (pos p) + cy (size_e p) / 2) - logicalHeight s * 0.6
                          + lookVertical + lookDownOffset;
          targetCamY = (if targetCamY0 > 100 then 100 else targetCamY0);
          camX = camera_x s + (targetCamX - camera_x s) * 0.08;
          camY = camera_y s + (targetCamY - camera_y s) * 0.08
      in s\<lparr>camera_lookOffset := lookOffset, lookDownTimer := ldt,
            camera_x := (if camX < 0 then 0 else camX), camera_y := camY\<rparr>)"

section \<open>Squads\<close>

datatype SquadTheme = mixed | air_raid | heavy_ground | sniper_nest | swarm | minefield | phalanx

record SquadMember =
  m_arch :: EnemyArchetype
  offsetX :: real
  offsetY :: real
  isLeader :: bool

definition themes :: "(SquadTheme \<times> real) list" where
  "themes = [(mixed, 3), (air_raid, 2), (heavy_ground, 2), (sniper_nest, 1), (swarm, 2),
             (minefield, 2), (phalanx, 2)]"

fun pick_theme :: "real \<Rightarrow> (SquadTheme \<times> real) list \<Rightarrow> SquadTheme" where
  "pick_theme rand [] = mixed"
| "pick_theme rand ((t, w) # ts) = (if rand < w then t else pick_theme (rand - w) ts)"

definition member :: "EnemyArchetype \<Rightarrow> real \<Rightarrow> real \<Rightarrow> bool \<Rightarrow> SquadMember" where
  "member a ox oy l = \<lparr>m_arch = a, offsetX = ox, offsetY = oy, isLeader = l\<rparr>"

text \<open>The members of a swarm, each with its own draw for the spacing.\<close>

fun swarm_members :: "EnemyArchetype \<Rightarrow> nat \<Rightarrow> nat \<Rightarrow> Rng \<Rightarrow> SquadMember list \<times> Rng" where
  "swarm_members a i 0 r = ([], r)"
| "swarm_members a i (Suc n) r =
     (let (ms, r1) = swarm_members a (Suc i) n (rng_next r)
      in (member a (real i * 30 + r 0 * 20) 0 False # ms, r1))"

definition squad_members :: "PlanetData \<Rightarrow> SquadTheme \<Rightarrow> Rng \<Rightarrow> SquadMember list \<times> Rng" where
  "squad_members P theme r =
     (let densityBonus = \<lfloor>enemyDensity P / 3\<rfloor> in
      case theme of
        air_raid \<Rightarrow>
          (map (\<lambda>i. member hornet (real i * 40) (- real (i mod 2) * 50 - 50) False)
             [0 ..< nat (3 + densityBonus)], r)
      | heavy_ground \<Rightarrow>
          (member dasher 0 0 True #
             map (\<lambda>i. member crawler (80 + real i * 40) 0 False) [0 ..< nat (2 + densityBonus)], r)
      | sniper_nest \<Rightarrow>
          ([member sentinel 0 0 True, member sentinel 150 0 False, member crawler 75 0 False], r)
      | swarm \<Rightarrow>
          swarm_members (if r 0 > 0.5 then crawler else neutral) 0
            (nat (5 + densityBonus * 2)) (rng_next r)
      | minefield \<Rightarrow>
          ([member spore 0 (-100) False, member spore 60 (-50) False,
            member spore 120 (-80) False, member sandworm 60 0 True], r)
      | phalanx \<Rightarrow>
          ([member shielder 0 0 True, member sentinel 50 0 False, member sentinel 100 0 False], r)
      | mixed \<Rightarrow>
          ([member sentinel 0 0 False, member crawler 60 0 False, member crawler 120 0 False], r))"

text \<open>\<open>findIndex\<close> of the first member of an archetype.\<close>

fun find_arch :: "EnemyArchetype \<Rightarrow> SquadMember list \<Rightarrow> nat option" where
  "find_arch a [] = None"
| "find_arch a (m # ms) =
     (if m_arch m = a then Some 0 else map_option Suc (find_arch a ms))"

definition promote_alpha :: "PlanetData \<Rightarrow> SquadMember list \<Rightarrow> Rng \<Rightarrow> SquadMember list \<times> Rng" where
  "promote_alpha P ms r =
     (let alphaChance = 0.15 + enemyDensity P * 0.03 in
      if r 0 < alphaChance \<and> length ms > 0 then
        (let leaderIdx = (case find_arch dasher ms of
                            Some k \<Rightarrow> k
                          | None \<Rightarrow> (case find_arch sentinel ms of Some k \<Rightarrow> k | None \<Rightarrow> 0))
         in (ms[leaderIdx := (ms ! leaderIdx)\<lparr>isLeader := True\<rparr>], rng_next r))
      else (ms, rng_next r))"

fun spawn_members ::
  "Constants \<Rightarrow> PlanetData \<Rightarrow> real \<Rightarrow> SquadMember list \<Rightarrow> Rng \<Rightarrow> GameState \<Rightarrow> GameState \<times> Rng" where
  "spawn_members C P startX [] r s = (s, r)"
| "spawn_members C P startX (mem # ms) r s =
     (let x = startX + offsetX mem;
          groundAt = groundHeight (terrain s) x;
          spawnY = (if offsetY mem \<noteq> 0 then groundAt + offsetY mem else groundAt);
          (s1, r1) = spawnEnemy C P x spawnY (Some (m_arch mem))
                       (Some (if isLeader mem then elite else common)) r s
      in spawn_members C P startX ms r1 s1)"

definition spawnSquad :: "Constants \<Rightarrow> PlanetData \<Rightarrow> real \<Rightarrow> Rng \<Rightarrow> GameState \<Rightarrow> GameState \<times> Rng" where
  "spawnSquad C P startX r s =
     (let totalWeight = sum_list (map snd themes);
          selectedTheme = pick_theme (r 0 * totalWeight) themes;
          (ms, r1) = squad_members P selectedTheme (rng_next r);
          (ms1, r2) = promote_alpha P ms r1
      in spawn_members C P startX ms1 r2 s)"

text \<open>A squad appears ahead of the camera when the player passes the stored threshold.\<close>

definition squad_trigger :: "Constants \<Rightarrow> PlanetData \<Rightarrow> Rng \<Rightarrow> GameState \<Rightarrow> GameState \<times> Rng" where
  "squad_trigger C P r s =
     (if \<not> bossActive s \<and> cx (pos (player s)) > nextSquadSpawnX s then
        (let spawnX = camera_x s + logicalWidth s + 200;
             (s1, r1) = spawnSquad C P spawnX r s;
             gap = 2500 - enemyDensity P * 200 + r1 0 * 800
         in (s1\<lparr>nextSquadSpawnX := cx (pos (player s1)) + max 800 gap\<rparr>, rng_next r1))
      else (s, r))"

section \<open>The frame: \<open>update\<close>\<close>

text \<open>The landing sequence that opens a mission, while the intro timer runs.\<close>

definition intro_step :: "Constants \<Rightarrow> PlanetData \<Rightarrow> real \<Rightarrow> GameState \<Rightarrow> GameState" where
  "intro_step C P dt s =
     (let s0 = s\<lparr>introTimer := introTimer s - dt\<rparr>;
          p = player s0;
          vy1 = cy (vel p) + GRAVITY (PHYSICS C) * gravity P * dt * 2;
          p1 = set_py (cy (pos p) + vy1 * dt) (set_vy vy1 p);
          groundY = groundHeight (terrain s0) (cx (pos p1) + 16);
          lands = (cy (pos p1) + cy (size_e p1) \<ge> groundY);
          p2 = (if lands
                then (set_py (groundY - cy (size_e p1)) p1)\<lparr>vel := \<lparr>cx = 0, cy = 0\<rparr>\<rparr>
                else p1);
          s1 = (if lands \<and> introTimer s0 > 60
                then addScreenshake 20 (s0\<lparr>introTimer := 60\<rparr>) else s0)
      in s1\<lparr>player := p2,
             camera_x := (cx (pos p2) + cx (size_e p2) / 2) - logicalWidth s1 / 2,
             camera_y := (cy (pos p2) + cy (size_e p2) / 2) - logicalHeight s1 * 0.6\<rparr>)"

text \<open>The end of a frame: deleted entities leave their lists and the frame counter advances.\<close>

definition compact :: "GameState \<Rightarrow> GameState" where
  "compact s =
     s\<lparr>enemies := filter (\<lambda>e. \<not> markedForDeletion e) (enemies s),
       projectiles := filter (\<lambda>p. \<not> markedForDeletion p) (projectiles s),
       loot := filter (\<lambda>l. \<not> markedForDeletion l) (loot s),
       frameCount := frameCount s + 1\<rparr>"

definition check_game_over :: "GameState \<Rightarrow> GameState" where
  "check_game_over s =
     (if health (player s) \<le> 0
      then s\<lparr>isPlaying := False,
             onGameOver_calls := onGameOver_calls s @ [(score s, coresCollected s)]\<rparr>
      else s)"

text \<open>
  \<open>update(dt)\<close>. A frame in hit-stop only counts the hit-stop down; a frame of the intro
  only lands the player. Any other frame runs the weather, the player, the camera, the
  squad trigger, the three entity loops and the clean-up. The bending of the vegetation,
  the particles, the decay of the floating texts and the HUD are drawing data. The frame
  fails (\<open>None\<close>) only where an array read of the weather or of a weapon drop does, which
  no draw in \<open>[0, 1)\<close> causes.
\<close>

definition update ::
  "Rounding \<Rightarrow> Constants \<Rightarrow> PlanetData \<Rightarrow> PlayerUpgrades \<Rightarrow> Input \<Rightarrow> real \<Rightarrow> Rng \<Rightarrow> GameState \<Rightarrow>
   (GameState \<times> Rng) option" where
  "update fl C P U inp dt r s =
     (if hitStop s > 0 then Some (s\<lparr>hitStop := hitStop s - 1\<rparr>, r)
      else if introTimer s > 0 then Some (intro_step C P dt s, r)
      else
        (case updateWeather P dt r s of
           None \<Rightarrow> None
         | Some (s1, r1) \<Rightarrow>
             (let s2 = take_aim inp (tick_timers dt s1);
                  hazard = hazard_under s2;
                  s3 = player_jump C P inp dt (player_walk C U inp dt hazard s2);
                  (s4, r2) = player_shoot C U inp r1 s3;
                  s5 = camera_follow inp (player_physics C P dt hazard s4);
                  (s6, r3) = squad_trigger C P r2 s5
              in case enemies_phase C P dt r3 s6 of
                   None \<Rightarrow> None
                 | Some (s7, r4) \<Rightarrow>
                     Some (check_game_over
                             (compact (loot_phase C P dt (projectiles_phase fl C U dt s7))), r4))))"


section \<open>Map generation\<close>

datatype StemType =
  straight | twisted | segmented | cactus | shard | bulbous | vine | spiral | crystalline

datatype FoliageType =
  no_foliage | canopy | fern | bulb | spikes_f | weeping | pods | flower | luminescent |
  giant_leaf | tentacles

record Vegetation =
  v_x :: real
  v_y :: real
  v_height :: real
  v_width :: real
  stemType :: StemType
  foliageType :: FoliageType
  swaySpeed :: real
  swayAmount :: real
  v_variant :: int
  isTitan :: bool
  currentBend :: real

record Decoration =
  d_x :: real
  d_y :: real
  d_type :: nat
  d_size :: real

text \<open>\<open>String.prototype.includes\<close>.\<close>

fun starts_with :: "string \<Rightarrow> string \<Rightarrow> bool" where
  "starts_with txt [] = True"
| "starts_with [] (c # cs) = False"
| "starts_with (t # ts) (c # cs) = (t = c \<and> starts_with ts cs)"

fun includes_str :: "string \<Rightarrow> string \<Rightarrow> bool" where
  "includes_str [] pat = (pat = [])"
| "includes_str (t # ts) pat = (starts_with (t # ts) pat \<or> includes_str ts pat)"

text \<open>
  What the segment loop carries from one segment to the next: the running height, the
  style of the current chunk (\<open>None\<close> for \<open>undefined\<close>) and the lists built so far.
\<close>

record GenState =
  g_height :: real
  g_style :: "BiomeStyle option"
  g_terrain :: "real list"
  g_hazards :: "Hazard list"
  g_decorations :: "Decoration list"
  g_vegetation :: "Vegetation list"

definition segments :: nat where
  "segments = 350"

definition segmentWidth :: real where
  "segmentWidth = 50"

definition chunkLength :: nat where
  "chunkLength = 80"

text \<open>The style drawn from the planet's biomes; an empty list gives \<open>undefined\<close>.\<close>

definition pick_style :: "PlanetData \<Rightarrow> Rng \<Rightarrow> BiomeStyle option" where
  "pick_style P r =
     array_read (allowedBiomes P) \<lfloor>r 0 * real (length (allowedBiomes P))\<rfloor>"

text \<open>The height change of segment \<open>i\<close> under the style, with the stream after its draw.\<close>

definition height_delta :: "BiomeStyle option \<Rightarrow> nat \<Rightarrow> Rng \<Rightarrow> real \<times> Rng" where
  "height_delta style i r =
     (case style of
        Some dunes \<Rightarrow> (sin (real i * 0.1) * 5 + cos (real i * 0.05) * 2, r)
      | Some crags \<Rightarrow> ((r 0 - 0.5) * 15, rng_next r)
      | Some plateau \<Rightarrow>
          (if i mod 15 = 0 then ((real_of_int \<lfloor>r 0 * 3\<rfloor> - 1) * 40, rng_next r) else (0, r))
      | Some spire \<Rightarrow>
          (if i mod 5 = 0 then ((r 0 - 0.5) * 30, rng_next r) else ((r 0 - 0.5) * 5, rng_next r))
      | None \<Rightarrow> (0, r))"

text \<open>The band \<open>[100, 550]\<close> and the nudge of 2 away from its outer fifths.\<close>

definition clamp_height :: "real \<Rightarrow> real" where
  "clamp_height h =
     (let minH = 100; maxH = LOGICAL_HEIGHT - 50;
          h1 = (if h < minH then minH else h);
          h2 = (if h1 > maxH then maxH else h1);
          h3 = (if h2 < 150 then h2 + 2 else h2)
      in if h3 > LOGICAL_HEIGHT - 150 then h3 - 2 else h3)"

text \<open>
  The hazard kind of a raised segment: by style, else by the planet's colours, else none.
\<close>

definition hazard_kind :: "PlanetData \<Rightarrow> BiomeStyle option \<Rightarrow> Rng \<Rightarrow> HazardType \<times> Rng" where
  "hazard_kind P style r =
     (let (h0, r1) =
            (case style of
               Some dunes \<Rightarrow> (if r 0 > 0.7 then geyser else none, rng_next r)
             | Some plateau \<Rightarrow> (if r 0 > 0.8 then electric else none, rng_next r)
             | Some crags \<Rightarrow> (lava, r)
             | Some spire \<Rightarrow> (if r 0 > 0.5 then acid else electric, rng_next r)
             | None \<Rightarrow> (none, r));
          h1 = (if h0 = none then
                  (if includes_str (groundColor P) ''441111'' \<or> includes_str (planet_name P) ''Lava''
                   then lava
                   else if includes_str (atmosphereColor P) ''0a2a0a'' then acid else h0)
                else h0)
      in (h1, r1))"

text \<open>
  The hazard roll of segment \<open>i\<close> at height \<open>h\<close>: about one segment in seventeen, away
  from both ends of the map, is raised by 40; it becomes a hazard strip, and sets
  \<open>isHazard\<close>, only if a hazard kind applies. The result is the height, the strip if one
  was pushed, and the stream.
\<close>

definition hazard_roll ::
  "PlanetData \<Rightarrow> BiomeStyle option \<Rightarrow> nat \<Rightarrow> real \<Rightarrow> Rng \<Rightarrow> real \<times> Hazard option \<times> Rng" where
  "hazard_roll P style i h r =
     (if i > 10 \<and> i < segments - 10 then
        (if r 0 < 0.06 then
           (let maxH = LOGICAL_HEIGHT - 50;
                h1 = (if h + 40 > maxH then maxH else h + 40);
                (hType, r1) = hazard_kind P style (rng_next r)
            in if hType \<noteq> none
               then (h1, Some \<lparr>hz_x = real i * segmentWidth, hz_width = segmentWidth,
                                hz_type = hType\<rparr>, r1)
               else (h1, None, r1))
         else (h, None, rng_next r))
      else (h, None, r))"

text \<open>Floor spikes on crags and ice on cold spires, placed when \<open>isHazard\<close> is not set.\<close>

definition extra_hazards ::
  "PlanetData \<Rightarrow> BiomeStyle option \<Rightarrow> nat \<Rightarrow> bool \<Rightarrow> Rng \<Rightarrow> Hazard list \<times> Rng" where
  "extra_hazards P style i isHazard r =
     (let x = real i * segmentWidth;
          rollsSpikes = (\<not> isHazard \<and> style = Some crags);
          sp = (if rollsSpikes \<and> r 0 < 0.1
                then [\<lparr>hz_x = x, hz_width = segmentWidth, hz_type = spikes\<rparr>] else []);
          r1 = (if rollsSpikes then rng_next r else r);
          ic = (if \<not> isHazard \<and> style = Some spire \<and> includes_str (atmosphereColor P) ''001133''
                then [\<lparr>hz_x = x, hz_width = segmentWidth, hz_type = ice\<rparr>] else [])
      in (sp @ ic, r1))"

definition decoration_roll ::
  "BiomeStyle option \<Rightarrow> nat \<Rightarrow> real \<Rightarrow> bool \<Rightarrow> Rng \<Rightarrow> Decoration list \<times> Rng" where
  "decoration_roll style i h isHazard r =
     (if \<not> isHazard then
        (if r 0 > 0.85 then
           (let r1 = rng_next r;
                (ty, r2) = (case style of
                              Some dunes \<Rightarrow> (0, r1)
                            | Some spire \<Rightarrow> (2, r1)
                            | Some plateau \<Rightarrow> (4, r1)
                            | _ \<Rightarrow> (if r1 0 > 0.5 then 1 else 0, rng_next r1))
            in ([\<lparr>d_x = real i * segmentWidth + r2 0 * 40, d_y = h, d_type = ty,
                   d_size = r2 1 * 10 + 5\<rparr>], rng_next (rng_next r2)))
         else ([], rng_next r))
      else ([], r))"

text \<open>The stem and foliage of a plant, by style and draw.\<close>

definition plant_shape :: "PlanetData \<Rightarrow> BiomeStyle option \<Rightarrow> real \<Rightarrow> StemType \<times> FoliageType" where
  "plant_shape P style rand =
     (case style of
        Some dunes \<Rightarrow>
          (if rand > 0.8 then (crystalline, no_foliage)
           else if rand > 0.6 then (cactus, spikes_f)
           else if rand > 0.3 then (twisted, no_foliage) else (bulbous, flower))
      | Some spire \<Rightarrow>
          (if rand > 0.7 then (spiral, luminescent)
           else if rand > 0.4 then (shard, bulb) else (vine, no_foliage))
      | Some plateau \<Rightarrow>
          (if rand > 0.8 then (straight, giant_leaf)
           else if rand > 0.5 then (segmented, canopy) else (straight, pods))
      | _ \<Rightarrow>
          (if includes_str (atmosphereColor P) ''0a2a0a'' \<and> rand > 0.6 then (twisted, tentacles)
           else if rand > 0.5 then (bulbous, weeping) else (twisted, fern)))"

definition vegDensity :: "BiomeStyle option \<Rightarrow> real" where
  "vegDensity style =
     (case style of Some dunes \<Rightarrow> 0.2 | Some spire \<Rightarrow> 0.3 | Some plateau \<Rightarrow> 0.7 | _ \<Rightarrow> 0.5)"

text \<open>
  Vegetation placement, gated by \<open>isHazard\<close> and by a draw against the effective density.
  The two draws for the plant's colours are not taken.
\<close>

definition vegetation_roll ::
  "PlanetData \<Rightarrow> BiomeStyle option \<Rightarrow> nat \<Rightarrow> bool \<Rightarrow> Rng \<Rightarrow> Vegetation list \<times> Rng" where
  "vegetation_roll P style i isHazard r =
     (let effectiveVegDensity = vegDensity style * (vegetationDensity P * 1.5) in
      if \<not> isHazard then
        (if r 0 < effectiveVegDensity then
           (let titan = (r 1 < 0.08);
                (stem0, foliage) = plant_shape P style (r 2);
                scaleMult = 0.8 + vegetationDensity P * 0.4;
                hBase0 = (r 3 * 120 + 40) * scaleMult;
                wBase0 = (r 4 * 6 + 4) * scaleMult;
                r5 = rng_next (rng_next (rng_next (rng_next (rng_next r))));
                hBase = (if titan then 250 + r5 0 * 200 else hBase0);
                wBase = (if titan then 15 + r5 1 * 15 else wBase0);
                stem = (if titan then (if stem0 = vine then twisted
                                       else if stem0 = shard then straight else stem0)
                        else stem0);
                r6 = (if titan then rng_next (rng_next r5) else r5)
            in ([\<lparr>v_x = real i * segmentWidth + r6 0 * segmentWidth, v_y = 0,
                   v_height = hBase + (if foliage = canopy then 40 else 0), v_width = wBase,
                   stemType = stem, foliageType = foliage,
                   swaySpeed = (r6 1 * 0.02 + 0.01) * (if titan then 0.5 else 1),
                   swayAmount = (r6 2 * 5 + 2) * (if titan then 1.5 else 1),
                   v_variant = \<lfloor>r6 3 * 100\<rfloor>, isTitan = titan, currentBend = 0\<rparr>],
                rng_next (rng_next (rng_next (rng_next r6)))))
         else ([], rng_next r))
      else ([], r))"

text \<open>One turn of the segment loop.\<close>

definition gen_segment :: "PlanetData \<Rightarrow> nat \<Rightarrow> GenState \<times> Rng \<Rightarrow> GenState \<times> Rng" where
  "gen_segment P i gr =
     (let (g, r) = gr;
          picks = (i mod chunkLength = 0);
          style = (if picks then pick_style P r else g_style g);
          r1 = (if picks then rng_next r else r);
          (delta, r2) = height_delta style i r1;
          h1 = clamp_height (g_height g + delta);
          (h2, hz, r3) = hazard_roll P style i h1 r2;
          isHazard = (hz \<noteq> None);
          (extra, r4) = extra_hazards P style i isHazard r3;
          (decos, r5) = decoration_roll style i h2 isHazard r4;
          (plants, r6) = vegetation_roll P style i isHazard r5
      in (\<lparr>g_height = h2, g_style = style, g_terrain = g_terrain g @ [h2],
           g_hazards = g_hazards g @ (case hz of None \<Rightarrow> [] | Some h \<Rightarrow> [h]) @ extra,
           g_decorations = g_decorations g @ decos,
           g_vegetation = g_vegetation g @ plants\<rparr>, r6))"

text \<open>
  Whether segment \<open>i\<close> takes the hazard raise: the test
  \<open>i > 10 && i < segments - 10 && Math.random() < 0.06\<close> of the segment's turn, whose
  draw comes after those of the style pick and of the height change.
\<close>

definition takes_raise :: "PlanetData \<Rightarrow> nat \<Rightarrow> GenState \<times> Rng \<Rightarrow> bool" where
  "takes_raise P i gr =
     (let (g, r) = gr;
          picks = (i mod chunkLength = 0);
          style = (if picks then pick_style P r else g_style g);
          r1 = (if picks then rng_next r else r);
          (delta, r2) = height_delta style i r1
      in i > 10 \<and> i < segments - 10 \<and> r2 0 < 0.06)"

text \<open>The segments \<open>i, i + 1, \<dots>, i + n - 1\<close> in order.\<close>

fun gen_loop :: "PlanetData \<Rightarrow> nat \<Rightarrow> nat \<Rightarrow> GenState \<times> Rng \<Rightarrow> GenState \<times> Rng" where
  "gen_loop P i 0 gr = gr"
| "gen_loop P i (Suc n) gr = gen_loop P (Suc i) n (gen_segment P i gr)"

definition gen_start :: "PlanetData \<Rightarrow> GenState" where
  "gen_start P =
     \<lparr>g_height = LOGICAL_HEIGHT - 150, g_style = array_read (allowedBiomes P) 0,
      g_terrain = [], g_hazards = [], g_decorations = [], g_vegetation = []\<rparr>"

text \<open>Map generation: all 350 segments from the start height 450.\<close>

definition generate_map :: "PlanetData \<Rightarrow> Rng \<Rightarrow> GenState \<times> Rng" where
  "generate_map P r = gen_loop P 0 segments (gen_start P, r)"

text \<open>
  The largest height change a style's rule can ask for in one segment: 5 + 2 for the two
  waves of the dunes, half of 15 for crags, a step of 40 for plateaus, half of 30 for
  spires.
\<close>

fun max_delta :: "BiomeStyle \<Rightarrow> real" where
  "max_delta dunes = 7"
| "max_delta crags = 7.5"
| "max_delta plateau = 40"
| "max_delta spire = 15"

text \<open>
  \<open>max_step hs bd\<close>: consecutive samples of \<open>hs\<close> differ by at most \<open>bd\<close>. \<open>style_delta\<close>
  extends \<open>max_delta\<close> to the undefined style, whose height change is 0.
\<close>

fun max_step :: "real list \<Rightarrow> real \<Rightarrow> bool" where
  "max_step (a # b # rest) bd = (\<bar>b - a\<bar> \<le> bd \<and> max_step (b # rest) bd)"
| "max_step hs bd = True"

definition style_delta :: "BiomeStyle option \<Rightarrow> real" where
  "style_delta sty = (case sty of None \<Rightarrow> 0 | Some st \<Rightarrow> max_delta st)"

text \<open>\<open>extends g g'\<close>: the lists of \<open>g'\<close> continue those of \<open>g\<close>; the loop only appends.\<close>

definition extends :: "GenState \<Rightarrow> GenState \<Rightarrow> bool" where
  "extends g g' =
     ((\<exists>a. g_terrain g' = g_terrain g @ a) \<and> (\<exists>b. g_hazards g' = g_hazards g @ b) \<and>
      (\<exists>c. g_vegetation g' = g_vegetation g @ c))"

text \<open>
  A main hazard is a strip of the hazard roll (lava, acid, geyser, electric), as opposed
  to floor spikes and ice. A strip overlaps a plant whose foot lies within it.
  \<open>placed_ok i g\<close>: after the segments below \<open>i\<close>, every strip starts at a segment and is
  one segment wide, and every plant stands in a segment that holds no main hazard.
\<close>

definition main_hazard :: "Hazard \<Rightarrow> bool" where
  "main_hazard h = (hz_type h \<noteq> spikes \<and> hz_type h \<noteq> ice)"

definition overlaps :: "Hazard \<Rightarrow> Vegetation \<Rightarrow> bool" where
  "overlaps h v = (hz_x h \<le> v_x v \<and> v_x v < hz_x h + hz_width h)"

definition placed_ok :: "nat \<Rightarrow> GenState \<Rightarrow> bool" where
  "placed_ok i g =
     ((\<forall>z \<in> set (g_hazards g). hz_width z = 50 \<and> (\<exists>j<i. hz_x z = real j * 50)) \<and>
      (\<forall>v \<in> set (g_vegetation g). \<exists>j<i. real j * 50 \<le> v_x v \<and> v_x v < real j * 50 + 50 \<and>
         (\<forall>z \<in> set (g_hazards g). hz_x z = real j * 50 \<longrightarrow> \<not> main_hazard z)))"

section \<open>Sample data\<close>

text \<open>
  Concrete constants tables and concrete entities, used where a property is evaluated on
  an explicit input. The first table holds sample values, the second the values of the
  constants module; the properties below that depend on a constant are stated for every
  table.
\<close>

definition sample_physics :: Physics where
  "sample_physics =
     \<lparr>GRAVITY = 0.5, FRICTION = 0.8, AIR_FRICTION = 0.95, PLAYER_SPEED = 0.8, MAX_SPEED = 6,
      JUMP_FORCE = 10, JETPACK_FORCE = 0.8, JETPACK_FUEL_CONSUMPTION = 1,
      JETPACK_FUEL_RECHARGE = 0.5, COYOTE_FRAMES = 8, INVULNERABILITY_FRAMES = 60,
      PROJECTILE_SPEED = 12\<rparr>"

definition sample_stats :: "EnemyArchetype \<Rightarrow> EnemyStats" where
  "sample_stats a =
     (if a = guardian then
        \<lparr>st_hp = 1000, st_score = Some 5000, st_speed = Some 3, st_aggroRange = Some 1000,
         st_range = None, st_dashSpeed = 0\<rparr>
      else if a = sentinel then
        \<lparr>st_hp = 30, st_score = Some 200, st_speed = Some 1, st_aggroRange = Some 500,
         st_range = Some 300, st_dashSpeed = 0\<rparr>
      else if a = dasher then
        \<lparr>st_hp = 40, st_score = Some 150, st_speed = Some 2, st_aggroRange = Some 400,
         st_range = None, st_dashSpeed = 8\<rparr>
      else
        \<lparr>st_hp = 20, st_score = Some 100, st_speed = Some 2, st_aggroRange = Some 300,
         st_range = None, st_dashSpeed = 0\<rparr>)"

definition sample_weapon :: "WeaponType \<Rightarrow> WeaponStats" where
  "sample_weapon w =
     (if w = launcher then
        \<lparr>w_name = ''LAUNCHER'', w_damageMult = 5, w_fireRate = 60, w_speed = 8, w_count = 1, w_spread = 0,
         w_recoil = 5, w_isExplosive = Some True, w_gravity = Some 0.2, w_pierce = None,
         w_knockback = 10\<rparr>
      else
        \<lparr>w_name = ''BLASTER'', w_damageMult = 1, w_fireRate = 15, w_speed = 12, w_count = 1, w_spread = 0.05,
         w_recoil = 1, w_isExplosive = None, w_gravity = None, w_pierce = None,
         w_knockback = 2\<rparr>)"

definition sample_constants :: Constants where
  "sample_constants =
     \<lparr>PHYSICS = sample_physics, ENEMY_STATS = sample_stats,
      ENTITY_SIZE = (\<lambda>a. \<lparr>cx = 32, cy = 32\<rparr>), SIZE_PLAYER = \<lparr>cx = 32, cy = 32\<rparr>,
      SIZE_PROJECTILE = \<lparr>cx = 8, cy = 8\<rparr>, SIZE_ENEMY_PROJECTILE = \<lparr>cx = 8, cy = 8\<rparr>,
      SIZE_LOOT = \<lparr>cx = 20, cy = 20\<rparr>, SIZE_WEAPON_DROP = \<lparr>cx = 20, cy = 20\<rparr>,
      SIZE_HEALTH_DROP = \<lparr>cx = 16, cy = 16\<rparr>, WEAPONS = sample_weapon\<rparr>"







text \<open>The planet that \<open>generatePlanet\<close> returns when the remote generator fails.\<close>

definition fallback_planet :: PlanetData where
  "fallback_planet =
     \<lparr>planet_name = ''LV-426 (Simulation)'', gravity = 0.8, atmosphereColor = ''#1a1a2e'',
      groundColor = ''#4e4e50'', enemyDensity = 5, allowedBiomes = [crags],
      weatherTraits = [acid_rain, clear], vegetationDensity = 0.3,
      weatherVolatility = 0.5\<rparr>"



text \<open>An enemy of the given archetype and stance standing at \<open>(x, y)\<close>, 32 by 32.\<close>

definition sample_enemy :: "EnemyArchetype \<Rightarrow> AiState \<Rightarrow> real \<Rightarrow> real \<Rightarrow> Entity" where
  "sample_enemy a st x y =
     \<lparr>pos = \<lparr>cx = x, cy = y\<rparr>, vel = \<lparr>cx = 0, cy = 0\<rparr>, size_e = \<lparr>cx = 32, cy = 32\<rparr>,
      etype = enemy_t, health = 20, maxHealth = 20, isGrounded = True,
      markedForDeletion = False, facingRight = False, animOffset = 0, hitTimer = 0,
      fuel = None, maxFuel = None, coyoteTimer = None,
      archetype = Some a, aiState = Some st, attackTimer = Some 100, alertTimer = Some 0,
      rarity = Some common, isBurrowed = Some False, shieldHp = Some 0, lootType = None,
      coreTier = None, weaponType = None, pierceCount = None, isExplosive = None\<rparr>"

text \<open>A loot item of the given kind resting at \<open>(x, y)\<close>, 20 by 20.\<close>

definition sample_loot :: "LootType \<Rightarrow> real \<Rightarrow> real \<Rightarrow> Entity" where
  "sample_loot k x y =
     \<lparr>pos = \<lparr>cx = x, cy = y\<rparr>, vel = \<lparr>cx = 0, cy = 0\<rparr>, size_e = \<lparr>cx = 20, cy = 20\<rparr>,
      etype = loot_t, health = 1, maxHealth = 1, isGrounded = False,
      markedForDeletion = False, facingRight = True, animOffset = 0, hitTimer = 0,
      fuel = None, maxFuel = None, coyoteTimer = None,
      archetype = None, aiState = None, attackTimer = None, alertTimer = None,
      rarity = None, isBurrowed = None, shieldHp = None, lootType = Some k,
      coreTier = (if k = core then Some 1 else None), weaponType = None, pierceCount = None,
      isExplosive = None\<rparr>"

text \<open>A blaster projectile at \<open>(x, y)\<close> flying sideways with speed \<open>v\<close>; no upgrades bought.\<close>

definition sample_shot :: "real \<Rightarrow> real \<Rightarrow> real \<Rightarrow> Entity" where
  "sample_shot x y v =
     \<lparr>pos = \<lparr>cx = x, cy = y\<rparr>, vel = \<lparr>cx = v, cy = 0\<rparr>, size_e = \<lparr>cx = 8, cy = 8\<rparr>,
      etype = projectile_t, health = 1, maxHealth = 1, isGrounded = False,
      markedForDeletion = False, facingRight = True, animOffset = 0, hitTimer = 0,
      fuel = None, maxFuel = None, coyoteTimer = None,
      archetype = None, aiState = None, attackTimer = None, alertTimer = None,
      rarity = None, isBurrowed = None, shieldHp = None, lootType = None,
      coreTier = None, weaponType = Some blaster, pierceCount = Some 0,
      isExplosive = Some False\<rparr>"

definition sample_upgrades :: PlayerUpgrades where
  "sample_upgrades = \<lparr>up_hull = 1, up_weapon = 1, up_thrusters = 1, up_speed = 1\<rparr>"




text \<open>No key held, no touch, the mouse level with the player's middle and to its right.\<close>

definition idle_input :: "real \<Rightarrow> real \<Rightarrow> Input" where
  "idle_input mx my =
     \<lparr>keys = (\<lambda>k. False),
      touch_left = \<lparr>t_active = False, vectorX = 0, vectorY = 0\<rparr>,
      touch_right = \<lparr>t_active = False, vectorX = 0, vectorY = 0\<rparr>,
      touch_jump = False, mouse_x = mx, mouse_y = my, mouse_isDown = False\<rparr>"

text \<open>
  A mission in play on open ground (no terrain samples, so the ground is at 600): the
  player stands at \<open>x = 100\<close>, and 800 to the right an idle crawler drifts at speed 1,
  as one does after it has given up a chase.
\<close>

definition drifting_crawler :: Entity where
  "drifting_crawler = (sample_enemy crawler idle 900 568)\<lparr>vel := \<lparr>cx = 1, cy = 0\<rparr>\<rparr>"

definition drift_state :: GameState where
  "drift_state =
     (let s = mission_start sample_constants 100 100
      in s\<lparr>player := (player s)\<lparr>pos := \<lparr>cx = 100, cy = 568\<rparr>\<rparr>, introTimer := 0,
            enemies := [drifting_crawler]\<rparr>)"

text \<open>A mission in play: the start state with the intro over and the player at \<open>(x, y)\<close>.\<close>

definition sample_state :: "real \<Rightarrow> real \<Rightarrow> GameState" where
  "sample_state x y =
     (let s = mission_start sample_constants 100 100
      in s\<lparr>player := (player s)\<lparr>pos := \<lparr>cx = x, cy = y\<rparr>\<rparr>, introTimer := 0\<rparr>)"

text \<open>The drifting state with the player landed and the camera moved toward its target.\<close>

definition drift_landed :: GameState where
  "drift_landed =
     drift_state\<lparr>player := (player drift_state)\<lparr>isGrounded := True\<rparr>, camera_y := 8\<rparr>"

section \<open>Properties of terrain sampling\<close>

lemma ground_indices_bounds:
  assumes "hs \<noteq> []"
  shows "0 \<le> fst (ground_indices hs x)"
    and "fst (ground_indices hs x) < int (length hs)"
    and "0 \<le> snd (ground_indices hs x)"
    and "snd (ground_indices hs x) < int (length hs)"
  using assms by (auto simp: ground_indices_def Let_def)

lemma ground_indices_left:
  assumes "hs \<noteq> []" and "x < 0"
  shows "ground_indices hs x = (0, 0)"
proof -
  define k where "k = \<lfloor>x / 50\<rfloor>"
  have "x / 50 < 0" using assms(2) by simp
  then have k: "k < 0" unfolding k_def by (simp add: floor_less_iff)
  have n: "0 < int (length hs)" using assms(1) by simp
  have "max 0 (min k (int (length hs) - 1)) = 0"
    and "max 0 (min (k + 1) (int (length hs) - 1)) = 0"
    using k n by linarith+
  then show ?thesis
    by (simp add: ground_indices_def Let_def k_def)
qed

lemma ground_indices_right:
  assumes "hs \<noteq> []" and "50 * real (length hs - 1) \<le> x"
  shows "ground_indices hs x = (int (length hs) - 1, int (length hs) - 1)"
proof -
  define k where "k = \<lfloor>x / 50\<rfloor>"
  have len: "0 < length hs" using assms(1) by simp
  have "real (length hs - 1) \<le> x / 50" using assms(2) by simp
  then have "int (length hs - 1) \<le> k" unfolding k_def by (simp add: le_floor_iff)
  then have k: "int (length hs) - 1 \<le> k" using len by (simp add: of_nat_diff)
  have n: "0 < int (length hs)" using len by simp
  have "max 0 (min k (int (length hs) - 1)) = int (length hs) - 1"
    and "max 0 (min (k + 1) (int (length hs) - 1)) = int (length hs) - 1"
    using k n by linarith+
  then show ?thesis
    by (simp add: ground_indices_def Let_def k_def)
qed

lemma getGroundHeightAt_Some: "\<exists>h. getGroundHeightAt hs x = Some h"
proof (cases "hs = []")
  case True
  then show ?thesis by (simp add: getGroundHeightAt_def)
next
  case False
  note b = ground_indices_bounds [OF False, of x]
  obtain i1 i2 where i: "ground_indices hs x = (i1, i2)" by (cases "ground_indices hs x")
  then show ?thesis using False b
    by (simp add: getGroundHeightAt_def Let_def terrain_read_def)
qed

text \<open>
  Claim C10. \<open>getGroundHeightAt\<close> returns a defined height for every real \<open>x\<close>:
  on a non-empty hs both sample indices lie in \<open>[0, length - 1]\<close> and both reads
  succeed; an empty hs gives the logical height 600; an \<open>x\<close> left of the first
  sample gives the first sample, an \<open>x\<close> at or right of the last sample gives the last.
\<close>

theorem getGroundHeightAt_total_in_bounds:
  "(\<exists>h. getGroundHeightAt hs x = Some h)
   \<and> (hs = [] \<longrightarrow> getGroundHeightAt hs x = Some 600)
   \<and> (hs \<noteq> [] \<longrightarrow>
        0 \<le> fst (ground_indices hs x)
        \<and> fst (ground_indices hs x) \<le> int (length hs) - 1
        \<and> 0 \<le> snd (ground_indices hs x)
        \<and> snd (ground_indices hs x) \<le> int (length hs) - 1
        \<and> terrain_read hs (fst (ground_indices hs x)) \<noteq> None
        \<and> terrain_read hs (snd (ground_indices hs x)) \<noteq> None)
   \<and> (hs \<noteq> [] \<and> x < 0 \<longrightarrow> getGroundHeightAt hs x = Some (hd hs))
   \<and> (hs \<noteq> [] \<and> 50 * real (length hs - 1) \<le> x \<longrightarrow>
        getGroundHeightAt hs x = Some (last hs))"
proof (cases "hs = []")
  case True
  then show ?thesis by (simp add: getGroundHeightAt_def LOGICAL_HEIGHT_def)
next
  case False
  note b = ground_indices_bounds [OF False, of x]
  obtain i1 i2 where i: "ground_indices hs x = (i1, i2)" by (cases "ground_indices hs x")
  have r1: "terrain_read hs i1 = Some (hs ! nat i1)"
    and r2: "terrain_read hs i2 = Some (hs ! nat i2)"
    using b i by (simp_all add: terrain_read_def)
  have total: "\<exists>h. getGroundHeightAt hs x = Some h"
    using False i r1 r2 by (simp add: getGroundHeightAt_def Let_def)
  have left: "getGroundHeightAt hs x = Some (hd hs)" if "x < 0"
  proof -
    have "ground_indices hs x = (0, 0)" using ground_indices_left [OF False that] .
    then show ?thesis using False
      by (simp add: getGroundHeightAt_def Let_def terrain_read_def hd_conv_nth)
  qed
  have right: "getGroundHeightAt hs x = Some (last hs)"
    if "50 * real (length hs - 1) \<le> x"
  proof -
    have g: "ground_indices hs x = (int (length hs) - 1, int (length hs) - 1)"
      using ground_indices_right [OF False that] .
    have "nat (int (length hs) - 1) = length hs - 1" by simp
    then show ?thesis using False g
      by (simp add: getGroundHeightAt_def Let_def terrain_read_def last_conv_nth)
  qed
  show ?thesis using False total b i r1 r2 left right by auto
qed

theorem getGroundHeightAt_total_in_bounds_witness:
  "getGroundHeightAt [] 120 = Some 600
   \<and> getGroundHeightAt [400, 420, 450] (-30) = Some 400
   \<and> getGroundHeightAt [400, 420, 450] 170 = Some 450
   \<and> getGroundHeightAt [400, 420, 450] 75 = Some 435"
proof -
  have a: "getGroundHeightAt [] 120 = Some 600"
    using getGroundHeightAt_total_in_bounds [of "[]" 120] by simp
  have b: "getGroundHeightAt [400, 420, 450] (-30) = Some 400"
    using getGroundHeightAt_total_in_bounds [of "[400, 420, 450]" "-30"] by simp
  have c: "getGroundHeightAt [400, 420, 450] 170 = Some 450"
    using getGroundHeightAt_total_in_bounds [of "[400, 420, 450]" 170] by simp
  have d: "getGroundHeightAt [400, 420, 450] 75 = Some 435"
    by (simp add: getGroundHeightAt_def ground_indices_def terrain_read_def js_rem_def
        js_trunc_def Let_def)
  show ?thesis using a b c d by simp
qed

section \<open>Properties of contact damage\<close>

lemma contact_damage_hit:
  assumes "checkCollision (player s) ent" and "archetype ent \<noteq> Some neutral"
    and "hitTimer (player s) \<le> 0"
  shows "health (player (contact_damage C ent s)) = health (player s) - 15"
    and "hitTimer (player (contact_damage C ent s)) = INVULNERABILITY_FRAMES (PHYSICS C)"
  using assms
  by (simp_all add: contact_damage_def Let_def addScreenshake_def spawnFloatingText_def)

lemma contact_damage_invulnerable:
  assumes "hitTimer (player s) > 0"
  shows "contact_damage C ent s = s"
  using assms by (simp add: contact_damage_def Let_def)

text \<open>
  Claim C9. A player at 100 health with hit timer 0 who overlaps a crawler drops to 85
  health and gets the hit timer \<open>INVULNERABILITY_FRAMES\<close>; a contact with any enemy while
  the hit timer is positive changes nothing, so with a positive invulnerability duration
  a second contact right after the first leaves the health at 85.
\<close>

theorem contact_hit_then_invulnerable:
  "(checkCollision (player s) ent \<and> archetype ent = Some crawler
      \<and> health (player s) = 100 \<and> hitTimer (player s) = 0 \<longrightarrow>
      health (player (contact_damage C ent s)) = 85
      \<and> hitTimer (player (contact_damage C ent s)) = INVULNERABILITY_FRAMES (PHYSICS C)
      \<and> (0 < INVULNERABILITY_FRAMES (PHYSICS C) \<longrightarrow>
           health (player (contact_damage C ent2 (contact_damage C ent s))) = 85))
   \<and> (0 < hitTimer (player s) \<longrightarrow>
        health (player (contact_damage C ent s)) = health (player s))"
proof -
  have second: "health (player (contact_damage C ent s)) = health (player s)"
    if "0 < hitTimer (player s)"
    using contact_damage_invulnerable [OF that] by simp
  have first: "health (player (contact_damage C ent s)) = 85
      \<and> hitTimer (player (contact_damage C ent s)) = INVULNERABILITY_FRAMES (PHYSICS C)
      \<and> (0 < INVULNERABILITY_FRAMES (PHYSICS C) \<longrightarrow>
           health (player (contact_damage C ent2 (contact_damage C ent s))) = 85)"
    if h: "checkCollision (player s) ent" "archetype ent = Some crawler"
      "health (player s) = 100" "hitTimer (player s) = 0"
  proof -
    have a: "archetype ent \<noteq> Some neutral" using h(2) by simp
    have b: "hitTimer (player s) \<le> 0" using h(4) by simp
    note hit = contact_damage_hit [OF h(1) a b, of C]
    have "health (player (contact_damage C ent2 (contact_damage C ent s))) = 85"
      if "0 < INVULNERABILITY_FRAMES (PHYSICS C)"
    proof -
      have "0 < hitTimer (player (contact_damage C ent s))" using hit(2) that by simp
      then have "contact_damage C ent2 (contact_damage C ent s) = contact_damage C ent s"
        by (rule contact_damage_invulnerable)
      then show ?thesis using hit(1) h(3) by simp
    qed
    then show ?thesis using hit h(3) by simp
  qed
  show ?thesis using first second by blast
qed

theorem contact_hit_then_invulnerable_witness:
  "health (player (sample_state 100 400)) = 100
   \<and> health (player (contact_damage sample_constants (sample_enemy crawler chase 110 400)
        (sample_state 100 400))) = 85
   \<and> hitTimer (player (contact_damage sample_constants (sample_enemy crawler chase 110 400)
        (sample_state 100 400))) = 60
   \<and> health (player (contact_damage sample_constants (sample_enemy crawler chase 90 400)
        (contact_damage sample_constants (sample_enemy crawler chase 110 400)
          (sample_state 100 400)))) = 85"
proof -
  let ?s = "sample_state 100 400" and ?e = "sample_enemy crawler chase 110 400"
  have h: "checkCollision (player ?s) ?e \<and> archetype ?e = Some crawler
      \<and> health (player ?s) = 100 \<and> hitTimer (player ?s) = 0"
    by (simp add: sample_state_def sample_enemy_def mission_start_def initial_player_def
        checkCollision_def sample_constants_def Let_def)
  have i: "0 < INVULNERABILITY_FRAMES (PHYSICS sample_constants)
      \<and> INVULNERABILITY_FRAMES (PHYSICS sample_constants) = 60"
    by (simp add: sample_constants_def sample_physics_def)
  show ?thesis
    using h i contact_hit_then_invulnerable
      [of ?s ?e sample_constants "sample_enemy crawler chase 90 400"]
    by simp
qed

section \<open>Properties of the weather controller\<close>

lemma weather_intensity_step_range:
  "0 \<le> weatherIntensity (weather_intensity_step dt s) \<and>
   weatherIntensity (weather_intensity_step dt s) \<le> 1"
  by (simp add: weather_intensity_step_def Let_def)

lemma weather_intensity_step_phase [simp]:
  "weatherState (weather_intensity_step dt s) = weatherState s"
  "currentWeather (weather_intensity_step dt s) = currentWeather s"
  by (simp_all add: weather_intensity_step_def Let_def)

lemma weather_transition_phase:
  assumes "weather_transition P r s = Some (s', r')"
  shows "weatherState s' = weatherState s \<or> weatherState s' = next_phase (weatherState s)"
  using assms
  by (auto simp: weather_transition_def Let_def queueMessage_def
      split: WeatherPhase.splits if_splits option.splits)

lemma updateWeather_range:
  assumes "updateWeather P dt r s = Some (s', r')"
  shows "0 \<le> weatherIntensity s' \<and> weatherIntensity s' \<le> 1"
  using assms weather_intensity_step_range
  by (auto simp: updateWeather_def Let_def split: option.splits if_splits)

lemma weather_reachable_calm:
  assumes "weather_reachable P s" and "weatherVolatility P \<le> 0"
  shows "weatherState s = phase_clear \<and> currentWeather s = clear"
  using assms
proof (induction rule: weather_reachable.induct)
  case (wr_start C mh mf)
  show ?case by (simp add: mission_start_def)
next
  case (wr_update s dt r s' r')
  then show ?case
    by (auto simp: updateWeather_def Let_def split: option.splits if_splits)
next
  case (wr_other s s')
  then show ?case by (simp add: same_weather_def)
qed

lemma updateWeather_transition:
  assumes "updateWeather P dt r s = Some (s', r')" and "weatherVolatility P > 0"
    and "weatherState s' \<noteq> weatherState s"
  shows "weatherTimer s - dt \<le> 0 \<and> weatherState s' = next_phase (weatherState s)"
proof (cases "weatherTimer s - dt \<le> 0")
  case True
  obtain s3 where t: "weather_transition P r
        (s\<lparr>timeOfDay := (if timeOfDay s + dt * 0.0001 > 1 then 0 else timeOfDay s + dt * 0.0001),
           weatherTimer := weatherTimer s - dt\<rparr>) = Some (s3, r')"
    and s': "s' = weather_intensity_step dt s3"
    using assms(1,2) True
    by (auto simp: updateWeather_def Let_def split: option.splits if_splits)
  from weather_transition_phase [OF t] s' assms(3) True show ?thesis by auto
next
  case False
  then have "weatherState s' = weatherState s"
    using assms(1,2)
    by (auto simp: updateWeather_def Let_def split: option.splits if_splits)
  then show ?thesis using assms(3) by simp
qed

lemma updateWeather_calm_no_transition:
  assumes "weather_reachable P s" and "weatherVolatility P \<le> 0"
    and "updateWeather P dt r s = Some (s', r')"
  shows "weatherState s' = weatherState s"
proof -
  have "weatherState s = phase_clear" using weather_reachable_calm [OF assms(1,2)] by simp
  moreover have "weatherState s' = phase_clear"
    using weather_reachable_calm [OF wr_update [OF assms(1,3)] assms(2)] by simp
  ultimately show ?thesis by simp
qed

text \<open>
  Claim C6. In every weather state of a mission, the weather update leaves the intensity
  within \<open>[0, 1]\<close>, and when it changes the phase, the phase timer less the time step is
  at most 0 and the new phase is the next one of the cycle clear, buildup, active, fading.
\<close>

theorem weather_intensity_bounded_and_timed_transitions:
  "weather_reachable P s \<and> updateWeather P dt r s = Some (s', r') \<longrightarrow>
     0 \<le> weatherIntensity s' \<and> weatherIntensity s' \<le> 1
     \<and> (weatherState s' \<noteq> weatherState s \<longrightarrow>
          weatherTimer s - dt \<le> 0 \<and> weatherState s' = next_phase (weatherState s))"
proof (intro impI, elim conjE)
  assume re: "weather_reachable P s" and up: "updateWeather P dt r s = Some (s', r')"
  have tr: "weatherTimer s - dt \<le> 0 \<and> weatherState s' = next_phase (weatherState s)"
    if ne: "weatherState s' \<noteq> weatherState s"
  proof (cases "weatherVolatility P > 0")
    case True
    then show ?thesis using updateWeather_transition [OF up True ne] by simp
  next
    case False
    then have "weatherVolatility P \<le> 0" by simp
    then show ?thesis using updateWeather_calm_no_transition [OF re _ up] ne by simp
  qed
  show "0 \<le> weatherIntensity s' \<and> weatherIntensity s' \<le> 1
     \<and> (weatherState s' \<noteq> weatherState s \<longrightarrow>
          weatherTimer s - dt \<le> 0 \<and> weatherState s' = next_phase (weatherState s))"
    using updateWeather_range [OF up] tr by blast
qed

theorem weather_intensity_bounded_and_timed_transitions_witness:
  "\<exists>s' r'. updateWeather fallback_planet 400 (\<lambda>n. 0) (mission_start sample_constants 100 100)
        = Some (s', r')
     \<and> weatherState s' = buildup \<and> currentWeather s' = acid_rain
     \<and> weatherIntensity s' = 0.8
     \<and> 0 \<le> weatherIntensity s' \<and> weatherIntensity s' \<le> 1
     \<and> weatherTimer (mission_start sample_constants 100 100) - 400 \<le> 0"
proof -
  let ?s = "mission_start sample_constants 100 100"
  have re: "weather_reachable fallback_planet ?s" by (rule wr_start)
  have "\<exists>s' r'. updateWeather fallback_planet 400 (\<lambda>n. 0) ?s = Some (s', r')
      \<and> weatherState s' = buildup \<and> currentWeather s' = acid_rain \<and> weatherIntensity s' = 0.8"
    by (simp add: updateWeather_def weather_transition_def mission_start_def
        fallback_planet_def Let_def array_read_def queueMessage_def
        weather_intensity_step_def)
  then obtain s' r' where up: "updateWeather fallback_planet 400 (\<lambda>n. 0) ?s = Some (s', r')"
    and st: "weatherState s' = buildup" "currentWeather s' = acid_rain"
      "weatherIntensity s' = 0.8"
    by blast
  have ne: "weatherState s' \<noteq> weatherState ?s" using st by (simp add: mission_start_def)
  from weather_intensity_bounded_and_timed_transitions
    [of fallback_planet ?s 400 "\<lambda>n. 0" s' r'] re up ne
  have "0 \<le> weatherIntensity s' \<and> weatherIntensity s' \<le> 1
      \<and> weatherTimer ?s - 400 \<le> 0"
    by simp
  then show ?thesis using up st by blast
qed

section \<open>Properties of the boss trigger\<close>

lemma queueMessage_fields [simp]:
  "coresCollected (queueMessage t s) = coresCollected s"
  "totalCoresNeeded (queueMessage t s) = totalCoresNeeded s"
  "bossActive (queueMessage t s) = bossActive s"
  "enemies (queueMessage t s) = enemies s"
  "player (queueMessage t s) = player s"
  by (simp_all add: queueMessage_def)

lemma spawnFloatingText_fields [simp]:
  "coresCollected (spawnFloatingText t s) = coresCollected s"
  "totalCoresNeeded (spawnFloatingText t s) = totalCoresNeeded s"
  "bossActive (spawnFloatingText t s) = bossActive s"
  "enemies (spawnFloatingText t s) = enemies s"
  "player (spawnFloatingText t s) = player s"
  by (simp_all add: spawnFloatingText_def)

lemma addScreenshake_fields [simp]:
  "coresCollected (addScreenshake a s) = coresCollected s"
  "totalCoresNeeded (addScreenshake a s) = totalCoresNeeded s"
  "bossActive (addScreenshake a s) = bossActive s"
  "enemies (addScreenshake a s) = enemies s"
  "player (addScreenshake a s) = player s"
  by (simp_all add: addScreenshake_def)

lemma spawnBoss_fields [simp]:
  "coresCollected (spawnBoss C s) = coresCollected s"
  "totalCoresNeeded (spawnBoss C s) = totalCoresNeeded s"
  "bossActive (spawnBoss C s) = True"
  by (simp_all add: spawnBoss_def Let_def)

lemma spawnBoss_enemies:
  "enemies (spawnBoss C s) =
     (if bossActive s then enemies s
      else enemies s @ [guardian_boss C (cx (pos (player s)) + 400) (cy (pos (player s)) - 200)])"
  by (simp add: spawnBoss_def Let_def)

lemma core_pickup_fields [simp]:
  "coresCollected (core_pickup C s) = coresCollected s + 1"
  "totalCoresNeeded (core_pickup C s) = totalCoresNeeded s"
  "bossActive (core_pickup C s) = (bossActive s \<or> coresCollected s + 1 \<ge> totalCoresNeeded s)"
  by (simp_all add: core_pickup_def Let_def)

lemma core_pickup_enemies:
  "enemies (core_pickup C s) =
     (if \<not> bossActive s \<and> coresCollected s + 1 \<ge> totalCoresNeeded s
      then enemies s @ [guardian_boss C (cx (pos (player s)) + 400) (cy (pos (player s)) - 200)]
      else enemies s)"
  by (simp add: core_pickup_def Let_def spawnBoss_enemies)


lemma loot_pickup_not_core:
  assumes "lootType item \<noteq> Some core"
  shows "coresCollected (loot_pickup C item s) = coresCollected s"
    and "totalCoresNeeded (loot_pickup C item s) = totalCoresNeeded s"
    and "bossActive (loot_pickup C item s) = bossActive s"
    and "enemies (loot_pickup C item s) = enemies s"
proof -
  consider (w) wt where "lootType item = Some weapon" "weaponType item = Some wt"
    | (h) "lootType item = Some health_l" "\<not> (lootType item = Some weapon \<and> weaponType item \<noteq> None)"
    | (n) "lootType item \<noteq> Some health_l" "\<not> (lootType item = Some weapon \<and> weaponType item \<noteq> None)"
    by (cases "weaponType item") auto
  then have "coresCollected (loot_pickup C item s) = coresCollected s
      \<and> totalCoresNeeded (loot_pickup C item s) = totalCoresNeeded s
      \<and> bossActive (loot_pickup C item s) = bossActive s
      \<and> enemies (loot_pickup C item s) = enemies s"
  proof cases
    case w
    then show ?thesis using assms by (simp add: loot_pickup_def)
  next
    case h
    then show ?thesis using assms by (simp add: loot_pickup_def)
  next
    case n
    then show ?thesis using assms by (simp add: loot_pickup_def)
  qed
  then show "coresCollected (loot_pickup C item s) = coresCollected s"
    and "totalCoresNeeded (loot_pickup C item s) = totalCoresNeeded s"
    and "bossActive (loot_pickup C item s) = bossActive s"
    and "enemies (loot_pickup C item s) = enemies s"
    by simp_all
qed

lemma loot_pickup_core: "lootType item = Some core \<Longrightarrow> loot_pickup C item s = core_pickup C s"
  by (simp add: loot_pickup_def)

lemma loot_pickup_step:
  assumes "boss_inv s"
  shows "boss_inv (loot_pickup C item s)"
    and "totalCoresNeeded (loot_pickup C item s) = totalCoresNeeded s"
    and "coresCollected s \<le> coresCollected (loot_pickup C item s)"
    and "bossActive s \<longrightarrow> bossActive (loot_pickup C item s)"
    and "guardians (loot_pickup C item s) - guardians s =
          (if bossActive (loot_pickup C item s) \<and> \<not> bossActive s then 1 else 0)"
proof -
  have "boss_inv (loot_pickup C item s)
      \<and> totalCoresNeeded (loot_pickup C item s) = totalCoresNeeded s
      \<and> coresCollected s \<le> coresCollected (loot_pickup C item s)
      \<and> (bossActive s \<longrightarrow> bossActive (loot_pickup C item s))
      \<and> guardians (loot_pickup C item s) - guardians s =
          (if bossActive (loot_pickup C item s) \<and> \<not> bossActive s then 1 else 0)"
  proof (cases "lootType item = Some core")
    case True
    have e: "loot_pickup C item s = core_pickup C s" using True by (rule loot_pickup_core)
    have g: "guardians (core_pickup C s) - guardians s =
          (if bossActive (core_pickup C s) \<and> \<not> bossActive s then 1 else 0)"
      by (simp add: guardians_def core_pickup_enemies guardian_boss_def)
    have i: "boss_inv (core_pickup C s)" using assms by (auto simp: boss_inv_def)
    show ?thesis unfolding e using g i by simp
  next
    case False
    note f = loot_pickup_not_core [OF False, of C s]
    show ?thesis using assms f by (simp add: boss_inv_def guardians_def)
  qed
  then show "boss_inv (loot_pickup C item s)"
    and "totalCoresNeeded (loot_pickup C item s) = totalCoresNeeded s"
    and "coresCollected s \<le> coresCollected (loot_pickup C item s)"
    and "bossActive s \<longrightarrow> bossActive (loot_pickup C item s)"
    and "guardians (loot_pickup C item s) - guardians s =
          (if bossActive (loot_pickup C item s) \<and> \<not> bossActive s then 1 else 0)"
    by simp_all
qed

lemma run_events_boss:
  assumes "\<forall>e \<in> set es. run_event_ok e" and "boss_inv s"
    and "run_events C es (s, n) = (s', n')"
  shows "boss_inv s' \<and> totalCoresNeeded s' = totalCoresNeeded s
     \<and> coresCollected s \<le> coresCollected s'
     \<and> (bossActive s \<longrightarrow> bossActive s')
     \<and> n' = n + (if bossActive s' \<and> \<not> bossActive s then 1 else 0)"
  using assms
proof (induction es arbitrary: s n)
  case Nil
  then show ?case by simp
next
  case (Cons e es)
  have ok: "\<forall>e \<in> set es. run_event_ok e" using Cons.prems(1) by simp
  show ?case
  proof (cases e)
    case (Pickup item)
    let ?s1 = "loot_pickup C item s"
    note st = loot_pickup_step [OF Cons.prems(2), of C item]
    have run: "run_events C es (?s1, n + (guardians ?s1 - guardians s)) = (s', n')"
      using Cons.prems(3) Pickup by simp
    note ih = Cons.IH [OF ok st(1) run]
    show ?thesis
    proof (cases "bossActive s")
      case True
      then show ?thesis using ih st by simp
    next
      case False
      show ?thesis
      proof (cases "bossActive ?s1")
        case True
        then show ?thesis using ih st False by simp
      next
        case b: False
        then show ?thesis using ih st False by simp
      qed
    qed
  next
    case (OtherChange f)
    have k: "keeps_boss_fields f" using Cons.prems(1) OtherChange by simp
    have inv1: "boss_inv (f s)"
      using Cons.prems(2) k by (simp add: boss_inv_def keeps_boss_fields_def)
    have run: "run_events C es (f s, n) = (s', n')" using Cons.prems(3) OtherChange by simp
    note ih = Cons.IH [OF ok inv1 run]
    show ?thesis using ih k by (simp add: keeps_boss_fields_def)
  qed
qed


text \<open>
  Claim C7. In a run that starts with the boss inactive and fewer cores collected than
  required, the pickups spawn one guardian if the collected cores have reached the
  required number and none otherwise, however many pickups and other changes follow; the
  core pickup that reaches the required number appends the guardian to the enemies, and a
  pickup while the boss is active adds no enemy.
\<close>

theorem boss_spawned_exactly_once:
  "((\<forall>e \<in> set es. run_event_ok e) \<and> \<not> bossActive s
      \<and> coresCollected s < totalCoresNeeded s \<and> run_events C es (s, 0) = (s', n) \<longrightarrow>
      n = (if coresCollected s' \<ge> totalCoresNeeded s' then 1 else 0))
   \<and> (\<not> bossActive s \<and> lootType item = Some core
        \<and> coresCollected s + 1 = totalCoresNeeded s \<longrightarrow>
        enemies (loot_pickup C item s) =
          enemies s @ [guardian_boss C (cx (pos (player s)) + 400) (cy (pos (player s)) - 200)]
        \<and> bossActive (loot_pickup C item s))
   \<and> (bossActive s \<longrightarrow>
        enemies (loot_pickup C item s) = enemies s \<and> bossActive (loot_pickup C item s))"
proof (intro conjI impI)
  assume a: "(\<forall>e \<in> set es. run_event_ok e) \<and> \<not> bossActive s
      \<and> coresCollected s < totalCoresNeeded s \<and> run_events C es (s, 0) = (s', n)"
  then have inv: "boss_inv s" by (simp add: boss_inv_def)
  from a have ok: "\<forall>e \<in> set es. run_event_ok e" and run: "run_events C es (s, 0) = (s', n)"
    by simp_all
  note r = run_events_boss [OF ok inv run]
  show "n = (if coresCollected s' \<ge> totalCoresNeeded s' then 1 else 0)"
    using r a by (auto simp: boss_inv_def)
next
  assume a: "\<not> bossActive s \<and> lootType item = Some core
      \<and> coresCollected s + 1 = totalCoresNeeded s"
  then have e: "loot_pickup C item s = core_pickup C s" by (simp add: loot_pickup_core)
  show "enemies (loot_pickup C item s) =
      enemies s @ [guardian_boss C (cx (pos (player s)) + 400) (cy (pos (player s)) - 200)]"
    unfolding e using a by (simp add: core_pickup_enemies)
  show "bossActive (loot_pickup C item s)" unfolding e using a by simp
next
  assume a: "bossActive s"
  show "enemies (loot_pickup C item s) = enemies s"
  proof (cases "lootType item = Some core")
    case True
    then show ?thesis using a by (simp add: loot_pickup_core core_pickup_enemies)
  next
    case False
    then show ?thesis by (rule loot_pickup_not_core)
  qed
  show "bossActive (loot_pickup C item s)"
  proof (cases "lootType item = Some core")
    case True
    then show ?thesis using a by (simp add: loot_pickup_core)
  next
    case False
    then show ?thesis using a by (simp add: loot_pickup_not_core)
  qed
qed

theorem boss_spawned_exactly_once_witness:
  "snd (run_events sample_constants
      [Pickup (sample_loot core 100 400), Pickup (sample_loot core 100 400),
       Pickup (sample_loot core 100 400), Pickup (sample_loot core 100 400),
       Pickup (sample_loot core 100 400), OtherChange (\<lambda>s. s\<lparr>enemies := []\<rparr>),
       Pickup (sample_loot core 100 400)]
      (sample_state 100 400, 0)) = 1"
proof -
  let ?c = "sample_loot core 100 400"
  let ?es = "[Pickup ?c, Pickup ?c, Pickup ?c, Pickup ?c, Pickup ?c,
       OtherChange (\<lambda>s. s\<lparr>enemies := []\<rparr>), Pickup ?c]"
  let ?s = "sample_state 100 400"
  let ?r = "run_events sample_constants ?es (?s, 0)"
  have c: "lootType ?c = Some core" by (simp add: sample_loot_def)
  have ok: "\<forall>e \<in> set ?es. run_event_ok e" by (simp add: keeps_boss_fields_def)
  have s0: "\<not> bossActive ?s \<and> coresCollected ?s < totalCoresNeeded ?s"
    by (simp add: sample_state_def mission_start_def Let_def)
  have cores: "coresCollected (fst ?r) = 6 \<and> totalCoresNeeded (fst ?r) = 5"
    using c by (simp add: loot_pickup_core sample_state_def mission_start_def Let_def)
  have "snd ?r = (if coresCollected (fst ?r) \<ge> totalCoresNeeded (fst ?r) then 1 else 0)"
    using boss_spawned_exactly_once [of ?es ?s sample_constants "fst ?r" "snd ?r"] ok s0
    by simp
  then show ?thesis using cores by simp
qed

section \<open>Properties of elite enemies\<close>

lemma spawn_entity_archetype:
  "archetype (fst (spawn_entity C P x g fa fr r)) =
     Some (case fa of Some a \<Rightarrow> a | None \<Rightarrow> rolled_archetype (r 0))"
  by (simp add: spawn_entity_def Let_def)

lemma floor_twice: "real_of_int \<lfloor>real_of_int k * 2\<rfloor> = 2 * real_of_int k"
proof -
  have "real_of_int k * 2 = real_of_int (k * 2)" by simp
  then have "\<lfloor>real_of_int k * 2\<rfloor> = k * 2" by (metis floor_of_int)
  then show ?thesis by simp
qed

lemma spawn_entity_health:
  assumes "archetype (fst (spawn_entity C P x g fa fr r)) = Some a"
  shows "a \<noteq> sandworm \<and> rarity (fst (spawn_entity C P x g fa fr r)) = Some common \<longrightarrow>
           health (fst (spawn_entity C P x g fa fr r)) = base_health C P a"
    and "a \<noteq> sandworm \<and> rarity (fst (spawn_entity C P x g fa fr r)) = Some elite \<longrightarrow>
           health (fst (spawn_entity C P x g fa fr r)) = 2 * base_health C P a"
    and "a = sandworm \<longrightarrow> rarity (fst (spawn_entity C P x g fa fr r)) = Some elite
           \<and> (health (fst (spawn_entity C P x g fa fr r)) =
                 real_of_int \<lfloor>base_health C P a * 1.5\<rfloor>
              \<or> health (fst (spawn_entity C P x g fa fr r)) =
                 real_of_int \<lfloor>2 * base_health C P a * 1.5\<rfloor>)"
  using assms
  by (auto simp: spawn_entity_def Let_def base_health_def floor_twice
      split: option.splits if_splits)

lemma death_score_elite:
  assumes "archetype e1 = archetype e2" and "rarity e1 = Some elite" and "rarity e2 = Some common"
  shows "death_score C e1 = 2 * death_score C e2"
  using assms by (simp add: death_score_def Let_def)

lemma core_guard_health:
  "health (core_guard C a x g) = 2 * js_or (Some (st_hp (ENEMY_STATS C a))) 30"
  by (simp add: core_guard_def Let_def)

text \<open>
  A core guard has twice the table's hit points, with no density scaling: whenever the
  density adds at least one hit point to a common enemy, the elite guard has less than
  twice the common enemy's health.
\<close>

lemma core_guard_below_twice_common:
  assumes "a = sentinel \<or> a = dasher" and "st_hp (ENEMY_STATS C a) \<noteq> 0"
    and "st_hp (ENEMY_STATS C a) + 1 \<le> st_hp (ENEMY_STATS C a) * (1 + enemyDensity P * 0.05)"
  shows "health (core_guard C a x g) < 2 * base_health C P a"
proof -
  define hp where "hp = st_hp (ENEMY_STATS C a)"
  define v where "v = hp * (1 + enemyDensity P * 0.05)"
  have row: "spawn_row a = a" using assms(1) by (auto simp: spawn_row_def)
  have "v - 1 < real_of_int \<lfloor>v\<rfloor>" by linarith
  moreover have "hp + 1 \<le> v" using assms(3) by (simp add: v_def hp_def)
  ultimately have "hp < real_of_int \<lfloor>v\<rfloor>" by linarith
  moreover have "base_health C P a = real_of_int \<lfloor>v\<rfloor>"
    by (simp add: base_health_def row v_def hp_def)
  moreover have "health (core_guard C a x g) = 2 * hp"
    using assms(2) by (simp add: core_guard_health js_or_def hp_def)
  ultimately show ?thesis by simp
qed

text \<open>
  Claim C5, as stated, fails for a core guard: on the fallback planet (density 5) with
  30 hit points for a sentinel, the elite guard has 60 health and a common sentinel 37.
\<close>

theorem elite_core_guard_counterexample:
  "rarity (core_guard sample_constants sentinel 1000 450) = Some elite
   \<and> archetype (core_guard sample_constants sentinel 1000 450) = Some sentinel
   \<and> rarity (fst (spawn_entity sample_constants fallback_planet 1000 450
        (Some sentinel) (Some common) (\<lambda>n. 0))) = Some common
   \<and> archetype (fst (spawn_entity sample_constants fallback_planet 1000 450
        (Some sentinel) (Some common) (\<lambda>n. 0))) = Some sentinel
   \<and> health (core_guard sample_constants sentinel 1000 450) = 60
   \<and> health (fst (spawn_entity sample_constants fallback_planet 1000 450
        (Some sentinel) (Some common) (\<lambda>n. 0))) = 37
   \<and> \<not> (health (core_guard sample_constants sentinel 1000 450)
          \<ge> 2 * health (fst (spawn_entity sample_constants fallback_planet 1000 450
                (Some sentinel) (Some common) (\<lambda>n. 0))))"
  by (simp add: core_guard_def spawn_entity_def Let_def sample_constants_def sample_stats_def
      fallback_planet_def spawn_row_def js_or_def)

text \<open>
  Claim C5, amended. Of two enemies built by \<open>spawnEnemy\<close> for the same archetype on the same
  planet, an elite one has exactly twice the health of a common one; any elite enemy
  awards exactly twice the score of a common enemy of its archetype; a sandworm is
  always elite, with one and a half times the density-scaled hit points, or three times
  when it was also forced or rolled elite.
\<close>

theorem elite_spawn_doubles_health_and_score:
  "(e1 = fst (spawn_entity C P x1 g1 fa1 fr1 r1) \<and> e2 = fst (spawn_entity C P x2 g2 fa2 fr2 r2)
      \<and> archetype e1 = archetype e2 \<and> rarity e1 = Some elite \<and> rarity e2 = Some common \<longrightarrow>
      health e1 = 2 * health e2)
   \<and> (archetype e3 = archetype e4 \<and> rarity e3 = Some elite \<and> rarity e4 = Some common \<longrightarrow>
        death_score C e3 = 2 * death_score C e4)
   \<and> (e5 = fst (spawn_entity C P x5 g5 fa5 fr5 r5) \<and> archetype e5 = Some sandworm \<longrightarrow>
        rarity e5 = Some elite
        \<and> (health e5 = real_of_int \<lfloor>base_health C P sandworm * 1.5\<rfloor>
           \<or> health e5 = 3 * base_health C P sandworm))"
proof (intro conjI impI)
  assume a: "e1 = fst (spawn_entity C P x1 g1 fa1 fr1 r1) \<and> e2 = fst (spawn_entity C P x2 g2 fa2 fr2 r2)
      \<and> archetype e1 = archetype e2 \<and> rarity e1 = Some elite \<and> rarity e2 = Some common"
  from a have e1: "e1 = fst (spawn_entity C P x1 g1 fa1 fr1 r1)"
    and e2: "e2 = fst (spawn_entity C P x2 g2 fa2 fr2 r2)"
    and ar: "archetype e1 = archetype e2"
    and q1: "rarity e1 = Some elite" and q2: "rarity e2 = Some common"
    by blast+
  obtain k where k: "archetype e2 = Some k" unfolding e2 by (simp add: spawn_entity_archetype)
  have k1: "archetype (fst (spawn_entity C P x1 g1 fa1 fr1 r1)) = Some k"
    using ar k unfolding e1 by simp
  have k2: "archetype (fst (spawn_entity C P x2 g2 fa2 fr2 r2)) = Some k"
    using k unfolding e2 by simp
  have ns: "k \<noteq> sandworm" using spawn_entity_health(3) [OF k2] q2 unfolding e2 by auto
  have "health e1 = 2 * base_health C P k"
    using spawn_entity_health(2) [OF k1] q1 ns unfolding e1 by simp
  moreover have "health e2 = base_health C P k"
    using spawn_entity_health(1) [OF k2] q2 ns unfolding e2 by simp
  ultimately show "health e1 = 2 * health e2" by simp
next
  assume "archetype e3 = archetype e4 \<and> rarity e3 = Some elite \<and> rarity e4 = Some common"
  then show "death_score C e3 = 2 * death_score C e4" by (simp add: death_score_elite)
next
  assume a: "e5 = fst (spawn_entity C P x5 g5 fa5 fr5 r5) \<and> archetype e5 = Some sandworm"
  then have e5: "e5 = fst (spawn_entity C P x5 g5 fa5 fr5 r5)" by blast
  have k: "archetype (fst (spawn_entity C P x5 g5 fa5 fr5 r5)) = Some sandworm"
    using a unfolding e5 by simp
  show "rarity e5 = Some elite" using spawn_entity_health(3) [OF k] unfolding e5 by simp
  have three: "real_of_int \<lfloor>2 * base_health C P sandworm * 1.5\<rfloor> = 3 * base_health C P sandworm"
  proof -
    obtain m where m: "base_health C P sandworm = real_of_int m" by (simp add: base_health_def)
    have "2 * real_of_int m * 1.5 = real_of_int (3 * m)" by simp
    then have "\<lfloor>2 * real_of_int m * 1.5\<rfloor> = 3 * m" by (metis floor_of_int)
    then show ?thesis using m by simp
  qed
  show "health e5 = real_of_int \<lfloor>base_health C P sandworm * 1.5\<rfloor>
      \<or> health e5 = 3 * base_health C P sandworm"
    using spawn_entity_health(3) [OF k] three unfolding e5 by auto
qed

theorem elite_spawn_doubles_health_and_score_witness:
  "health (fst (spawn_entity sample_constants fallback_planet 900 450
        (Some sentinel) (Some elite) (\<lambda>n. 0))) = 74
   \<and> health (fst (spawn_entity sample_constants fallback_planet 900 450
        (Some sentinel) (Some common) (\<lambda>n. 0))) = 37
   \<and> death_score sample_constants (core_guard sample_constants dasher 900 450) = 300
   \<and> death_score sample_constants (fst (spawn_entity sample_constants fallback_planet 900 450
        (Some dasher) (Some common) (\<lambda>n. 0))) = 150
   \<and> rarity (fst (spawn_entity sample_constants fallback_planet 900 450
        (Some sandworm) (Some common) (\<lambda>n. 0))) = Some elite"
proof -
  let ?el = "fst (spawn_entity sample_constants fallback_planet 900 450
        (Some sentinel) (Some elite) (\<lambda>n. 0))"
  let ?co = "fst (spawn_entity sample_constants fallback_planet 900 450
        (Some sentinel) (Some common) (\<lambda>n. 0))"
  let ?g = "core_guard sample_constants dasher 900 450"
  let ?d = "fst (spawn_entity sample_constants fallback_planet 900 450
        (Some dasher) (Some common) (\<lambda>n. 0))"
  let ?w = "fst (spawn_entity sample_constants fallback_planet 900 450
        (Some sandworm) (Some common) (\<lambda>n. 0))"
  have h1: "archetype ?el = archetype ?co \<and> rarity ?el = Some elite \<and> rarity ?co = Some common"
    by (simp add: spawn_entity_def Let_def)
  have h2: "archetype ?g = archetype ?d \<and> rarity ?g = Some elite \<and> rarity ?d = Some common"
    by (simp add: spawn_entity_def core_guard_def Let_def)
  have h3: "archetype ?w = Some sandworm" by (simp add: spawn_entity_def Let_def)
  have co: "health ?co = 37"
    by (simp add: spawn_entity_def Let_def sample_constants_def sample_stats_def
        fallback_planet_def spawn_row_def)
  have d: "death_score sample_constants ?d = 150"
    by (simp add: spawn_entity_def Let_def death_score_def sample_constants_def
        sample_stats_def js_or_def)
  note t = elite_spawn_doubles_health_and_score
    [of ?el sample_constants fallback_planet 900 450 "Some sentinel" "Some elite" "\<lambda>n. 0"
        ?co 900 450 "Some sentinel" "Some common" "\<lambda>n. 0" ?g ?d
        ?w 900 450 "Some sandworm" "Some common" "\<lambda>n. 0"]
  show ?thesis using t h1 h2 h3 co d by simp
qed

section \<open>Properties of the shielder\<close>














section \<open>Properties of map generation\<close>

lemma unit_drawsD: "unit_draws r \<Longrightarrow> 0 \<le> r n \<and> r n < 1"
  by (simp add: unit_draws_def)

lemma unit_draws_next: "unit_draws r \<Longrightarrow> unit_draws (rng_next r)"
  by (simp add: unit_draws_def rng_next_def)

lemma height_delta_bound:
  assumes "unit_draws r"
  shows "\<bar>fst (height_delta (Some st) i r)\<bar> \<le> max_delta st"
proof (cases st)
  case dunes
  define a b where "a = sin (real i * 0.1)" and "b = cos (real i * 0.05)"
  have "\<bar>a\<bar> \<le> 1" and "\<bar>b\<bar> \<le> 1" unfolding a_def b_def by simp_all
  then have "\<bar>a * 5 + b * 2\<bar> \<le> 7" by arith
  then have "\<bar>sin (real i * 0.1) * 5 + cos (real i * 0.05) * 2\<bar> \<le> 7"
    unfolding a_def b_def .
  then show ?thesis using dunes by (simp add: height_delta_def)
next
  case crags
  then show ?thesis using unit_drawsD [OF assms, of 0]
    by (simp add: height_delta_def abs_if)
next
  case spire
  then show ?thesis using unit_drawsD [OF assms, of 0]
    by (simp add: height_delta_def abs_if)
next
  case plateau
  have "0 \<le> r 0 * 3" "r 0 * 3 < 3" using unit_drawsD [OF assms, of 0] by simp_all
  then have "0 \<le> \<lfloor>r 0 * 3\<rfloor>" "\<lfloor>r 0 * 3\<rfloor> \<le> 2" by (simp_all add: floor_le_iff le_floor_iff)
  then have "\<bar>(real_of_int \<lfloor>r 0 * 3\<rfloor> - 1) * 40\<bar> \<le> 40" by (simp add: abs_if)
  then show ?thesis using plateau by (simp add: height_delta_def)
qed

lemma height_delta_None: "fst (height_delta None i r) = 0"
  by (simp add: height_delta_def)

lemma height_delta_draws: "unit_draws r \<Longrightarrow> unit_draws (snd (height_delta style i r))"
  by (auto simp: height_delta_def unit_draws_next split: option.splits BiomeStyle.splits)

lemma clamp_height_range: "100 \<le> clamp_height h \<and> clamp_height h \<le> 550"
  by (simp add: clamp_height_def LOGICAL_HEIGHT_def Let_def)

lemma clamp_height_near:
  assumes "100 \<le> h0" and "h0 \<le> 550"
  shows "\<bar>clamp_height (h0 + d) - h0\<bar> \<le> \<bar>d\<bar> + 2"
  using assms by (simp add: clamp_height_def LOGICAL_HEIGHT_def Let_def abs_if)

lemma hazard_roll_height:
  assumes "100 \<le> h" and "h \<le> 550"
  shows "h \<le> fst (hazard_roll P style i h r) \<and> fst (hazard_roll P style i h r) \<le> h + 40
     \<and> fst (hazard_roll P style i h r) \<le> 550"
  using assms
  by (simp add: hazard_roll_def LOGICAL_HEIGHT_def Let_def split_def)


lemma gen_segment_style:
  "g_style (fst (gen_segment P i (g, r))) =
     (if i mod chunkLength = 0 then pick_style P r else g_style g)"
  by (simp add: gen_segment_def Let_def split_def)

lemma gen_segment_height_eq:
  "g_height (fst (gen_segment P i (g, r))) =
     (let sty = g_style (fst (gen_segment P i (g, r)));
          r1 = (if i mod chunkLength = 0 then rng_next r else r)
      in fst (hazard_roll P sty i (clamp_height (g_height g + fst (height_delta sty i r1)))
                (snd (height_delta sty i r1))))"
  by (simp add: gen_segment_def Let_def split_def)

lemma gen_segment_terrain:
  "g_terrain (fst (gen_segment P i (g, r))) = g_terrain g @ [g_height (fst (gen_segment P i (g, r)))]"
  by (simp add: gen_segment_def Let_def split_def)

lemma height_delta_bound_opt:
  assumes "unit_draws r"
  shows "\<bar>fst (height_delta sty i r)\<bar> \<le> style_delta sty"
  using height_delta_bound [OF assms] height_delta_None
  by (cases sty) (simp_all add: style_delta_def)

lemma hazard_roll_outside:
  assumes "i \<le> 10 \<or> segments - 10 \<le> i"
  shows "fst (hazard_roll P style i h r) = h"
  using assms by (auto simp: hazard_roll_def)

lemma gen_segment_height:
  assumes "unit_draws r" and "100 \<le> g_height g" and "g_height g \<le> 550"
  shows "\<bar>g_height (fst (gen_segment P i (g, r))) - g_height g\<bar>
           \<le> style_delta (g_style (fst (gen_segment P i (g, r)))) + 42"
    and "i \<le> 10 \<or> segments - 10 \<le> i \<Longrightarrow>
         \<bar>g_height (fst (gen_segment P i (g, r))) - g_height g\<bar>
           \<le> style_delta (g_style (fst (gen_segment P i (g, r)))) + 2"
    and "100 \<le> g_height (fst (gen_segment P i (g, r)))"
    and "g_height (fst (gen_segment P i (g, r))) \<le> 550"
proof -
  define sty where "sty = g_style (fst (gen_segment P i (g, r)))"
  define r1 where "r1 = (if i mod chunkLength = 0 then rng_next r else r)"
  define d where "d = fst (height_delta sty i r1)"
  define h1 where "h1 = clamp_height (g_height g + d)"
  define h2 where "h2 = fst (hazard_roll P sty i h1 (snd (height_delta sty i r1)))"
  have eq: "g_height (fst (gen_segment P i (g, r))) = h2"
    unfolding h2_def h1_def d_def r1_def sty_def by (simp add: gen_segment_height_eq Let_def)
  have u1: "unit_draws r1" using assms(1) by (simp add: r1_def unit_draws_next)
  have db: "\<bar>d\<bar> \<le> style_delta sty" unfolding d_def by (rule height_delta_bound_opt [OF u1])
  have c1: "100 \<le> h1 \<and> h1 \<le> 550" unfolding h1_def by (rule clamp_height_range)
  have c2: "\<bar>h1 - g_height g\<bar> \<le> \<bar>d\<bar> + 2"
    unfolding h1_def by (rule clamp_height_near [OF assms(2,3)])
  have hr: "h1 \<le> h2 \<and> h2 \<le> h1 + 40 \<and> h2 \<le> 550"
    unfolding h2_def using hazard_roll_height c1 by blast
  show "\<bar>g_height (fst (gen_segment P i (g, r))) - g_height g\<bar>
           \<le> style_delta (g_style (fst (gen_segment P i (g, r)))) + 42"
    unfolding eq sty_def [symmetric] using db c2 hr by linarith
  show "100 \<le> g_height (fst (gen_segment P i (g, r)))" unfolding eq using c1 hr by linarith
  show "g_height (fst (gen_segment P i (g, r))) \<le> 550" unfolding eq using hr by linarith
  show "\<bar>g_height (fst (gen_segment P i (g, r))) - g_height g\<bar>
           \<le> style_delta (g_style (fst (gen_segment P i (g, r)))) + 2"
    if "i \<le> 10 \<or> segments - 10 \<le> i"
  proof -
    have "h2 = h1" unfolding h2_def by (rule hazard_roll_outside [OF that])
    then show ?thesis unfolding eq sty_def [symmetric] using db c2 by linarith
  qed
qed


lemma max_step_snoc:
  "max_step (hs @ [h]) bd \<longleftrightarrow> max_step hs bd \<and> (hs \<noteq> [] \<longrightarrow> \<bar>h - last hs\<bar> \<le> bd)"
  by (induction hs bd rule: max_step.induct) auto

lemma max_step_nth:
  "max_step hs bd \<Longrightarrow> Suc k < length hs \<Longrightarrow> \<bar>hs ! Suc k - hs ! k\<bar> \<le> bd"
proof (induction hs bd arbitrary: k rule: max_step.induct)
  case (1 a b rest bd)
  then show ?case by (cases k) auto
qed auto

lemma hazard_kind_draws: "unit_draws r \<Longrightarrow> unit_draws (snd (hazard_kind P style r))"
  by (auto simp: hazard_kind_def Let_def split_def unit_draws_next
      split: option.splits BiomeStyle.splits)

lemma hazard_roll_draws: "unit_draws r \<Longrightarrow> unit_draws (snd (snd (hazard_roll P style i h r)))"
  by (simp add: hazard_roll_def Let_def split_def unit_draws_next hazard_kind_draws)

lemma extra_hazards_draws: "unit_draws r \<Longrightarrow> unit_draws (snd (extra_hazards P style i b r))"
  by (simp add: extra_hazards_def Let_def unit_draws_next)

lemma decoration_roll_draws: "unit_draws r \<Longrightarrow> unit_draws (snd (decoration_roll style i h b r))"
  by (auto simp: decoration_roll_def Let_def split_def unit_draws_next
      split: option.splits BiomeStyle.splits)

lemma vegetation_roll_draws: "unit_draws r \<Longrightarrow> unit_draws (snd (vegetation_roll P style i b r))"
  by (simp add: vegetation_roll_def Let_def split_def unit_draws_next)

lemma gen_segment_draws:
  assumes "unit_draws r"
  shows "unit_draws (snd (gen_segment P i (g, r)))"
proof -
  have r1: "unit_draws (if i mod chunkLength = 0 then rng_next r else r)"
    using assms by (simp add: unit_draws_next)
  show ?thesis
    unfolding gen_segment_def Let_def split_def snd_conv fst_conv
    by (intro vegetation_roll_draws decoration_roll_draws extra_hazards_draws
        hazard_roll_draws height_delta_draws r1)
qed

lemma pick_style_allowed:
  "pick_style P r = Some st \<Longrightarrow> st \<in> set (allowedBiomes P)"
proof -
  assume a: "pick_style P r = Some st"
  define k where "k = \<lfloor>r 0 * real (length (allowedBiomes P))\<rfloor>"
  have "0 \<le> k \<and> k < int (length (allowedBiomes P)) \<and> st = allowedBiomes P ! nat k"
    using a unfolding pick_style_def array_read_def k_def [symmetric]
    by (auto split: if_splits)
  then have "nat k < length (allowedBiomes P)" and "st = allowedBiomes P ! nat k" by auto
  then show ?thesis by simp
qed

lemma gen_segment_style_delta:
  assumes "\<forall>st \<in> set (allowedBiomes P). max_delta st \<le> D" and "0 \<le> D"
    and "style_delta (g_style g) \<le> D"
  shows "style_delta (g_style (fst (gen_segment P i (g, r)))) \<le> D"
proof (cases "i mod chunkLength = 0")
  case True
  then have e: "g_style (fst (gen_segment P i (g, r))) = pick_style P r"
    by (simp add: gen_segment_style)
  show ?thesis
  proof (cases "pick_style P r")
    case None
    then show ?thesis using e assms(2) by (simp add: style_delta_def)
  next
    case (Some st)
    then show ?thesis using e assms(1) pick_style_allowed [OF Some] by (simp add: style_delta_def)
  qed
next
  case False
  then show ?thesis using assms(3) by (simp add: gen_segment_style)
qed

lemma gen_loop_steps:
  assumes "unit_draws r" and "100 \<le> g_height g" and "g_height g \<le> 550"
    and "g_terrain g \<noteq> [] \<longrightarrow> last (g_terrain g) = g_height g"
    and "\<forall>st \<in> set (allowedBiomes P). max_delta st \<le> D" and "0 \<le> D"
    and "style_delta (g_style g) \<le> D"
    and "max_step (g_terrain g) (D + 42)"
  shows "max_step (g_terrain (fst (gen_loop P i n (g, r)))) (D + 42)
     \<and> length (g_terrain (fst (gen_loop P i n (g, r)))) = length (g_terrain g) + n"
  using assms
proof (induction n arbitrary: i g r)
  case 0
  then show ?case by simp
next
  case (Suc n)
  obtain g' r' where seg: "gen_segment P i (g, r) = (g', r')" by (cases "gen_segment P i (g, r)")
  have g': "g' = fst (gen_segment P i (g, r))" and r': "r' = snd (gen_segment P i (g, r))"
    using seg by simp_all
  have h1: "\<bar>g_height g' - g_height g\<bar> \<le> style_delta (g_style g') + 42"
    unfolding g' by (rule gen_segment_height(1) [OF Suc.prems(1,2,3)])
  have b1: "100 \<le> g_height g'"
    unfolding g' by (rule gen_segment_height(3) [OF Suc.prems(1,2,3)])
  have b2: "g_height g' \<le> 550"
    unfolding g' by (rule gen_segment_height(4) [OF Suc.prems(1,2,3)])
  have sd: "style_delta (g_style g') \<le> D"
    unfolding g' by (rule gen_segment_style_delta [OF Suc.prems(5,6,7)])
  have t: "g_terrain g' = g_terrain g @ [g_height g']" unfolding g' by (rule gen_segment_terrain)
  have step: "\<bar>g_height g' - g_height g\<bar> \<le> D + 42" using h1 sd by linarith
  have ms: "max_step (g_terrain g') (D + 42)"
    unfolding t max_step_snoc using Suc.prems(8,4) step by auto
  have u: "unit_draws r'" unfolding r' by (rule gen_segment_draws [OF Suc.prems(1)])
  have l: "g_terrain g' \<noteq> [] \<longrightarrow> last (g_terrain g') = g_height g'" unfolding t by simp
  note ih = Suc.IH [OF u b1 b2 l Suc.prems(5,6) sd ms, of "Suc i"]
  show ?case using ih seg t by simp
qed


lemma extends_refl: "extends g g"
  by (simp add: extends_def)

lemma extends_trans: "extends g g' \<Longrightarrow> extends g' g'' \<Longrightarrow> extends g g''"
  by (auto simp: extends_def)

lemma gen_segment_extends: "extends (fst gr) (fst (gen_segment P i gr))"
  by (simp add: extends_def gen_segment_def Let_def split_def)

lemma gen_loop_extends: "extends (fst gr) (fst (gen_loop P i n gr))"
proof (induction n arbitrary: i gr)
  case 0
  show ?case by (simp add: extends_refl)
next
  case (Suc n)
  show ?case using extends_trans [OF gen_segment_extends Suc.IH] by simp
qed

lemma gen_loop_add: "gen_loop P i (n + m) gr = gen_loop P (i + n) m (gen_loop P i n gr)"
  by (induction n arbitrary: i gr) simp_all

lemma generate_map_extends:
  assumes "n \<le> segments"
  shows "extends (fst (gen_loop P 0 n (gen_start P, r))) (fst (generate_map P r))"
proof -
  have "segments = n + (segments - n)" using assms by simp
  then have "generate_map P r = gen_loop P (0 + n) (segments - n) (gen_loop P 0 n (gen_start P, r))"
    unfolding generate_map_def by (metis gen_loop_add)
  then show ?thesis using gen_loop_extends by simp
qed

lemma gen_loop_Suc: "gen_loop P i (Suc n) gr = gen_segment P (i + n) (gen_loop P i n gr)"
  using gen_loop_add [of P i n 1 gr] by simp

lemma gen_loop_length:
  "length (g_terrain (fst (gen_loop P i n gr))) = length (g_terrain (fst gr)) + n"
proof (induction n)
  case 0
  show ?case by simp
next
  case (Suc n)
  obtain g r where e: "gen_loop P i n gr = (g, r)" by (cases "gen_loop P i n gr")
  show ?case using Suc unfolding gen_loop_Suc e by (simp add: gen_segment_terrain)
qed

text \<open>The sample \<open>k\<close> of the map is the running height after segment \<open>k\<close>.\<close>

lemma generate_map_nth:
  assumes "k < segments"
  shows "g_terrain (fst (generate_map P r)) ! k
           = g_height (fst (gen_loop P 0 (Suc k) (gen_start P, r)))"
proof -
  obtain g r' where e: "gen_loop P 0 k (gen_start P, r) = (g, r')"
    by (cases "gen_loop P 0 k (gen_start P, r)")
  have l: "length (g_terrain g) = k"
    using gen_loop_length [of P 0 k "(gen_start P, r)"] e by (simp add: gen_start_def)
  have t: "g_terrain (fst (gen_loop P 0 (Suc k) (gen_start P, r)))
      = g_terrain g @ [g_height (fst (gen_loop P 0 (Suc k) (gen_start P, r)))]"
    unfolding gen_loop_Suc e by (simp add: gen_segment_terrain)
  have "Suc k \<le> segments" using assms by simp
  from generate_map_extends [OF this, of P r]
  obtain a where "g_terrain (fst (generate_map P r))
      = g_terrain (fst (gen_loop P 0 (Suc k) (gen_start P, r))) @ a"
    by (auto simp: extends_def)
  then show ?thesis using t l by (simp add: nth_append)
qed


text \<open>A stream whose draws are all the same number is left unchanged by every draw.\<close>

lemma rng_next_const [simp]: "rng_next (\<lambda>n. c) = (\<lambda>n. c)"
  by (simp add: rng_next_def)

lemma height_delta_const: "snd (height_delta style i (\<lambda>n. c)) = (\<lambda>n. c)"
  by (simp add: height_delta_def split: option.splits BiomeStyle.splits)

lemma hazard_kind_const: "snd (hazard_kind P style (\<lambda>n. c)) = (\<lambda>n. c)"
  by (simp add: hazard_kind_def Let_def split_def split: option.splits BiomeStyle.splits)

lemma hazard_roll_const: "snd (snd (hazard_roll P style i h (\<lambda>n. c))) = (\<lambda>n. c)"
  by (simp add: hazard_roll_def Let_def split_def hazard_kind_const)

lemma extra_hazards_const: "snd (extra_hazards P style i b (\<lambda>n. c)) = (\<lambda>n. c)"
  by (simp add: extra_hazards_def Let_def)

lemma decoration_roll_const: "snd (decoration_roll style i h b (\<lambda>n. c)) = (\<lambda>n. c)"
  by (simp add: decoration_roll_def Let_def split_def split: option.splits BiomeStyle.splits)

lemma vegetation_roll_const: "snd (vegetation_roll P style i b (\<lambda>n. c)) = (\<lambda>n. c)"
  by (simp add: vegetation_roll_def Let_def split_def)

lemma gen_segment_const: "snd (gen_segment P i (g, \<lambda>n. c)) = (\<lambda>n. c)"
  by (simp add: gen_segment_def Let_def split_def height_delta_const hazard_roll_const
      extra_hazards_const decoration_roll_const vegetation_roll_const)

lemma gen_loop_const: "snd (gen_loop P i n (g, \<lambda>n. c)) = (\<lambda>n. c)"
proof (induction n arbitrary: i g)
  case 0
  show ?case by simp
next
  case (Suc n)
  obtain g' where "gen_segment P i (g, \<lambda>n. c) = (g', \<lambda>n. c)"
    using gen_segment_const [of P i g c] by (cases "gen_segment P i (g, \<lambda>n. c)") simp
  then show ?case using Suc by simp
qed

text \<open>
  The fallback planet with every draw 0: each of the first eleven segments goes down by
  7.5, and segment 11 takes the hazard raise.
\<close>

lemma fallback_zero_descent:
  assumes "k \<le> 11"
  shows "g_height (fst (gen_loop fallback_planet 0 k (gen_start fallback_planet, \<lambda>n. 0)))
           = 450 - 7.5 * real k
     \<and> g_style (fst (gen_loop fallback_planet 0 k (gen_start fallback_planet, \<lambda>n. 0)))
           = Some crags"
  using assms
proof (induction k)
  case 0
  show ?case by (simp add: gen_start_def fallback_planet_def array_read_def LOGICAL_HEIGHT_def)
next
  case (Suc k)
  obtain g where e: "gen_loop fallback_planet 0 k (gen_start fallback_planet, \<lambda>n. 0) = (g, \<lambda>n. 0)"
    using gen_loop_const [of fallback_planet 0 k "gen_start fallback_planet" 0]
    by (cases "gen_loop fallback_planet 0 k (gen_start fallback_planet, \<lambda>n. 0)") simp
  have h: "g_height g = 450 - 7.5 * real k" and st: "g_style g = Some crags"
    using Suc e by simp_all
  have k: "k \<le> 10" using Suc.prems by simp
  have sty: "g_style (fst (gen_segment fallback_planet k (g, \<lambda>n. 0))) = Some crags"
    using st by (simp add: gen_segment_style pick_style_def array_read_def fallback_planet_def)
  have d: "height_delta (Some crags) k (\<lambda>n. 0) = (- 7.5, \<lambda>n. 0)"
    by (simp add: height_delta_def)
  have r: "real k \<le> 10" using k by simp
  define h0 where "h0 = 450 - 7.5 * real k"
  have h0: "157.5 \<le> h0 - 7.5" "h0 - 7.5 \<le> 450" using r by (simp_all add: h0_def)
  have c: "clamp_height (h0 + - 7.5) = h0 - 7.5"
    using h0 by (simp add: clamp_height_def LOGICAL_HEIGHT_def Let_def)
  have "g_height (fst (gen_segment fallback_planet k (g, \<lambda>n. 0)))
      = fst (hazard_roll fallback_planet (Some crags) k
          (clamp_height (g_height g + fst (height_delta (Some crags) k (\<lambda>n. 0))))
          (snd (height_delta (Some crags) k (\<lambda>n. 0))))"
    unfolding gen_segment_height_eq sty Let_def by simp
  also have "\<dots> = clamp_height (h0 + - 7.5)"
    unfolding d fst_conv snd_conv h h0_def [symmetric] by (rule hazard_roll_outside) (simp add: k)
  also have "\<dots> = h0 - 7.5" by (rule c)
  also have "\<dots> = 450 - 7.5 * real (Suc k)" by (simp add: h0_def field_simps)
  finally have hh: "g_height (fst (gen_segment fallback_planet k (g, \<lambda>n. 0)))
      = 450 - 7.5 * real (Suc k)" .
  have eq: "gen_loop fallback_planet 0 (Suc k) (gen_start fallback_planet, \<lambda>n. 0)
      = gen_segment fallback_planet k (g, \<lambda>n. 0)"
    using gen_loop_Suc [of fallback_planet 0 k "(gen_start fallback_planet, \<lambda>n. 0)"] e by simp
  show ?case unfolding eq using hh sty by blast
qed

lemma fallback_zero_raise:
  "g_height (fst (gen_loop fallback_planet 0 12 (gen_start fallback_planet, \<lambda>n. 0))) = 400"
proof -
  obtain g where e: "gen_loop fallback_planet 0 11 (gen_start fallback_planet, \<lambda>n. 0) = (g, \<lambda>n. 0)"
    using gen_loop_const [of fallback_planet 0 11 "gen_start fallback_planet" 0]
    by (cases "gen_loop fallback_planet 0 11 (gen_start fallback_planet, \<lambda>n. 0)") simp
  have h: "g_height g = 367.5" and st: "g_style g = Some crags"
    using fallback_zero_descent [of 11] e by simp_all
  have sty: "g_style (fst (gen_segment fallback_planet 11 (g, \<lambda>n. 0))) = Some crags"
    using st by (simp add: gen_segment_style chunkLength_def)
  have d: "height_delta (Some crags) 11 (\<lambda>n. 0) = (- 7.5, \<lambda>n. 0)"
    by (simp add: height_delta_def)
  have c: "clamp_height (367.5 + - 7.5) = 360"
    by (simp add: clamp_height_def LOGICAL_HEIGHT_def Let_def)
  have hr: "fst (hazard_roll fallback_planet (Some crags) 11 360 (\<lambda>n. 0)) = 400"
    by (simp add: hazard_roll_def segments_def LOGICAL_HEIGHT_def Let_def split_def)
  have "g_height (fst (gen_segment fallback_planet 11 (g, \<lambda>n. 0)))
      = fst (hazard_roll fallback_planet (Some crags) 11
          (clamp_height (g_height g + fst (height_delta (Some crags) 11 (\<lambda>n. 0))))
          (snd (height_delta (Some crags) 11 (\<lambda>n. 0))))"
    unfolding gen_segment_height_eq sty Let_def by (simp add: chunkLength_def)
  also have "\<dots> = 400" unfolding d fst_conv snd_conv h c by (rule hr)
  finally have "g_height (fst (gen_segment fallback_planet 11 (g, \<lambda>n. 0))) = 400" .
  moreover have "gen_loop fallback_planet 0 12 (gen_start fallback_planet, \<lambda>n. 0)
      = gen_segment fallback_planet 11 (g, \<lambda>n. 0)"
    using gen_loop_Suc [of fallback_planet 0 11 "(gen_start fallback_planet, \<lambda>n. 0)"] e by simp
  ultimately show ?thesis by simp
qed


lemma hazard_kind_main: "fst (hazard_kind P style r) \<noteq> spikes \<and> fst (hazard_kind P style r) \<noteq> ice"
  by (simp add: hazard_kind_def Let_def split_def split: option.splits BiomeStyle.splits)

lemma hazard_roll_strip:
  assumes "fst (snd (hazard_roll P style i h r)) = Some z"
  shows "hz_x z = real i * 50 \<and> hz_width z = 50 \<and> main_hazard z"
  using assms hazard_kind_main [of P style "rng_next r"]
  by (auto simp: hazard_roll_def Let_def split_def segmentWidth_def main_hazard_def
      split: if_splits)

lemma extra_hazards_flagged: "fst (extra_hazards P style i True r) = []"
  by (simp add: extra_hazards_def Let_def)

lemma extra_hazards_strips:
  assumes "z \<in> set (fst (extra_hazards P style i b r))"
  shows "hz_x z = real i * 50 \<and> hz_width z = 50 \<and> \<not> main_hazard z"
  using assms
  by (auto simp: extra_hazards_def Let_def segmentWidth_def main_hazard_def split: if_splits)

lemma decoration_roll_flagged: "fst (decoration_roll style i h True r) = []"
  by (simp add: decoration_roll_def)

lemma vegetation_roll_flagged: "fst (vegetation_roll P style i True r) = []"
  by (simp add: vegetation_roll_def)

lemma vegetation_roll_place:
  assumes "unit_draws r" and "v \<in> set (fst (vegetation_roll P style i b r))"
  shows "real i * 50 \<le> v_x v \<and> v_x v < real i * 50 + 50"
proof -
  define r5 where "r5 = rng_next (rng_next (rng_next (rng_next (rng_next r))))"
  have u5: "unit_draws r5" unfolding r5_def by (intro unit_draws_next assms(1))
  have u7: "unit_draws (rng_next (rng_next r5))" by (intro unit_draws_next u5)
  have "v_x v = real i * 50 + r5 0 * 50 \<or> v_x v = real i * 50 + rng_next (rng_next r5) 0 * 50"
    using assms(2) unfolding r5_def
    by (auto simp: vegetation_roll_def Let_def split_def segmentWidth_def split: if_splits)
  then show ?thesis
    using unit_drawsD [OF u5, of 0] unit_drawsD [OF u7, of 0] by auto
qed


text \<open>What one segment adds to the hazards, decorations and vegetation.\<close>

lemma gen_segment_added:
  fixes P i g r
  defines "g' \<equiv> fst (gen_segment P i (g, r))"
  shows "\<exists>hz vs ds. g_hazards g' = g_hazards g @ hz \<and> g_vegetation g' = g_vegetation g @ vs
     \<and> g_decorations g' = g_decorations g @ ds
     \<and> (\<forall>z \<in> set hz. hz_x z = real i * 50 \<and> hz_width z = 50)
     \<and> (unit_draws r \<longrightarrow> (\<forall>v \<in> set vs. real i * 50 \<le> v_x v \<and> v_x v < real i * 50 + 50))
     \<and> ((\<exists>z \<in> set hz. main_hazard z) \<longrightarrow> vs = [] \<and> ds = [] \<and> length hz = 1)"
proof -
  define style where "style = (if i mod chunkLength = 0 then pick_style P r else g_style g)"
  define r1 where "r1 = (if i mod chunkLength = 0 then rng_next r else r)"
  define r2 where "r2 = snd (height_delta style i r1)"
  define h1 where "h1 = clamp_height (g_height g + fst (height_delta style i r1))"
  define hr where "hr = hazard_roll P style i h1 r2"
  define hzo where "hzo = fst (snd hr)"
  define r3 where "r3 = snd (snd hr)"
  define ex where "ex = extra_hazards P style i (hzo \<noteq> None) r3"
  define de where "de = decoration_roll style i (fst hr) (hzo \<noteq> None) (snd ex)"
  define ve where "ve = vegetation_roll P style i (hzo \<noteq> None) (snd de)"
  have H: "g_hazards g' = g_hazards g @ (case hzo of None \<Rightarrow> [] | Some h \<Rightarrow> [h]) @ fst ex"
    and V: "g_vegetation g' = g_vegetation g @ fst ve"
    and D: "g_decorations g' = g_decorations g @ fst de"
    unfolding g'_def ve_def de_def ex_def r3_def hzo_def hr_def h1_def r2_def r1_def style_def
    by (simp_all add: gen_segment_def Let_def split_def)
  have u1: "unit_draws r \<Longrightarrow> unit_draws r1" by (simp add: r1_def unit_draws_next)
  have u2: "unit_draws r \<Longrightarrow> unit_draws r2" unfolding r2_def by (rule height_delta_draws [OF u1])
  have u3: "unit_draws r \<Longrightarrow> unit_draws r3"
    unfolding r3_def hr_def by (rule hazard_roll_draws [OF u2])
  have u4: "unit_draws r \<Longrightarrow> unit_draws (snd ex)"
    unfolding ex_def by (rule extra_hazards_draws [OF u3])
  have u5: "unit_draws r \<Longrightarrow> unit_draws (snd de)"
    unfolding de_def by (rule decoration_roll_draws [OF u4])
  let ?hz = "(case hzo of None \<Rightarrow> [] | Some h \<Rightarrow> [h]) @ fst ex"
  have a: "\<forall>z \<in> set ?hz. hz_x z = real i * 50 \<and> hz_width z = 50"
  proof
    fix z assume "z \<in> set ?hz"
    then consider (m) "hzo = Some z" | (e) "z \<in> set (fst ex)" by (auto split: option.splits)
    then show "hz_x z = real i * 50 \<and> hz_width z = 50"
    proof cases
      case m
      then show ?thesis using hazard_roll_strip [of P style i h1 r2 z]
        by (simp add: hzo_def hr_def)
    next
      case e
      then show ?thesis using extra_hazards_strips unfolding ex_def by blast
    qed
  qed
  have b: "unit_draws r \<longrightarrow> (\<forall>v \<in> set (fst ve). real i * 50 \<le> v_x v \<and> v_x v < real i * 50 + 50)"
    using vegetation_roll_place [OF u5] unfolding ve_def by blast
  have c: "(\<exists>z \<in> set ?hz. main_hazard z) \<longrightarrow> fst ve = [] \<and> fst de = [] \<and> length ?hz = 1"
  proof
    assume "\<exists>z \<in> set ?hz. main_hazard z"
    then obtain z where z: "z \<in> set ?hz" "main_hazard z" by blast
    have "z \<notin> set (fst ex)" using extra_hazards_strips z(2) unfolding ex_def by blast
    then have "hzo \<noteq> None" using z(1) by (auto split: option.splits)
    then have f: "(hzo \<noteq> None) = True" by simp
    show "fst ve = [] \<and> fst de = [] \<and> length ?hz = 1"
      unfolding ve_def de_def ex_def f
      using \<open>hzo \<noteq> None\<close>
      by (auto simp: vegetation_roll_flagged decoration_roll_flagged extra_hazards_flagged)
  qed
  show ?thesis using H V D a b c by blast
qed


lemma placed_ok_step:
  assumes "placed_ok i g" and "unit_draws r"
  shows "placed_ok (Suc i) (fst (gen_segment P i (g, r)))"
proof -
  define g' where "g' = fst (gen_segment P i (g, r))"
  obtain hz vs where H: "g_hazards g' = g_hazards g @ hz"
    and V: "g_vegetation g' = g_vegetation g @ vs"
    and a: "\<forall>z \<in> set hz. hz_x z = real i * 50 \<and> hz_width z = 50"
    and b: "\<forall>v \<in> set vs. real i * 50 \<le> v_x v \<and> v_x v < real i * 50 + 50"
    and c: "(\<exists>z \<in> set hz. main_hazard z) \<longrightarrow> vs = []"
    using gen_segment_added [of P i g r] assms(2) unfolding g'_def by blast
  have old_h: "\<forall>z \<in> set (g_hazards g). hz_width z = 50 \<and> (\<exists>j<i. hz_x z = real j * 50)"
    and old_v: "\<forall>v \<in> set (g_vegetation g). \<exists>j<i. real j * 50 \<le> v_x v \<and> v_x v < real j * 50 + 50 \<and>
         (\<forall>z \<in> set (g_hazards g). hz_x z = real j * 50 \<longrightarrow> \<not> main_hazard z)"
    using assms(1) by (simp_all add: placed_ok_def)
  have hz_ok: "hz_width z = 50 \<and> (\<exists>j<Suc i. hz_x z = real j * 50)" if "z \<in> set (g_hazards g')" for z
  proof (cases "z \<in> set hz")
    case True
    then show ?thesis using a by auto
  next
    case False
    then have "z \<in> set (g_hazards g)" using that H by simp
    with old_h have "hz_width z = 50 \<and> (\<exists>j<i. hz_x z = real j * 50)" by (rule bspec)
    then obtain j where "hz_width z = 50" "j < i" "hz_x z = real j * 50" by (elim exE conjE)
    then have "hz_width z = 50 \<and> j < Suc i \<and> hz_x z = real j * 50" by simp
    then show ?thesis by blast
  qed
  have v_ok: "\<exists>j<Suc i. real j * 50 \<le> v_x v \<and> v_x v < real j * 50 + 50 \<and>
         (\<forall>z \<in> set (g_hazards g'). hz_x z = real j * 50 \<longrightarrow> \<not> main_hazard z)"
    if "v \<in> set (g_vegetation g')" for v
  proof (cases "v \<in> set vs")
    case True
    then have vs: "vs \<noteq> []" by auto
    have new: "\<forall>z \<in> set hz. \<not> main_hazard z" using c vs by blast
    have old: "hz_x z \<noteq> real i * 50" if "z \<in> set (g_hazards g)" for z
    proof -
      from old_h that have "hz_width z = 50 \<and> (\<exists>j<i. hz_x z = real j * 50)" by (rule bspec)
      then obtain j where "j < i" "hz_x z = real j * 50" by (elim exE conjE)
      then show ?thesis by simp
    qed
    have "\<forall>z \<in> set (g_hazards g'). hz_x z = real i * 50 \<longrightarrow> \<not> main_hazard z"
      using new old H by auto
    moreover have "real i * 50 \<le> v_x v \<and> v_x v < real i * 50 + 50" using b True by blast
    ultimately have "i < Suc i \<and> real i * 50 \<le> v_x v \<and> v_x v < real i * 50 + 50 \<and>
         (\<forall>z \<in> set (g_hazards g'). hz_x z = real i * 50 \<longrightarrow> \<not> main_hazard z)"
      by simp
    then show ?thesis by (rule exI)
  next
    case False
    then have "v \<in> set (g_vegetation g)" using that V by simp
    with old_v have "\<exists>j<i. real j * 50 \<le> v_x v \<and> v_x v < real j * 50 + 50 \<and>
         (\<forall>z \<in> set (g_hazards g). hz_x z = real j * 50 \<longrightarrow> \<not> main_hazard z)"
      by (rule bspec)
    then obtain j where j: "j < i" "real j * 50 \<le> v_x v" "v_x v < real j * 50 + 50"
      "\<forall>z \<in> set (g_hazards g). hz_x z = real j * 50 \<longrightarrow> \<not> main_hazard z"
      by (elim exE conjE)
    have "hz_x z \<noteq> real j * 50" if "z \<in> set hz" for z
      using a that j(1) by simp
    then have "\<forall>z \<in> set (g_hazards g'). hz_x z = real j * 50 \<longrightarrow> \<not> main_hazard z"
      using j(4) H by auto
    then have "j < Suc i \<and> real j * 50 \<le> v_x v \<and> v_x v < real j * 50 + 50 \<and>
         (\<forall>z \<in> set (g_hazards g'). hz_x z = real j * 50 \<longrightarrow> \<not> main_hazard z)"
      using j(1,2,3) by simp
    then show ?thesis by (rule exI)
  qed
  have "(\<forall>z \<in> set (g_hazards g'). hz_width z = 50 \<and> (\<exists>j<Suc i. hz_x z = real j * 50))"
    using hz_ok by (intro ballI)
  moreover have "(\<forall>v \<in> set (g_vegetation g'). \<exists>j<Suc i. real j * 50 \<le> v_x v \<and>
      v_x v < real j * 50 + 50 \<and>
      (\<forall>z \<in> set (g_hazards g'). hz_x z = real j * 50 \<longrightarrow> \<not> main_hazard z))"
    using v_ok by (intro ballI)
  ultimately show ?thesis unfolding placed_ok_def g'_def [symmetric] by (rule conjI)
qed

lemma placed_ok_loop:
  assumes "placed_ok i g" and "unit_draws r"
  shows "placed_ok (i + n) (fst (gen_loop P i n (g, r)))"
  using assms
proof (induction n arbitrary: i g r)
  case 0
  then show ?case by simp
next
  case (Suc n)
  obtain g' r' where seg: "gen_segment P i (g, r) = (g', r')" by (cases "gen_segment P i (g, r)")
  have p: "placed_ok (Suc i) g'" using placed_ok_step [OF Suc.prems, of P] seg by simp
  have u: "unit_draws r'" using gen_segment_draws [OF Suc.prems(2), of P i g] seg by simp
  show ?case using Suc.IH [OF p u] seg by simp
qed

lemma placed_ok_disjoint:
  assumes "placed_ok i g" and "v \<in> set (g_vegetation g)" and "z \<in> set (g_hazards g)"
    and "main_hazard z"
  shows "\<not> overlaps z v"
proof
  assume o: "overlaps z v"
  have pv: "\<forall>v \<in> set (g_vegetation g). \<exists>j<i. real j * 50 \<le> v_x v \<and> v_x v < real j * 50 + 50 \<and>
         (\<forall>z \<in> set (g_hazards g). hz_x z = real j * 50 \<longrightarrow> \<not> main_hazard z)"
    and ph: "\<forall>z \<in> set (g_hazards g). hz_width z = 50 \<and> (\<exists>j<i. hz_x z = real j * 50)"
    using assms(1) by (simp_all add: placed_ok_def)
  from pv assms(2) have "\<exists>j<i. real j * 50 \<le> v_x v \<and> v_x v < real j * 50 + 50 \<and>
         (\<forall>z \<in> set (g_hazards g). hz_x z = real j * 50 \<longrightarrow> \<not> main_hazard z)"
    by (rule bspec)
  then obtain j where j: "real j * 50 \<le> v_x v" "v_x v < real j * 50 + 50"
      "\<forall>z \<in> set (g_hazards g). hz_x z = real j * 50 \<longrightarrow> \<not> main_hazard z"
    by (elim exE conjE)
  from ph assms(3) have "hz_width z = 50 \<and> (\<exists>j<i. hz_x z = real j * 50)" by (rule bspec)
  then obtain k where k: "hz_width z = 50" "hz_x z = real k * 50" by (elim exE conjE)
  have "real k * 50 \<le> v_x v" "v_x v < real k * 50 + 50"
    using o k by (simp_all add: overlaps_def)
  then have "real k < real j + 1" "real j < real k + 1" using j(1,2) by linarith+
  then have "k = j" by linarith
  then have "hz_x z = real j * 50" using k(2) by simp
  with j(3) assms(3) have "\<not> main_hazard z" by blast
  then show False using assms(4) by simp
qed

lemma generate_map_placed:
  assumes "unit_draws r"
  shows "placed_ok segments (fst (generate_map P r))"
proof -
  have "placed_ok 0 (gen_start P)" by (simp add: placed_ok_def gen_start_def)
  from placed_ok_loop [OF this assms, of segments P] show ?thesis
    by (simp add: generate_map_def)
qed



lemma pick_style_fallback: "pick_style fallback_planet (\<lambda>n. 0) = Some crags"
  by (simp add: pick_style_def array_read_def fallback_planet_def)

lemma height_delta_crags_zero: "height_delta (Some crags) i (\<lambda>n. 0) = (- 7.5, \<lambda>n. 0)"
  by (simp add: height_delta_def)

lemma hazard_roll_first: "hazard_roll P style 0 h r = (h, None, r)"
  by (simp add: hazard_roll_def)

lemma extra_hazards_crags_zero:
  "extra_hazards P (Some crags) i False (\<lambda>n. 0)
     = ([\<lparr>hz_x = real i * 50, hz_width = 50, hz_type = spikes\<rparr>], \<lambda>n. 0)"
  by (simp add: extra_hazards_def Let_def segmentWidth_def)

lemma decoration_roll_zero: "decoration_roll style i h False (\<lambda>n. 0) = ([], \<lambda>n. 0)"
  by (simp add: decoration_roll_def)

lemma vegetation_roll_fallback_zero:
  "map v_x (fst (vegetation_roll fallback_planet (Some crags) i False (\<lambda>n. 0))) = [real i * 50]"
  by (simp add: vegetation_roll_def vegDensity_def fallback_planet_def Let_def split_def
      segmentWidth_def)

lemma first_segment_zero:
  "g_hazards (fst (gen_segment fallback_planet 0 (gen_start fallback_planet, \<lambda>n. 0)))
     = [\<lparr>hz_x = 0, hz_width = 50, hz_type = spikes\<rparr>]
   \<and> map v_x (g_vegetation (fst (gen_segment fallback_planet 0 (gen_start fallback_planet, \<lambda>n. 0))))
     = [0]"
  by (simp add: gen_segment_def Let_def split_def gen_start_def pick_style_fallback height_delta_crags_zero
      hazard_roll_first extra_hazards_crags_zero decoration_roll_zero
      vegetation_roll_fallback_zero chunkLength_def)


lemma unit_draws_const: "0 \<le> c \<Longrightarrow> c < 1 \<Longrightarrow> unit_draws (\<lambda>n. c)"
  by (simp add: unit_draws_def)

lemma hazard_roll_crags_zero:
  assumes "10 < i" and "i < 340"
  shows "hazard_roll P (Some crags) i h (\<lambda>n. 0)
     = (if h + 40 > 550 then 550 else h + 40,
        Some \<lparr>hz_x = real i * 50, hz_width = 50, hz_type = lava\<rparr>, \<lambda>n. 0)"
  using assms
  by (simp add: hazard_roll_def hazard_kind_def segments_def LOGICAL_HEIGHT_def Let_def
      segmentWidth_def)

lemma gen_segment_crags_zero_lava:
  assumes "g_style g = Some crags" and "10 < i" and "i < 340" and "i mod chunkLength \<noteq> 0"
  shows "g_hazards (fst (gen_segment P i (g, \<lambda>n. 0)))
           = g_hazards g @ [\<lparr>hz_x = real i * 50, hz_width = 50, hz_type = lava\<rparr>]"
    and "g_vegetation (fst (gen_segment P i (g, \<lambda>n. 0))) = g_vegetation g"
  using assms
  by (simp_all add: gen_segment_def Let_def height_delta_crags_zero hazard_roll_crags_zero
      extra_hazards_def decoration_roll_def vegetation_roll_def)

lemma fallback_zero_lava:
  "\<lparr>hz_x = 550, hz_width = 50, hz_type = lava\<rparr>
     \<in> set (g_hazards (fst (generate_map fallback_planet (\<lambda>n. 0))))"
proof -
  obtain g where e: "gen_loop fallback_planet 0 11 (gen_start fallback_planet, \<lambda>n. 0) = (g, \<lambda>n. 0)"
    using gen_loop_const [of fallback_planet 0 11 "gen_start fallback_planet" 0]
    by (cases "gen_loop fallback_planet 0 11 (gen_start fallback_planet, \<lambda>n. 0)") simp
  have st: "g_style g = Some crags" using fallback_zero_descent [of 11] e by simp
  have eq: "gen_loop fallback_planet 0 12 (gen_start fallback_planet, \<lambda>n. 0)
      = gen_segment fallback_planet 11 (g, \<lambda>n. 0)"
    using gen_loop_Suc [of fallback_planet 0 11 "(gen_start fallback_planet, \<lambda>n. 0)"] e by simp
  have "g_hazards (fst (gen_segment fallback_planet 11 (g, \<lambda>n. 0)))
      = g_hazards g @ [\<lparr>hz_x = real 11 * 50, hz_width = 50, hz_type = lava\<rparr>]"
    by (rule gen_segment_crags_zero_lava(1) [OF st]) (simp_all add: chunkLength_def)
  then have m: "\<lparr>hz_x = 550, hz_width = 50, hz_type = lava\<rparr>
      \<in> set (g_hazards (fst (gen_loop fallback_planet 0 12 (gen_start fallback_planet, \<lambda>n. 0))))"
    unfolding eq by simp
  have "extends (fst (gen_loop fallback_planet 0 12 (gen_start fallback_planet, \<lambda>n. 0)))
      (fst (generate_map fallback_planet (\<lambda>n. 0)))"
    by (rule generate_map_extends) (simp add: segments_def)
  then show ?thesis using m by (auto simp: extends_def)
qed

lemma fallback_zero_first:
  "\<lparr>hz_x = 0, hz_width = 50, hz_type = spikes\<rparr>
     \<in> set (g_hazards (fst (generate_map fallback_planet (\<lambda>n. 0))))"
  "\<exists>v \<in> set (g_vegetation (fst (generate_map fallback_planet (\<lambda>n. 0)))). v_x v = 0"
proof -
  let ?g1 = "fst (gen_segment fallback_planet 0 (gen_start fallback_planet, \<lambda>n. 0))"
  have "extends (fst (gen_loop fallback_planet 0 1 (gen_start fallback_planet, \<lambda>n. 0)))
      (fst (generate_map fallback_planet (\<lambda>n. 0)))"
    by (rule generate_map_extends) (simp add: segments_def)
  then have ex: "extends ?g1 (fst (generate_map fallback_planet (\<lambda>n. 0)))" by simp
  have h: "g_hazards ?g1 = [\<lparr>hz_x = 0, hz_width = 50, hz_type = spikes\<rparr>]"
    and v: "map v_x (g_vegetation ?g1) = [0]"
    using first_segment_zero by simp_all
  show "\<lparr>hz_x = 0, hz_width = 50, hz_type = spikes\<rparr>
     \<in> set (g_hazards (fst (generate_map fallback_planet (\<lambda>n. 0))))"
    using ex h by (auto simp: extends_def)
  obtain v0 where v0: "g_vegetation ?g1 = [v0]" "v_x v0 = 0"
    using v by (cases "g_vegetation ?g1") auto
  then have "v0 \<in> set (g_vegetation (fst (generate_map fallback_planet (\<lambda>n. 0))))"
    using ex by (auto simp: extends_def)
  then show "\<exists>v \<in> set (g_vegetation (fst (generate_map fallback_planet (\<lambda>n. 0)))). v_x v = 0"
    using v0(2) by blast
qed

lemma takes_raise_eq:
  "takes_raise P i (g, r) =
     (i > 10 \<and> i < segments - 10
      \<and> snd (height_delta (if i mod chunkLength = 0 then pick_style P r else g_style g) i
                (if i mod chunkLength = 0 then rng_next r else r)) 0 < 0.06)"
  by (cases "i mod chunkLength = 0") (simp_all add: takes_raise_def Let_def split_def)

lemma hazard_roll_no_raise:
  assumes "\<not> (i > 10 \<and> i < segments - 10 \<and> r 0 < 0.06)"
  shows "fst (hazard_roll P style i h r) = h"
  using assms by (auto simp: hazard_roll_def)

lemma hazard_roll_raise:
  assumes "i > 10 \<and> i < segments - 10 \<and> r 0 < 0.06"
  shows "fst (hazard_roll P style i h r) = (if h + 40 > 550 then 550 else h + 40)"
  using assms by (simp add: hazard_roll_def Let_def split_def LOGICAL_HEIGHT_def)

lemma takes_raise_outside:
  assumes "i \<le> 10 \<or> segments - 10 \<le> i"
  shows "\<not> takes_raise P i gr"
  using assms by (auto simp: takes_raise_def Let_def split_def)

lemma gen_segment_no_raise:
  assumes "unit_draws r" and "100 \<le> g_height g" and "g_height g \<le> 550"
    and "\<not> takes_raise P i (g, r)"
  shows "\<bar>g_height (fst (gen_segment P i (g, r))) - g_height g\<bar>
           \<le> style_delta (g_style (fst (gen_segment P i (g, r)))) + 2"
proof -
  define sty where "sty = g_style (fst (gen_segment P i (g, r)))"
  define r1 where "r1 = (if i mod chunkLength = 0 then rng_next r else r)"
  define d where "d = fst (height_delta sty i r1)"
  define h1 where "h1 = clamp_height (g_height g + d)"
  define h2 where "h2 = fst (hazard_roll P sty i h1 (snd (height_delta sty i r1)))"
  have eq: "g_height (fst (gen_segment P i (g, r))) = h2"
    unfolding h2_def h1_def d_def r1_def sty_def by (simp add: gen_segment_height_eq Let_def)
  have s: "sty = (if i mod chunkLength = 0 then pick_style P r else g_style g)"
    unfolding sty_def by (rule gen_segment_style)
  have u1: "unit_draws r1" using assms(1) by (simp add: r1_def unit_draws_next)
  have db: "\<bar>d\<bar> \<le> style_delta sty" unfolding d_def by (rule height_delta_bound_opt [OF u1])
  have c2: "\<bar>h1 - g_height g\<bar> \<le> \<bar>d\<bar> + 2"
    unfolding h1_def by (rule clamp_height_near [OF assms(2,3)])
  have n: "\<not> (i > 10 \<and> i < segments - 10 \<and> snd (height_delta sty i r1) 0 < 0.06)"
    using assms(4) unfolding s r1_def takes_raise_eq .
  have "h2 = h1"
    unfolding h2_def using n by (rule hazard_roll_no_raise [where r = "snd (height_delta sty i r1)"])
  then show ?thesis unfolding eq sty_def [symmetric] using db c2 by linarith
qed

lemma gen_segment_raise:
  assumes "takes_raise P i (g, r)"
  shows "g_height (fst (gen_segment P i (g, r)))
           = (let sty = g_style (fst (gen_segment P i (g, r)));
                  r1 = (if i mod chunkLength = 0 then rng_next r else r);
                  h1 = clamp_height (g_height g + fst (height_delta sty i r1))
              in if h1 + 40 > 550 then 550 else h1 + 40)"
proof -
  define sty where "sty = g_style (fst (gen_segment P i (g, r)))"
  define r1 where "r1 = (if i mod chunkLength = 0 then rng_next r else r)"
  have s: "sty = (if i mod chunkLength = 0 then pick_style P r else g_style g)"
    unfolding sty_def by (rule gen_segment_style)
  have n: "i > 10 \<and> i < segments - 10 \<and> snd (height_delta sty i r1) 0 < 0.06"
    using assms unfolding s r1_def takes_raise_eq .
  show ?thesis
    unfolding gen_segment_height_eq [of P i g r] Let_def sty_def [symmetric] r1_def [symmetric]
    using n by (rule hazard_roll_raise [where r = "snd (height_delta sty i r1)"])
qed

lemma gen_loop_inv:
  assumes "unit_draws r" and "100 \<le> g_height g" and "g_height g \<le> 550"
    and "\<forall>st \<in> set (allowedBiomes P). max_delta st \<le> D" and "0 \<le> D"
    and "style_delta (g_style g) \<le> D"
  shows "unit_draws (snd (gen_loop P i n (g, r)))
     \<and> 100 \<le> g_height (fst (gen_loop P i n (g, r)))
     \<and> g_height (fst (gen_loop P i n (g, r))) \<le> 550
     \<and> style_delta (g_style (fst (gen_loop P i n (g, r)))) \<le> D"
  using assms
proof (induction n arbitrary: i g r)
  case 0
  then show ?case by simp
next
  case (Suc n)
  obtain g' r' where seg: "gen_segment P i (g, r) = (g', r')" by (cases "gen_segment P i (g, r)")
  have g': "g' = fst (gen_segment P i (g, r))" and r': "r' = snd (gen_segment P i (g, r))"
    using seg by simp_all
  have b1: "100 \<le> g_height g'"
    unfolding g' by (rule gen_segment_height(3) [OF Suc.prems(1,2,3)])
  have b2: "g_height g' \<le> 550"
    unfolding g' by (rule gen_segment_height(4) [OF Suc.prems(1,2,3)])
  have sd: "style_delta (g_style g') \<le> D"
    unfolding g' by (rule gen_segment_style_delta [OF Suc.prems(4,5,6)])
  have u: "unit_draws r'" unfolding r' by (rule gen_segment_draws [OF Suc.prems(1)])
  note ih = Suc.IH [OF u b1 b2 Suc.prems(4,5) sd, of "Suc i"]
  show ?case using ih seg by simp
qed

lemma gen_start_style_delta:
  assumes "\<forall>st \<in> set (allowedBiomes P). max_delta st \<le> D" and "0 \<le> D"
  shows "style_delta (g_style (gen_start P)) \<le> D"
proof (cases "g_style (gen_start P)")
  case None
  then show ?thesis using assms(2) by (simp add: style_delta_def)
next
  case (Some st)
  then have "st \<in> set (allowedBiomes P)"
    by (auto simp: gen_start_def array_read_def split: if_splits)
  then show ?thesis using assms(1) Some by (simp add: style_delta_def)
qed

lemma generate_map_step:
  assumes "unit_draws r" and "\<forall>st \<in> set (allowedBiomes P). max_delta st \<le> D" and "0 \<le> D"
    and "0 < k" and "k < segments" and "\<not> takes_raise P k (gen_loop P 0 k (gen_start P, r))"
  shows "\<bar>g_terrain (fst (generate_map P r)) ! k - g_terrain (fst (generate_map P r)) ! (k - 1)\<bar>
           \<le> D + 2"
proof -
  obtain g r' where e: "gen_loop P 0 k (gen_start P, r) = (g, r')"
    by (cases "gen_loop P 0 k (gen_start P, r)")
  have inv: "unit_draws r' \<and> 100 \<le> g_height g \<and> g_height g \<le> 550 \<and> style_delta (g_style g) \<le> D"
    using gen_loop_inv [OF assms(1) _ _ assms(2,3) gen_start_style_delta [OF assms(2,3)], of 0 k] e
    by (simp add: gen_start_def LOGICAL_HEIGHT_def)
  obtain j where j: "k = Suc j" using assms(4) by (cases k) simp_all
  have a': "gen_loop P 0 (Suc k) (gen_start P, r) = gen_segment P k (g, r')"
    unfolding gen_loop_Suc e by simp
  have a: "g_terrain (fst (generate_map P r)) ! k = g_height (fst (gen_segment P k (g, r')))"
    using generate_map_nth [OF assms(5), of P r] unfolding a' .
  have b: "g_terrain (fst (generate_map P r)) ! (k - 1) = g_height g"
    using generate_map_nth [of j P r] assms(5) e by (simp add: j)
  have n: "\<not> takes_raise P k (g, r')" using assms(6) e by simp
  have "\<bar>g_height (fst (gen_segment P k (g, r'))) - g_height g\<bar>
           \<le> style_delta (g_style (fst (gen_segment P k (g, r')))) + 2"
    using gen_segment_no_raise [OF _ _ _ n] inv by blast
  moreover have "style_delta (g_style (fst (gen_segment P k (g, r')))) \<le> D"
    using gen_segment_style_delta [OF assms(2,3)] inv by blast
  ultimately show ?thesis unfolding a b by linarith
qed


lemma takes_raise_const:
  "takes_raise P i (g, \<lambda>n. c) = (10 < i \<and> i < segments - 10 \<and> c < 0.06)"
  by (simp add: takes_raise_eq height_delta_const)

text \<open>
  Claim C3, as stated, fails: on the fallback planet, whose only biome is crags (largest
  height change 7.5), with every draw 0, sample 10 is 367.5 and sample 11, which takes
  the hazard raise, is 400.
\<close>

theorem terrain_step_counterexample:
  "allowedBiomes fallback_planet = [crags] \<and> unit_draws (\<lambda>n. 0)
   \<and> g_terrain (fst (generate_map fallback_planet (\<lambda>n. 0))) ! 10 = 367.5
   \<and> g_terrain (fst (generate_map fallback_planet (\<lambda>n. 0))) ! 11 = 400
   \<and> \<not> (\<bar>g_terrain (fst (generate_map fallback_planet (\<lambda>n. 0))) ! 11
          - g_terrain (fst (generate_map fallback_planet (\<lambda>n. 0))) ! 10\<bar> \<le> max_delta crags)"
proof -
  have a: "g_terrain (fst (generate_map fallback_planet (\<lambda>n. 0))) ! 10 = 367.5"
    using generate_map_nth [of 10 fallback_planet "\<lambda>n. 0"] fallback_zero_descent [of 11]
    by (simp add: segments_def)
  have b: "g_terrain (fst (generate_map fallback_planet (\<lambda>n. 0))) ! 11 = 400"
    using generate_map_nth [of 11 fallback_planet "\<lambda>n. 0"] fallback_zero_raise
    by (simp add: segments_def)
  show ?thesis unfolding a b by (simp add: fallback_planet_def unit_draws_def)
qed

text \<open>
  Claim C3, amended. Each segment moves the running height, which is the previous
  sample, by at most the largest height change of the segment's style plus 2 for the
  nudge away from the outer bands when it does not take the hazard raise, and by at most
  40 more when it does; the segments up to 10 and from 340 on never take it. So on a
  planet whose biomes all have a largest height change of at most \<open>D\<close>, consecutive
  samples of the 350 differ by at most \<open>D + 2\<close> across a segment that does not take the
  raise and by at most \<open>D + 42\<close> across any segment.
\<close>

theorem terrain_steps_bounded:
  "(unit_draws r \<and> 100 \<le> g_height g \<and> g_height g \<le> 550 \<longrightarrow>
      \<bar>g_height (fst (gen_segment P i (g, r))) - g_height g\<bar>
        \<le> style_delta (g_style (fst (gen_segment P i (g, r)))) + 42
      \<and> (\<not> takes_raise P i (g, r) \<longrightarrow>
           \<bar>g_height (fst (gen_segment P i (g, r))) - g_height g\<bar>
             \<le> style_delta (g_style (fst (gen_segment P i (g, r)))) + 2)
      \<and> (i \<le> 10 \<or> segments - 10 \<le> i \<longrightarrow>
           \<not> takes_raise P i (g, r)
           \<and> \<bar>g_height (fst (gen_segment P i (g, r))) - g_height g\<bar>
               \<le> style_delta (g_style (fst (gen_segment P i (g, r)))) + 2))
   \<and> (unit_draws r \<and> (\<forall>st \<in> set (allowedBiomes P). max_delta st \<le> D) \<and> 0 \<le> D \<longrightarrow>
        max_step (g_terrain (fst (generate_map P r))) (D + 42)
        \<and> length (g_terrain (fst (generate_map P r))) = 350
        \<and> (\<forall>k. 0 < k \<and> k < 350 \<and> \<not> takes_raise P k (gen_loop P 0 k (gen_start P, r)) \<longrightarrow>
              \<bar>g_terrain (fst (generate_map P r)) ! k
                 - g_terrain (fst (generate_map P r)) ! (k - 1)\<bar> \<le> D + 2))"
proof (intro conjI impI allI)
  assume a: "unit_draws r \<and> 100 \<le> g_height g \<and> g_height g \<le> 550"
  then have u: "unit_draws r" and l: "100 \<le> g_height g" and h: "g_height g \<le> 550"
    by simp_all
  show "\<bar>g_height (fst (gen_segment P i (g, r))) - g_height g\<bar>
        \<le> style_delta (g_style (fst (gen_segment P i (g, r)))) + 42"
    by (rule gen_segment_height(1) [OF u l h])
  show "\<bar>g_height (fst (gen_segment P i (g, r))) - g_height g\<bar>
        \<le> style_delta (g_style (fst (gen_segment P i (g, r)))) + 2"
    if "\<not> takes_raise P i (g, r)"
    by (rule gen_segment_no_raise [OF u l h that])
  show "\<not> takes_raise P i (g, r)" if "i \<le> 10 \<or> segments - 10 \<le> i"
    by (rule takes_raise_outside [OF that])
  show "\<bar>g_height (fst (gen_segment P i (g, r))) - g_height g\<bar>
        \<le> style_delta (g_style (fst (gen_segment P i (g, r)))) + 2"
    if "i \<le> 10 \<or> segments - 10 \<le> i"
    by (rule gen_segment_height(2) [OF u l h that])
next
  assume a: "unit_draws r \<and> (\<forall>st \<in> set (allowedBiomes P). max_delta st \<le> D) \<and> 0 \<le> D"
  then have u: "unit_draws r" and b: "\<forall>st \<in> set (allowedBiomes P). max_delta st \<le> D"
    and d: "0 \<le> D"
    by simp_all
  note sd = gen_start_style_delta [OF b d]
  have "max_step (g_terrain (fst (gen_loop P 0 segments (gen_start P, r)))) (D + 42)
     \<and> length (g_terrain (fst (gen_loop P 0 segments (gen_start P, r))))
         = length (g_terrain (gen_start P)) + segments"
    by (rule gen_loop_steps [OF u _ _ _ b d sd])
      (simp_all add: gen_start_def LOGICAL_HEIGHT_def)
  then show "max_step (g_terrain (fst (generate_map P r))) (D + 42)"
    and "length (g_terrain (fst (generate_map P r))) = 350"
    by (simp_all add: generate_map_def gen_start_def segments_def)
  show "\<bar>g_terrain (fst (generate_map P r)) ! k
           - g_terrain (fst (generate_map P r)) ! (k - 1)\<bar> \<le> D + 2"
    if "0 < k \<and> k < 350 \<and> \<not> takes_raise P k (gen_loop P 0 k (gen_start P, r))" for k
    using generate_map_step [OF u b d, of k] that by (simp add: segments_def)
qed

text \<open>
  The amended claim on the fallback planet (crags, \<open>D = 7.5\<close>): with every draw 0 the
  steps are within 49.5 and that of segment 0 within 9.5; with every draw \<open>1/2\<close> segment
  20 does not take the raise and its step is within 9.5.
\<close>

theorem terrain_steps_bounded_witness:
  "max_step (g_terrain (fst (generate_map fallback_planet (\<lambda>n. 0)))) 49.5
   \<and> length (g_terrain (fst (generate_map fallback_planet (\<lambda>n. 0)))) = 350
   \<and> \<bar>g_height (fst (gen_segment fallback_planet 0 (gen_start fallback_planet, \<lambda>n. 0)))
        - g_height (gen_start fallback_planet)\<bar> \<le> 9.5
   \<and> \<not> takes_raise fallback_planet 20 (gen_start fallback_planet, \<lambda>n. 1/2)
   \<and> \<bar>g_height (fst (gen_segment fallback_planet 20 (gen_start fallback_planet, \<lambda>n. 1/2)))
        - g_height (gen_start fallback_planet)\<bar> \<le> 9.5
   \<and> \<bar>g_terrain (fst (generate_map fallback_planet (\<lambda>n. 1/2))) ! 20
        - g_terrain (fst (generate_map fallback_planet (\<lambda>n. 1/2))) ! 19\<bar> \<le> 9.5"
proof -
  have u: "unit_draws (\<lambda>n. 0)" "unit_draws (\<lambda>n. 1/2)" by (simp_all add: unit_draws_def)
  have g: "100 \<le> g_height (gen_start fallback_planet) \<and> g_height (gen_start fallback_planet) \<le> 550"
    by (simp add: gen_start_def LOGICAL_HEIGHT_def)
  have b: "(\<forall>st \<in> set (allowedBiomes fallback_planet). max_delta st \<le> 7.5) \<and> (0::real) \<le> 7.5"
    by (simp add: fallback_planet_def)
  have sty: "style_delta (g_style (fst (gen_segment fallback_planet 0
      (gen_start fallback_planet, \<lambda>n. 0)))) = 7.5"
    by (simp add: gen_segment_style pick_style_fallback style_delta_def)
  have sty20: "style_delta (g_style (fst (gen_segment fallback_planet 20
      (gen_start fallback_planet, \<lambda>n. 1/2)))) = 7.5"
    by (simp add: gen_segment_style chunkLength_def gen_start_def array_read_def
        fallback_planet_def style_delta_def)
  have z: "(0::nat) \<le> 10" by simp
  have n: "\<not> takes_raise fallback_planet 20 (gen_start fallback_planet, \<lambda>n. 1/2)"
    by (simp add: takes_raise_const)
  obtain g' where e: "gen_loop fallback_planet 0 20 (gen_start fallback_planet, \<lambda>n. 1/2)
      = (g', \<lambda>n. 1/2)"
    using gen_loop_const [of fallback_planet 0 20 "gen_start fallback_planet" "1/2"]
    by (cases "gen_loop fallback_planet 0 20 (gen_start fallback_planet, \<lambda>n. 1/2)") simp
  have k: "(0::nat) < 20 \<and> (20::nat) < 350
      \<and> \<not> takes_raise fallback_planet 20
            (gen_loop fallback_planet 0 20 (gen_start fallback_planet, \<lambda>n. 1/2))"
    unfolding e by (simp add: takes_raise_const)
  note t = terrain_steps_bounded
    [of "\<lambda>n. 0" "gen_start fallback_planet" fallback_planet 0 "7.5"]
  note t' = terrain_steps_bounded
    [of "\<lambda>n. 1/2" "gen_start fallback_planet" fallback_planet 20 "7.5"]
  have a1: "max_step (g_terrain (fst (generate_map fallback_planet (\<lambda>n. 0)))) (7.5 + 42)
      \<and> length (g_terrain (fst (generate_map fallback_planet (\<lambda>n. 0)))) = 350"
    using t u(1) b by blast
  have a2: "\<bar>g_height (fst (gen_segment fallback_planet 0 (gen_start fallback_planet, \<lambda>n. 0)))
        - g_height (gen_start fallback_planet)\<bar>
      \<le> style_delta (g_style (fst (gen_segment fallback_planet 0
            (gen_start fallback_planet, \<lambda>n. 0)))) + 2"
    using t u(1) g z by blast
  have a3: "\<bar>g_height (fst (gen_segment fallback_planet 20 (gen_start fallback_planet, \<lambda>n. 1/2)))
        - g_height (gen_start fallback_planet)\<bar>
      \<le> style_delta (g_style (fst (gen_segment fallback_planet 20
            (gen_start fallback_planet, \<lambda>n. 1/2)))) + 2"
    using t' u(2) g n by blast
  have a4: "\<forall>k. 0 < k \<and> k < 350
         \<and> \<not> takes_raise fallback_planet k
               (gen_loop fallback_planet 0 k (gen_start fallback_planet, \<lambda>n. 1/2)) \<longrightarrow>
         \<bar>g_terrain (fst (generate_map fallback_planet (\<lambda>n. 1/2))) ! k
            - g_terrain (fst (generate_map fallback_planet (\<lambda>n. 1/2))) ! (k - 1)\<bar> \<le> 7.5 + 2"
    using t' u(2) b by blast
  have a5: "\<bar>g_terrain (fst (generate_map fallback_planet (\<lambda>n. 1/2))) ! 20
        - g_terrain (fst (generate_map fallback_planet (\<lambda>n. 1/2))) ! (20 - 1)\<bar> \<le> 7.5 + 2"
    using a4 k by blast
  show ?thesis using a1 a2 a3 a5 n sty sty20 by simp
qed

text \<open>
  Claim C4, as stated, fails for floor spikes: on the fallback planet with every draw 0,
  segment 0 gets a strip of spikes and a plant whose foot stands on it.
\<close>

theorem spikes_under_vegetation_counterexample:
  "\<exists>z \<in> set (g_hazards (fst (generate_map fallback_planet (\<lambda>n. 0)))).
     \<exists>v \<in> set (g_vegetation (fst (generate_map fallback_planet (\<lambda>n. 0)))).
       hz_type z = spikes \<and> hz_x z = 0 \<and> hz_width z = 50 \<and> v_x v = 0 \<and> overlaps z v"
proof -
  obtain v where v: "v \<in> set (g_vegetation (fst (generate_map fallback_planet (\<lambda>n. 0))))" "v_x v = 0"
    using fallback_zero_first(2) by blast
  have "overlaps \<lparr>hz_x = 0, hz_width = 50, hz_type = spikes\<rparr> v"
    using v(2) by (simp add: overlaps_def)
  then show ?thesis using fallback_zero_first(1) v
    by (intro bexI [of _ "\<lparr>hz_x = 0, hz_width = 50, hz_type = spikes\<rparr>"] bexI [of _ v]) simp_all
qed

text \<open>
  Claim C4, amended. Only the hazard roll sets \<open>isHazard\<close>: a segment on which it places its
  strip (lava, acid, geyser or electric) gets no plant and no decoration, so in a
  generated map no plant stands on a main hazard. Floor spikes and ice do not set the
  flag and may share their segment with a plant.
\<close>

theorem main_hazard_excludes_vegetation:
  "(unit_draws r \<longrightarrow>
      (\<forall>v \<in> set (g_vegetation (fst (generate_map P r))).
         \<forall>z \<in> set (g_hazards (fst (generate_map P r))). main_hazard z \<longrightarrow> \<not> overlaps z v))
   \<and> ((\<exists>z \<in> set (drop (length (g_hazards g)) (g_hazards (fst (gen_segment P i (g, r))))).
          main_hazard z) \<longrightarrow>
        g_vegetation (fst (gen_segment P i (g, r))) = g_vegetation g
        \<and> g_decorations (fst (gen_segment P i (g, r))) = g_decorations g)"
proof (intro conjI impI ballI)
  fix v z
  assume "unit_draws r" and "v \<in> set (g_vegetation (fst (generate_map P r)))"
    and "z \<in> set (g_hazards (fst (generate_map P r)))" and "main_hazard z"
  then show "\<not> overlaps z v"
    using placed_ok_disjoint [OF generate_map_placed] by blast
next
  assume a: "\<exists>z \<in> set (drop (length (g_hazards g)) (g_hazards (fst (gen_segment P i (g, r))))).
      main_hazard z"
  obtain hz vs ds where H: "g_hazards (fst (gen_segment P i (g, r))) = g_hazards g @ hz"
    and V: "g_vegetation (fst (gen_segment P i (g, r))) = g_vegetation g @ vs"
    and D: "g_decorations (fst (gen_segment P i (g, r))) = g_decorations g @ ds"
    and c: "(\<exists>z \<in> set hz. main_hazard z) \<longrightarrow> vs = [] \<and> ds = [] \<and> length hz = 1"
    using gen_segment_added [of P i g r] by blast
  have "\<exists>z \<in> set hz. main_hazard z" using a unfolding H by simp
  then have e: "vs = [] \<and> ds = []" using c by blast
  show "g_vegetation (fst (gen_segment P i (g, r))) = g_vegetation g" using V e by simp
  show "g_decorations (fst (gen_segment P i (g, r))) = g_decorations g" using D e by simp
qed

theorem main_hazard_excludes_vegetation_witness:
  "\<exists>z \<in> set (g_hazards (fst (generate_map fallback_planet (\<lambda>n. 0)))).
     \<exists>v \<in> set (g_vegetation (fst (generate_map fallback_planet (\<lambda>n. 0)))).
       hz_type z = lava \<and> hz_x z = 550 \<and> v_x v = 0 \<and> \<not> overlaps z v"
proof -
  let ?m = "fst (generate_map fallback_planet (\<lambda>n. 0))"
  let ?z = "\<lparr>hz_x = 550, hz_width = 50, hz_type = lava\<rparr>"
  have u: "unit_draws (\<lambda>n. 0)" by (simp add: unit_draws_def)
  have z: "?z \<in> set (g_hazards ?m)" by (rule fallback_zero_lava)
  have mz: "main_hazard ?z" by (simp add: main_hazard_def)
  obtain v where v: "v \<in> set (g_vegetation ?m)" "v_x v = 0"
    using fallback_zero_first(2) by blast
  have "\<not> overlaps ?z v"
    using main_hazard_excludes_vegetation [of "\<lambda>n. 0" fallback_planet] u v(1) z mz by blast
  then show ?thesis using z v
    by (intro bexI [of _ ?z] bexI [of _ v]) simp_all
qed

section \<open>Properties of empty planet lists\<close>

































text \<open>
  Only \<open>updateWeather\<close> assigns the weather fields: every other step of a frame leaves
  them as they are.
\<close>

named_theorems weather_frame

lemma spawnFloatingText_weather [weather_frame]:
  "weatherState (spawnFloatingText txt s) = weatherState s"
  "currentWeather (spawnFloatingText txt s) = currentWeather s"
  "weatherIntensity (spawnFloatingText txt s) = weatherIntensity s"
  "weatherTimer (spawnFloatingText txt s) = weatherTimer s"
  "timeOfDay (spawnFloatingText txt s) = timeOfDay s"
  by (simp_all add: spawnFloatingText_def)

lemma addScreenshake_weather [weather_frame]:
  "weatherState (addScreenshake a s) = weatherState s"
  "currentWeather (addScreenshake a s) = currentWeather s"
  "weatherIntensity (addScreenshake a s) = weatherIntensity s"
  "weatherTimer (addScreenshake a s) = weatherTimer s"
  "timeOfDay (addScreenshake a s) = timeOfDay s"
  by (simp_all add: addScreenshake_def)

lemma queueMessage_weather [weather_frame]:
  "weatherState (queueMessage txt s) = weatherState s"
  "currentWeather (queueMessage txt s) = currentWeather s"
  "weatherIntensity (queueMessage txt s) = weatherIntensity s"
  "weatherTimer (queueMessage txt s) = weatherTimer s"
  "timeOfDay (queueMessage txt s) = timeOfDay s"
  by (simp_all add: queueMessage_def)

lemma spawnEnemyProjectile_weather [weather_frame]:
  "weatherState (spawnEnemyProjectile C x y angle s) = weatherState s"
  "currentWeather (spawnEnemyProjectile C x y angle s) = currentWeather s"
  "weatherIntensity (spawnEnemyProjectile C x y angle s) = weatherIntensity s"
  "weatherTimer (spawnEnemyProjectile C x y angle s) = weatherTimer s"
  "timeOfDay (spawnEnemyProjectile C x y angle s) = timeOfDay s"
  by (simp_all add: spawnEnemyProjectile_def Let_def split_def weather_frame)

lemma contact_damage_weather [weather_frame]:
  "weatherState (contact_damage C ent s) = weatherState s"
  "currentWeather (contact_damage C ent s) = currentWeather s"
  "weatherIntensity (contact_damage C ent s) = weatherIntensity s"
  "weatherTimer (contact_damage C ent s) = weatherTimer s"
  "timeOfDay (contact_damage C ent s) = timeOfDay s"
  by (simp_all add: contact_damage_def Let_def split_def weather_frame)

lemma aggro_rule_weather [weather_frame]:
  "weatherState (fst (snd (aggro_rule C dt ctx ent r s))) = weatherState s"
  "currentWeather (fst (snd (aggro_rule C dt ctx ent r s))) = currentWeather s"
  "weatherIntensity (fst (snd (aggro_rule C dt ctx ent r s))) = weatherIntensity s"
  "weatherTimer (fst (snd (aggro_rule C dt ctx ent r s))) = weatherTimer s"
  "timeOfDay (fst (snd (aggro_rule C dt ctx ent r s))) = timeOfDay s"
  by (simp_all add: aggro_rule_def Let_def split_def weather_frame split: option.splits)

lemma sentinel_ai_weather [weather_frame]:
  "weatherState (snd (sentinel_ai C dt ctx ent s)) = weatherState s"
  "currentWeather (snd (sentinel_ai C dt ctx ent s)) = currentWeather s"
  "weatherIntensity (snd (sentinel_ai C dt ctx ent s)) = weatherIntensity s"
  "weatherTimer (snd (sentinel_ai C dt ctx ent s)) = weatherTimer s"
  "timeOfDay (snd (sentinel_ai C dt ctx ent s)) = timeOfDay s"
  by (simp_all add: sentinel_ai_def Let_def split_def weather_frame)

lemma shielder_ai_weather [weather_frame]:
  "weatherState (snd (shielder_ai dt ent s)) = weatherState s"
  "currentWeather (snd (shielder_ai dt ent s)) = currentWeather s"
  "weatherIntensity (snd (shielder_ai dt ent s)) = weatherIntensity s"
  "weatherTimer (snd (shielder_ai dt ent s)) = weatherTimer s"
  "timeOfDay (snd (shielder_ai dt ent s)) = timeOfDay s"
  by (simp_all add: shielder_ai_def Let_def split_def weather_frame)

lemma sandworm_ai_weather [weather_frame]:
  "weatherState (snd (sandworm_ai C dt ent s)) = weatherState s"
  "currentWeather (snd (sandworm_ai C dt ent s)) = currentWeather s"
  "weatherIntensity (snd (sandworm_ai C dt ent s)) = weatherIntensity s"
  "weatherTimer (snd (sandworm_ai C dt ent s)) = weatherTimer s"
  "timeOfDay (snd (sandworm_ai C dt ent s)) = timeOfDay s"
  by (simp_all add: sandworm_ai_def Let_def split_def weather_frame)

lemma spawnEnemy_weather [weather_frame]:
  "weatherState (fst (spawnEnemy C P x gy fa fr r s)) = weatherState s"
  "currentWeather (fst (spawnEnemy C P x gy fa fr r s)) = currentWeather s"
  "weatherIntensity (fst (spawnEnemy C P x gy fa fr r s)) = weatherIntensity s"
  "weatherTimer (fst (spawnEnemy C P x gy fa fr r s)) = weatherTimer s"
  "timeOfDay (fst (spawnEnemy C P x gy fa fr r s)) = timeOfDay s"
  by (simp_all add: spawnEnemy_def Let_def split_def weather_frame)

lemma guardian_spread_weather [weather_frame]:
  "weatherState (guardian_spread C ent i n s) = weatherState s"
  "currentWeather (guardian_spread C ent i n s) = currentWeather s"
  "weatherIntensity (guardian_spread C ent i n s) = weatherIntensity s"
  "weatherTimer (guardian_spread C ent i n s) = weatherTimer s"
  "timeOfDay (guardian_spread C ent i n s) = timeOfDay s"
  by (induction n arbitrary: i s) (simp_all add: Let_def weather_frame)

lemma guardian_summon_weather [weather_frame]:
  "weatherState (fst (guardian_summon C P ent n r s)) = weatherState s"
  "currentWeather (fst (guardian_summon C P ent n r s)) = currentWeather s"
  "weatherIntensity (fst (guardian_summon C P ent n r s)) = weatherIntensity s"
  "weatherTimer (fst (guardian_summon C P ent n r s)) = weatherTimer s"
  "timeOfDay (fst (guardian_summon C P ent n r s)) = timeOfDay s"
  by (induction n arbitrary: r s) (simp_all add: Let_def split_def weather_frame)

lemma guardian_ai_weather [weather_frame]:
  "weatherState (fst (snd (guardian_ai C P dt ctx ent r s))) = weatherState s"
  "currentWeather (fst (snd (guardian_ai C P dt ctx ent r s))) = currentWeather s"
  "weatherIntensity (fst (snd (guardian_ai C P dt ctx ent r s))) = weatherIntensity s"
  "weatherTimer (fst (snd (guardian_ai C P dt ctx ent r s))) = weatherTimer s"
  "timeOfDay (fst (snd (guardian_ai C P dt ctx ent r s))) = timeOfDay s"
  by (simp_all add: guardian_ai_def Let_def split_def weather_frame)

lemma archetype_ai_weather [weather_frame]:
  "weatherState (fst (snd (archetype_ai C P dt ctx ent r s))) = weatherState s"
  "currentWeather (fst (snd (archetype_ai C P dt ctx ent r s))) = currentWeather s"
  "weatherIntensity (fst (snd (archetype_ai C P dt ctx ent r s))) = weatherIntensity s"
  "weatherTimer (fst (snd (archetype_ai C P dt ctx ent r s))) = weatherTimer s"
  "timeOfDay (fst (snd (archetype_ai C P dt ctx ent r s))) = timeOfDay s"
  by (simp_all add: archetype_ai_def Let_def split_def weather_frame split: option.splits EnemyArchetype.splits)


lemma same_weather_fields:
  assumes "same_weather s s'"
  shows "weatherState s' = weatherState s" "currentWeather s' = currentWeather s"
    "weatherIntensity s' = weatherIntensity s" "weatherTimer s' = weatherTimer s"
    "timeOfDay s' = timeOfDay s"
  using assms by (simp_all add: same_weather_def)






lemma explode_weather [weather_frame]:
  "weatherState (spawnExplosion U x y s) = weatherState s"
  "currentWeather (spawnExplosion U x y s) = currentWeather s"
  "weatherIntensity (spawnExplosion U x y s) = weatherIntensity s"
  "weatherTimer (spawnExplosion U x y s) = weatherTimer s"
  "timeOfDay (spawnExplosion U x y s) = timeOfDay s"
  by (simp_all add: spawnExplosion_def Let_def split_def weather_frame)

lemma resolve_hit_weather [weather_frame]:
  "weatherState (snd (resolve_hit fl C U index proj s)) = weatherState s"
  "currentWeather (snd (resolve_hit fl C U index proj s)) = currentWeather s"
  "weatherIntensity (snd (resolve_hit fl C U index proj s)) = weatherIntensity s"
  "weatherTimer (snd (resolve_hit fl C U index proj s)) = weatherTimer s"
  "timeOfDay (snd (resolve_hit fl C U index proj s)) = timeOfDay s"
  by (simp_all add: resolve_hit_def Let_def split_def weather_frame)

lemma projectile_hits_weather [weather_frame]:
  "weatherState (snd (projectile_hits fl C U index n proj s)) = weatherState s"
  "currentWeather (snd (projectile_hits fl C U index n proj s)) = currentWeather s"
  "weatherIntensity (snd (projectile_hits fl C U index n proj s)) = weatherIntensity s"
  "weatherTimer (snd (projectile_hits fl C U index n proj s)) = weatherTimer s"
  "timeOfDay (snd (projectile_hits fl C U index n proj s)) = timeOfDay s"
  by (induction n arbitrary: index proj s) (simp_all add: Let_def split_def weather_frame)

lemma enemy_projectile_hit_weather [weather_frame]:
  "weatherState (snd (enemy_projectile_hit C proj s)) = weatherState s"
  "currentWeather (snd (enemy_projectile_hit C proj s)) = currentWeather s"
  "weatherIntensity (snd (enemy_projectile_hit C proj s)) = weatherIntensity s"
  "weatherTimer (snd (enemy_projectile_hit C proj s)) = weatherTimer s"
  "timeOfDay (snd (enemy_projectile_hit C proj s)) = timeOfDay s"
  by (simp_all add: enemy_projectile_hit_def Let_def split_def weather_frame)

lemma projectile_turn_weather [weather_frame]:
  "weatherState (snd (projectile_turn fl C U dt proj s)) = weatherState s"
  "currentWeather (snd (projectile_turn fl C U dt proj s)) = currentWeather s"
  "weatherIntensity (snd (projectile_turn fl C U dt proj s)) = weatherIntensity s"
  "weatherTimer (snd (projectile_turn fl C U dt proj s)) = weatherTimer s"
  "timeOfDay (snd (projectile_turn fl C U dt proj s)) = timeOfDay s"
  by (simp_all add: projectile_turn_def Let_def split_def weather_frame)

lemma projectiles_loop_weather [weather_frame]:
  "weatherState (snd (projectiles_loop fl C U dt ps s)) = weatherState s"
  "currentWeather (snd (projectiles_loop fl C U dt ps s)) = currentWeather s"
  "weatherIntensity (snd (projectiles_loop fl C U dt ps s)) = weatherIntensity s"
  "weatherTimer (snd (projectiles_loop fl C U dt ps s)) = weatherTimer s"
  "timeOfDay (snd (projectiles_loop fl C U dt ps s)) = timeOfDay s"
  by (induction ps arbitrary: s) (simp_all add: Let_def split_def weather_frame)

lemma projectiles_phase_weather [weather_frame]:
  "weatherState (projectiles_phase fl C U dt s) = weatherState s"
  "currentWeather (projectiles_phase fl C U dt s) = currentWeather s"
  "weatherIntensity (projectiles_phase fl C U dt s) = weatherIntensity s"
  "weatherTimer (projectiles_phase fl C U dt s) = weatherTimer s"
  "timeOfDay (projectiles_phase fl C U dt s) = timeOfDay s"
  by (simp_all add: projectiles_phase_def Let_def split_def weather_frame)

lemma spawnBoss_weather [weather_frame]:
  "weatherState (spawnBoss C s) = weatherState s"
  "currentWeather (spawnBoss C s) = currentWeather s"
  "weatherIntensity (spawnBoss C s) = weatherIntensity s"
  "weatherTimer (spawnBoss C s) = weatherTimer s"
  "timeOfDay (spawnBoss C s) = timeOfDay s"
  by (simp_all add: spawnBoss_def Let_def split_def weather_frame)

lemma core_pickup_weather [weather_frame]:
  "weatherState (core_pickup C s) = weatherState s"
  "currentWeather (core_pickup C s) = currentWeather s"
  "weatherIntensity (core_pickup C s) = weatherIntensity s"
  "weatherTimer (core_pickup C s) = weatherTimer s"
  "timeOfDay (core_pickup C s) = timeOfDay s"
  by (simp_all add: core_pickup_def Let_def split_def weather_frame)

lemma loot_pickup_weather [weather_frame]:
  "weatherState (loot_pickup C item s) = weatherState s"
  "currentWeather (loot_pickup C item s) = currentWeather s"
  "weatherIntensity (loot_pickup C item s) = weatherIntensity s"
  "weatherTimer (loot_pickup C item s) = weatherTimer s"
  "timeOfDay (loot_pickup C item s) = timeOfDay s"
  by (simp_all add: loot_pickup_def Let_def split_def weather_frame split: option.splits)

lemma loot_step_weather [weather_frame]:
  "weatherState (snd (loot_step C P dt item s)) = weatherState s"
  "currentWeather (snd (loot_step C P dt item s)) = currentWeather s"
  "weatherIntensity (snd (loot_step C P dt item s)) = weatherIntensity s"
  "weatherTimer (snd (loot_step C P dt item s)) = weatherTimer s"
  "timeOfDay (snd (loot_step C P dt item s)) = timeOfDay s"
  by (simp_all add: loot_step_def Let_def split_def weather_frame)

lemma loot_loop_weather [weather_frame]:
  "weatherState (snd (loot_loop C P dt items s)) = weatherState s"
  "currentWeather (snd (loot_loop C P dt items s)) = currentWeather s"
  "weatherIntensity (snd (loot_loop C P dt items s)) = weatherIntensity s"
  "weatherTimer (snd (loot_loop C P dt items s)) = weatherTimer s"
  "timeOfDay (snd (loot_loop C P dt items s)) = timeOfDay s"
  by (induction items arbitrary: s) (simp_all add: Let_def split_def weather_frame)

lemma loot_phase_weather [weather_frame]:
  "weatherState (loot_phase C P dt s) = weatherState s"
  "currentWeather (loot_phase C P dt s) = currentWeather s"
  "weatherIntensity (loot_phase C P dt s) = weatherIntensity s"
  "weatherTimer (loot_phase C P dt s) = weatherTimer s"
  "timeOfDay (loot_phase C P dt s) = timeOfDay s"
  by (simp_all add: loot_phase_def Let_def split_def weather_frame)

lemma tick_timers_weather [weather_frame]:
  "weatherState (tick_timers dt s) = weatherState s"
  "currentWeather (tick_timers dt s) = currentWeather s"
  "weatherIntensity (tick_timers dt s) = weatherIntensity s"
  "weatherTimer (tick_timers dt s) = weatherTimer s"
  "timeOfDay (tick_timers dt s) = timeOfDay s"
  by (simp_all add: tick_timers_def Let_def split_def weather_frame)

lemma take_aim_weather [weather_frame]:
  "weatherState (take_aim inp s) = weatherState s"
  "currentWeather (take_aim inp s) = currentWeather s"
  "weatherIntensity (take_aim inp s) = weatherIntensity s"
  "weatherTimer (take_aim inp s) = weatherTimer s"
  "timeOfDay (take_aim inp s) = timeOfDay s"
  by (simp_all add: take_aim_def Let_def split_def weather_frame)

lemma player_walk_weather [weather_frame]:
  "weatherState (player_walk C U inp dt hazard s) = weatherState s"
  "currentWeather (player_walk C U inp dt hazard s) = currentWeather s"
  "weatherIntensity (player_walk C U inp dt hazard s) = weatherIntensity s"
  "weatherTimer (player_walk C U inp dt hazard s) = weatherTimer s"
  "timeOfDay (player_walk C U inp dt hazard s) = timeOfDay s"
  by (simp_all add: player_walk_def Let_def split_def weather_frame)

lemma player_jump_weather [weather_frame]:
  "weatherState (player_jump C P inp dt s) = weatherState s"
  "currentWeather (player_jump C P inp dt s) = currentWeather s"
  "weatherIntensity (player_jump C P inp dt s) = weatherIntensity s"
  "weatherTimer (player_jump C P inp dt s) = weatherTimer s"
  "timeOfDay (player_jump C P inp dt s) = timeOfDay s"
  by (simp_all add: player_jump_def Let_def split_def weather_frame)

lemma spawn_shots_weather [weather_frame]:
  "weatherState (fst (spawn_shots C U x y angle w n r s)) = weatherState s"
  "currentWeather (fst (spawn_shots C U x y angle w n r s)) = currentWeather s"
  "weatherIntensity (fst (spawn_shots C U x y angle w n r s)) = weatherIntensity s"
  "weatherTimer (fst (spawn_shots C U x y angle w n r s)) = weatherTimer s"
  "timeOfDay (fst (spawn_shots C U x y angle w n r s)) = timeOfDay s"
  by (induction n arbitrary: r s) (simp_all add: Let_def weather_frame)

lemma player_shoot_weather [weather_frame]:
  "weatherState (fst (player_shoot C U inp r s)) = weatherState s"
  "currentWeather (fst (player_shoot C U inp r s)) = currentWeather s"
  "weatherIntensity (fst (player_shoot C U inp r s)) = weatherIntensity s"
  "weatherTimer (fst (player_shoot C U inp r s)) = weatherTimer s"
  "timeOfDay (fst (player_shoot C U inp r s)) = timeOfDay s"
  by (simp_all add: player_shoot_def spawnPlayerProjectile_def Let_def split_def weather_frame)

lemma hazard_hit_weather [weather_frame]:
  "weatherState (hazard_hit C dmg txt s) = weatherState s"
  "currentWeather (hazard_hit C dmg txt s) = currentWeather s"
  "weatherIntensity (hazard_hit C dmg txt s) = weatherIntensity s"
  "weatherTimer (hazard_hit C dmg txt s) = weatherTimer s"
  "timeOfDay (hazard_hit C dmg txt s) = timeOfDay s"
  by (simp_all add: hazard_hit_def Let_def split_def weather_frame)

lemma hazard_effect_weather [weather_frame]:
  "weatherState (hazard_effect C hz groundY s) = weatherState s"
  "currentWeather (hazard_effect C hz groundY s) = currentWeather s"
  "weatherIntensity (hazard_effect C hz groundY s) = weatherIntensity s"
  "weatherTimer (hazard_effect C hz groundY s) = weatherTimer s"
  "timeOfDay (hazard_effect C hz groundY s) = timeOfDay s"
  by (simp_all add: hazard_effect_def Let_def split_def weather_frame)

lemma player_physics_weather [weather_frame]:
  "weatherState (player_physics C P dt hazard s) = weatherState s"
  "currentWeather (player_physics C P dt hazard s) = currentWeather s"
  "weatherIntensity (player_physics C P dt hazard s) = weatherIntensity s"
  "weatherTimer (player_physics C P dt hazard s) = weatherTimer s"
  "timeOfDay (player_physics C P dt hazard s) = timeOfDay s"
  by (simp_all add: player_physics_def Let_def split_def weather_frame split: option.splits)

lemma camera_follow_weather [weather_frame]:
  "weatherState (camera_follow inp s) = weatherState s"
  "currentWeather (camera_follow inp s) = currentWeather s"
  "weatherIntensity (camera_follow inp s) = weatherIntensity s"
  "weatherTimer (camera_follow inp s) = weatherTimer s"
  "timeOfDay (camera_follow inp s) = timeOfDay s"
  by (simp_all add: camera_follow_def Let_def split_def weather_frame)

lemma spawn_members_weather [weather_frame]:
  "weatherState (fst (spawn_members C P startX ms r s)) = weatherState s"
  "currentWeather (fst (spawn_members C P startX ms r s)) = currentWeather s"
  "weatherIntensity (fst (spawn_members C P startX ms r s)) = weatherIntensity s"
  "weatherTimer (fst (spawn_members C P startX ms r s)) = weatherTimer s"
  "timeOfDay (fst (spawn_members C P startX ms r s)) = timeOfDay s"
  by (induction ms arbitrary: r s) (simp_all add: Let_def split_def weather_frame)

lemma spawnSquad_weather [weather_frame]:
  "weatherState (fst (spawnSquad C P startX r s)) = weatherState s"
  "currentWeather (fst (spawnSquad C P startX r s)) = currentWeather s"
  "weatherIntensity (fst (spawnSquad C P startX r s)) = weatherIntensity s"
  "weatherTimer (fst (spawnSquad C P startX r s)) = weatherTimer s"
  "timeOfDay (fst (spawnSquad C P startX r s)) = timeOfDay s"
  by (simp_all add: spawnSquad_def Let_def split_def weather_frame)

lemma squad_trigger_weather [weather_frame]:
  "weatherState (fst (squad_trigger C P r s)) = weatherState s"
  "currentWeather (fst (squad_trigger C P r s)) = currentWeather s"
  "weatherIntensity (fst (squad_trigger C P r s)) = weatherIntensity s"
  "weatherTimer (fst (squad_trigger C P r s)) = weatherTimer s"
  "timeOfDay (fst (squad_trigger C P r s)) = timeOfDay s"
  by (simp_all add: squad_trigger_def Let_def split_def weather_frame)

lemma intro_step_weather [weather_frame]:
  "weatherState (intro_step C P dt s) = weatherState s"
  "currentWeather (intro_step C P dt s) = currentWeather s"
  "weatherIntensity (intro_step C P dt s) = weatherIntensity s"
  "weatherTimer (intro_step C P dt s) = weatherTimer s"
  "timeOfDay (intro_step C P dt s) = timeOfDay s"
  by (simp_all add: intro_step_def Let_def split_def weather_frame)

lemma compact_weather [weather_frame]:
  "weatherState (compact s) = weatherState s"
  "currentWeather (compact s) = currentWeather s"
  "weatherIntensity (compact s) = weatherIntensity s"
  "weatherTimer (compact s) = weatherTimer s"
  "timeOfDay (compact s) = timeOfDay s"
  by (simp_all add: compact_def Let_def split_def weather_frame)

lemma check_game_over_weather [weather_frame]:
  "weatherState (check_game_over s) = weatherState s"
  "currentWeather (check_game_over s) = currentWeather s"
  "weatherIntensity (check_game_over s) = weatherIntensity s"
  "weatherTimer (check_game_over s) = weatherTimer s"
  "timeOfDay (check_game_over s) = timeOfDay s"
  by (simp_all add: check_game_over_def Let_def split_def weather_frame)








section \<open>Properties of a frame without time\<close>

lemma hypot_zero [simp]: "hypot a 0 = \<bar>a\<bar>"
  by (simp add: hypot_def)

lemma groundHeight_empty [simp]: "groundHeight [] x = 600"
  by (simp add: groundHeight_def getGroundHeightAt_def LOGICAL_HEIGHT_def)

lemma drift_weather:
  "updateWeather fallback_planet 0 (\<lambda>n. 1/2) drift_state = Some (drift_state, \<lambda>n. 1/2)"
  by (simp add: updateWeather_def weather_intensity_step_def drift_state_def mission_start_def
      fallback_planet_def Let_def)

lemma drift_player:
  "camera_follow (idle_input 216 584)
     (player_physics sample_constants fallback_planet 0 (hazard_under drift_state)
       (fst (player_shoot sample_constants sample_upgrades (idle_input 216 584) (\<lambda>n. 1/2)
         (player_jump sample_constants fallback_planet (idle_input 216 584) 0
           (player_walk sample_constants sample_upgrades (idle_input 216 584) 0
              (hazard_under drift_state)
              (take_aim (idle_input 216 584) (tick_timers 0 drift_state)))))))
   = drift_landed"
  by (simp add: drift_landed_def drift_state_def mission_start_def initial_player_def
      camera_follow_def player_physics_def player_shoot_def isShooting_def player_jump_def
      isJumpPressed_def timer_running_def player_walk_def inputX_def hazard_under_def
      take_aim_def tick_timers_def idle_input_def js_atan2_def set_vx_def set_vy_def
      set_px_def set_py_def sample_constants_def sample_physics_def moveSpeedMult_def
      sample_upgrades_def fallback_planet_def Let_def)


lemma player_shoot_idle: "player_shoot C U (idle_input mx my) r s = (s, r)"
  by (simp add: player_shoot_def isShooting_def idle_input_def)

lemma drift_player2:
  "camera_follow (idle_input 216 584)
     (player_physics sample_constants fallback_planet 0 (hazard_under drift_state)
         (player_jump sample_constants fallback_planet (idle_input 216 584) 0
           (player_walk sample_constants sample_upgrades (idle_input 216 584) 0
              (hazard_under drift_state)
              (take_aim (idle_input 216 584) (tick_timers 0 drift_state)))))
   = drift_landed"
  using drift_player by (simp add: player_shoot_idle)

lemma drift_aim: "take_aim (idle_input 216 584) (tick_timers 0 drift_state) = drift_state"
  by (simp add: drift_state_def mission_start_def initial_player_def
      take_aim_def tick_timers_def idle_input_def js_atan2_def sample_constants_def Let_def)

lemma drift_squad: "squad_trigger C P r drift_landed = (drift_landed, r)"
  by (simp add: squad_trigger_def drift_landed_def drift_state_def mission_start_def
      initial_player_def Let_def)

lemma drift_enemy:
  "enemies_phase sample_constants fallback_planet 0 (\<lambda>n. 1/2) drift_landed =
   Some (drift_landed\<lparr>enemies :=
       [drifting_crawler\<lparr>vel := \<lparr>cx = 0.95, cy = 0\<rparr>, facingRight := True\<rparr>]\<rparr>, \<lambda>n. 1/2)"
  by (simp add: enemies_phase_def enemy_turn_def drift_landed_def drift_state_def
      drifting_crawler_def sample_enemy_def
      mission_start_def initial_player_def turn_ctx_def set_vx_def set_vy_def set_px_def set_py_def
      aggro_rule_def stats_row_def sample_constants_def sample_stats_def sample_physics_def
      js_or_def archetype_ai_def crawler_ai_def enemy_physics_def contact_damage_def
      checkCollision_def enemy_death_def LOGICAL_HEIGHT_def fallback_planet_def Let_def)

lemma drift_rest:
  assumes "projectiles s = []" and "loot s = []" and "health (player s) > 0"
    and "\<forall>e \<in> set (enemies s). \<not> markedForDeletion e"
  shows "check_game_over (compact (loot_phase C P dt (projectiles_phase fl C U dt s)))
     = s\<lparr>frameCount := frameCount s + 1\<rparr>"
proof -
  have a: "projectiles_phase fl C U dt s = s" using assms(1) by (simp add: projectiles_phase_def)
  have b: "loot_phase C P dt s = s" using assms(2) by (simp add: loot_phase_def)
  have c: "filter (\<lambda>e. \<not> markedForDeletion e) (enemies s) = enemies s"
    using assms(4) by (simp add: filter_id_conv)
  have d: "compact s = s\<lparr>frameCount := frameCount s + 1\<rparr>"
    using assms(1,2) c by (simp add: compact_def)
  show ?thesis unfolding a b d using assms(3) by (simp add: check_game_over_def)
qed

text \<open>
  Claim C2, as stated, fails: past the intro and outside hit-stop, \<open>update(0)\<close> with no
  input held leaves the drifting crawler where it is but multiplies its horizontal
  velocity by 0.95, from 1 to 0.95 (and the player is flagged as grounded, the camera
  moves and the frame counter advances).
\<close>

theorem update_zero_counterexample:
  "update exact sample_constants fallback_planet sample_upgrades (idle_input 216 584) 0 (\<lambda>n. 1/2)
     drift_state
   = Some (drift_landed\<lparr>enemies :=
         [drifting_crawler\<lparr>vel := \<lparr>cx = 0.95, cy = 0\<rparr>, facingRight := True\<rparr>],
       frameCount := 1\<rparr>, \<lambda>n. 1/2)
   \<and> enemies drift_state = [drifting_crawler]
   \<and> cx (vel drifting_crawler) = 1"
proof -
  let ?s7 = "drift_landed\<lparr>enemies :=
       [drifting_crawler\<lparr>vel := \<lparr>cx = 0.95, cy = 0\<rparr>, facingRight := True\<rparr>]\<rparr>"
  have h: "hitStop drift_state = 0" "introTimer drift_state = 0"
    by (simp_all add: drift_state_def mission_start_def Let_def)
  have rest: "check_game_over (compact (loot_phase sample_constants fallback_planet 0
      (projectiles_phase exact sample_constants sample_upgrades 0 ?s7)))
      = ?s7\<lparr>frameCount := frameCount ?s7 + 1\<rparr>"
    by (rule drift_rest)
      (simp_all add: drift_landed_def drift_state_def mission_start_def initial_player_def
        drifting_crawler_def sample_enemy_def Let_def)
  have f: "frameCount ?s7 = 0"
    by (simp add: drift_landed_def drift_state_def mission_start_def Let_def)
  have u: "update exact sample_constants fallback_planet sample_upgrades (idle_input 216 584) 0
      (\<lambda>n. 1/2) drift_state = Some (?s7\<lparr>frameCount := frameCount ?s7 + 1\<rparr>, \<lambda>n. 1/2)"
    unfolding update_def using rest
    by (simp add: h drift_weather drift_aim Let_def player_shoot_idle
        drift_player2 [unfolded drift_aim] drift_squad drift_enemy)
  show ?thesis
    using u f by (simp add: drift_state_def drifting_crawler_def Let_def)
qed


lemma updateWeather_zero:
  assumes "timeOfDay s \<le> 1" and "0 \<le> weatherIntensity s" and "weatherIntensity s \<le> 1"
    and "(weatherVolatility P > 0 \<and> weatherTimer s > 0)
         \<or> (weatherVolatility P \<le> 0 \<and> weatherState s = phase_clear \<and> currentWeather s = clear)"
  shows "updateWeather P 0 r s = Some (s, r)"
proof -
  have i: "weather_intensity_step 0 s = s"
    using assms(2,3) by (cases "weatherState s") (simp_all add: weather_intensity_step_def)
  have t: "s\<lparr>timeOfDay := timeOfDay s\<rparr> = s" by simp
  show ?thesis
  proof (cases "weatherVolatility P > 0")
    case True
    then have "weatherTimer s > 0" using assms(4) by auto
    then show ?thesis using True assms(1) i by (simp add: updateWeather_def Let_def)
  next
    case False
    then have c: "weatherState s = phase_clear" "currentWeather s = clear" using assms(4) by auto
    have "s\<lparr>weatherState := phase_clear, currentWeather := clear\<rparr>
        = s\<lparr>weatherState := weatherState s, currentWeather := currentWeather s\<rparr>"
      unfolding c ..
    also have "\<dots> = s" by simp
    finally have e: "s\<lparr>weatherState := phase_clear, currentWeather := clear\<rparr> = s" .
    show ?thesis using False assms(1) i e by (simp add: updateWeather_def Let_def)
  qed
qed

lemma tick_timers_zero:
  "hitTimer (player (tick_timers 0 s)) = hitTimer (player s)"
  "weaponCooldown (tick_timers 0 s) = weaponCooldown s"
  by (simp_all add: tick_timers_def Let_def)

lemma hazard_hit_pos [simp]: "pos (player (hazard_hit C dmg txt s)) = pos (player s)"
  by (simp add: hazard_hit_def spawnFloatingText_def)

lemma hazard_effect_pos: "pos (player (hazard_effect C hz groundY s)) = pos (player s)"
  by (simp add: hazard_effect_def Let_def set_vx_def set_vy_def)

lemma player_physics_zero_x:
  assumes "0 \<le> cx (pos (player s))"
  shows "cx (pos (player (player_physics C P 0 hazard s))) = cx (pos (player s))"
  using assms
  by (cases hazard)
    (simp_all add: player_physics_def Let_def hazard_effect_pos set_vy_def set_py_def set_px_def)

text \<open>
  Claim C2, amended. A frame in hit-stop, whatever its time step, changes nothing but the
  hit-stop counter, which it decrements. In any other frame a time step of 0 stops what
  the engine scales by the time step: the weather update changes nothing (given a time of
  day of at most 1, an intensity within \<open>[0, 1]\<close> and a running phase timer, or a planet
  without volatility in clear weather), the player's hit timer and the weapon cooldown
  are not counted down, and the player is not moved sideways. What the engine does once
  per frame still happens: velocities are damped (every enemy's horizontal velocity is
  multiplied by 0.95), frame-based timers count, contacts hurt.
\<close>

theorem update_zero_effects:
  "(hitStop s > 0 \<longrightarrow> update fl C P U inp dt r s = Some (s\<lparr>hitStop := hitStop s - 1\<rparr>, r))
   \<and> (timeOfDay s \<le> 1 \<and> 0 \<le> weatherIntensity s \<and> weatherIntensity s \<le> 1
        \<and> ((weatherVolatility P > 0 \<and> weatherTimer s > 0)
             \<or> (weatherVolatility P \<le> 0 \<and> weatherState s = phase_clear
                 \<and> currentWeather s = clear)) \<longrightarrow>
        updateWeather P 0 r s = Some (s, r))
   \<and> hitTimer (player (tick_timers 0 s)) = hitTimer (player s)
   \<and> weaponCooldown (tick_timers 0 s) = weaponCooldown s
   \<and> (0 \<le> cx (pos (player s)) \<longrightarrow>
        cx (pos (player (player_physics C P 0 hazard s))) = cx (pos (player s)))"
proof (intro conjI impI)
  show "update fl C P U inp dt r s = Some (s\<lparr>hitStop := hitStop s - 1\<rparr>, r)" if "hitStop s > 0"
    using that by (simp add: update_def)
  show "updateWeather P 0 r s = Some (s, r)"
    if "timeOfDay s \<le> 1 \<and> 0 \<le> weatherIntensity s \<and> weatherIntensity s \<le> 1
        \<and> ((weatherVolatility P > 0 \<and> weatherTimer s > 0)
             \<or> (weatherVolatility P \<le> 0 \<and> weatherState s = phase_clear
                 \<and> currentWeather s = clear))"
    using that by (intro updateWeather_zero) blast+
  show "hitTimer (player (tick_timers 0 s)) = hitTimer (player s)"
    and "weaponCooldown (tick_timers 0 s) = weaponCooldown s"
    by (rule tick_timers_zero)+
  show "cx (pos (player (player_physics C P 0 hazard s))) = cx (pos (player s))"
    if "0 \<le> cx (pos (player s))"
    using that by (rule player_physics_zero_x)
qed

theorem update_zero_effects_witness:
  "update exact sample_constants fallback_planet sample_upgrades (idle_input 216 584) 0 (\<lambda>n. 1/2)
       (drift_state\<lparr>hitStop := 3\<rparr>)
     = Some (drift_state\<lparr>hitStop := 2\<rparr>, \<lambda>n. 1/2)
   \<and> updateWeather fallback_planet 0 (\<lambda>n. 1/2) (drift_state\<lparr>hitStop := 3\<rparr>)
     = Some (drift_state\<lparr>hitStop := 3\<rparr>, \<lambda>n. 1/2)
   \<and> cx (pos (player (player_physics sample_constants fallback_planet 0 None
         (drift_state\<lparr>hitStop := 3\<rparr>)))) = 100"
proof -
  let ?s = "drift_state\<lparr>hitStop := 3\<rparr>"
  have h: "hitStop ?s > 0 \<and> hitStop ?s - 1 = 2" by simp
  have w: "timeOfDay ?s \<le> 1 \<and> 0 \<le> weatherIntensity ?s \<and> weatherIntensity ?s \<le> 1
      \<and> weatherVolatility fallback_planet > 0 \<and> weatherTimer ?s > 0"
    by (simp add: drift_state_def mission_start_def fallback_planet_def Let_def)
  have x: "0 \<le> cx (pos (player ?s)) \<and> cx (pos (player ?s)) = 100"
    by (simp add: drift_state_def mission_start_def Let_def)
  note t = update_zero_effects
    [of ?s exact sample_constants fallback_planet sample_upgrades "idle_input 216 584" 0
        "\<lambda>n. 1/2" None]
  show ?thesis using t h w x by simp
qed

end
